theory Spec2Isabelle
  imports Complex_Main "HOL-Library.Sublist" "HOL-Library.AList"
begin

section \<open>JavaScript values shared by the models\<close>

text \<open>
  A thrown JavaScript value is either an \<open>Error\<close> object (with its \<open>message\<close> and
  \<open>stack\<close>) or any other value, of which the code only ever takes \<open>String(error)\<close>.
  A function of the source that can throw returns \<open>thrown + 'a\<close>, with \<open>Inl\<close> the
  thrown value.
\<close>

datatype thrown = Error string string | NonError string

text \<open>\<open>error instanceof Error ? error.message : String(error)\<close>\<close>

fun error_message :: "thrown \<Rightarrow> string" where
  "error_message (Error msg stk) = msg"
| "error_message (NonError str) = str"

text \<open>\<open>error instanceof Error ? error.stack : undefined\<close>\<close>

fun error_stack :: "thrown \<Rightarrow> string option" where
  "error_stack (Error msg stk) = Some stk"
| "error_stack (NonError str) = None"

text \<open>\<open>try { body } catch (error) { handler }\<close>\<close>

definition try_catch :: "thrown + 'a \<Rightarrow> (thrown \<Rightarrow> thrown + 'a) \<Rightarrow> thrown + 'a" where
  "try_catch body handler = (case body of Inl e \<Rightarrow> handler e | Inr v \<Rightarrow> Inr v)"

text \<open>\<open>Array.prototype.join(sep)\<close> on an array of strings.\<close>

fun join :: "string \<Rightarrow> string list \<Rightarrow> string" where
  "join sep [] = []"
| "join sep [x] = x"
| "join sep (x # y # ys) = x @ sep @ join sep (y # ys)"

text \<open>
  The names that every ordinary object inherits from \<open>Object.prototype\<close>. The operator
  \<open>key in obj\<close> is true for the own keys of \<open>obj\<close> and for the keys found on
  its prototype chain; objects written as literals or produced by \<open>JSON.parse\<close> have
  \<open>Object.prototype\<close> as their prototype.
\<close>

definition object_prototype_keys :: "string list" where
  "object_prototype_keys =
     [''constructor'', ''__defineGetter__'', ''__defineSetter__'', ''hasOwnProperty'',
      ''__lookupGetter__'', ''__lookupSetter__'', ''isPrototypeOf'', ''propertyIsEnumerable'',
      ''toString'', ''valueOf'', ''__proto__'', ''toLocaleString'']"

definition js_in :: "string \<Rightarrow> string list \<Rightarrow> bool" where
  "js_in key own_keys = (key \<in> set own_keys \<or> key \<in> set object_prototype_keys)"


section \<open>Tool entity and tool registry\<close>

text \<open>
  \<open>ToolResult\<close>: \<open>{success, output?, error?, metadata?}\<close>. The only metadata the
  code under study writes is \<open>{stack: ...}\<close>, so \<open>metadata\<close> is \<open>None\<close> when the
  field is absent and \<open>Some stk\<close> for \<open>{stack: stk}\<close> (\<open>stk = None\<close> for
  \<open>undefined\<close>).
\<close>

record 'o ToolResult =
  success :: bool
  tool_output :: "'o option"
  error :: "string option"
  metadata :: "string option option"

text \<open>
  \<open>ToolSchema\<close>: of \<open>properties\<close> only the own keys matter to the code; \<open>required\<close>
  is optional.
\<close>

record ToolSchema =
  properties :: "string list"
  required :: "string list option"

text \<open>
  \<open>ToolParams = Record<string, JsonValue>\<close>: the own enumerable properties in the
  order \<open>Object.keys\<close> lists them.
\<close>

type_synonym 'v ToolParams = "(string \<times> 'v) list"

record ('v, 'o) Tool =
  tool_id :: string
  name :: string
  description :: string
  schema :: ToolSchema
  executor :: "'v ToolParams \<Rightarrow> thrown + 'o ToolResult"

text \<open>\<open>Tool.validate\<close>: returns \<open>{valid, errors?}\<close>.\<close>

definition missing_required :: "ToolSchema \<Rightarrow> 'v ToolParams \<Rightarrow> string list" where
  "missing_required sch params =
     (case required sch of
        None \<Rightarrow> []
      | Some req \<Rightarrow>
          concat (map (\<lambda>requiredParam.
                    if \<not> js_in requiredParam (map fst params)
                    then [''Missing required parameter: '' @ requiredParam] else []) req))"

definition unknown_parameters :: "ToolSchema \<Rightarrow> 'v ToolParams \<Rightarrow> string list" where
  "unknown_parameters sch params =
     concat (map (\<lambda>key.
               if \<not> js_in key (properties sch)
               then [''Unknown parameter: '' @ key] else []) (map fst params))"

definition validate :: "ToolSchema \<Rightarrow> 'v ToolParams \<Rightarrow> bool \<times> string list option" where
  "validate sch params =
     (let errors = missing_required sch params @ unknown_parameters sch params
      in (length errors = 0, if length errors > 0 then Some errors else None))"

text \<open>
  \<open>Tool.execute\<close>. The second component of the result is the list of parameter
  objects the executor was invoked with during the call (empty when it was not invoked).
\<close>

definition Tool_execute ::
  "('v, 'o) Tool \<Rightarrow> 'v ToolParams \<Rightarrow> (thrown + 'o ToolResult) \<times> 'v ToolParams list" where
  "Tool_execute tool params =
     (let validation = validate (schema tool) params
      in if \<not> fst validation
         then (Inr \<lparr>success = False, tool_output = None,
                    error = Some (''Invalid parameters: '' @
                                  (case snd validation of None \<Rightarrow> ''undefined''
                                   | Some errs \<Rightarrow> join '', '' errs)),
                    metadata = None\<rparr>, [])
         else (try_catch (executor tool params)
                 (\<lambda>e. Inr \<lparr>success = False, tool_output = None, error = Some (error_message e),
                           metadata = Some (error_stack e)\<rparr>),
               [params]))"

text \<open>
  \<open>ToolRegistryImpl\<close>: two \<open>Map\<close>s, by id and by name, in insertion order
  (\<open>Map.set\<close> replaces in place or appends, as \<open>AList.update\<close> does).
\<close>

record ('v, 'o) ToolRegistryImpl =
  tools :: "(string \<times> ('v, 'o) Tool) list"
  toolsByName :: "(string \<times> ('v, 'o) Tool) list"

definition empty_registry :: "('v, 'o) ToolRegistryImpl" where
  "empty_registry = \<lparr>tools = [], toolsByName = []\<rparr>"

definition register :: "('v, 'o) Tool \<Rightarrow> ('v, 'o) ToolRegistryImpl \<Rightarrow> ('v, 'o) ToolRegistryImpl" where
  "register tool reg =
     \<lparr>tools = AList.update (tool_id tool) tool (tools reg),
      toolsByName = AList.update (name tool) tool (toolsByName reg)\<rparr>"

definition getByName :: "('v, 'o) ToolRegistryImpl \<Rightarrow> string \<Rightarrow> ('v, 'o) Tool option" where
  "getByName reg nm = map_of (toolsByName reg) nm"

definition list_tools :: "('v, 'o) ToolRegistryImpl \<Rightarrow> ('v, 'o) Tool list" where
  "list_tools reg = map snd (tools reg)"

text \<open>\<open>ToolRegistryImpl.execute\<close>, with the executor invocations of the call.\<close>

definition registry_execute ::
  "('v, 'o) ToolRegistryImpl \<Rightarrow> string \<Rightarrow> 'v ToolParams \<Rightarrow>
     (thrown + 'o ToolResult) \<times> 'v ToolParams list" where
  "registry_execute reg nm params =
     (case map_of (toolsByName reg) nm of
        None \<Rightarrow> (Inr \<lparr>success = False, tool_output = None,
                       error = Some (''Tool not found: '' @ nm), metadata = None\<rparr>, [])
      | Some tool \<Rightarrow>
          (let r = Tool_execute tool params
           in (try_catch (fst r)
                 (\<lambda>e. Inr \<lparr>success = False, tool_output = None, error = Some (error_message e),
                           metadata = None\<rparr>),
               snd r)))"


section \<open>Memory entities\<close>

datatype MemoryType = ShortTerm | LongTerm | Episodic | Semantic

datatype MemoryImportance = Low | Medium | High | Critical

text \<open>The numeric values of the enum, which the code compares with \<open><\<close> and \<open>>=\<close>.\<close>

fun importance_value :: "MemoryImportance \<Rightarrow> nat" where
  "importance_value Low = 1"
| "importance_value Medium = 2"
| "importance_value High = 3"
| "importance_value Critical = 4"

text \<open>
  \<open>MemoryEntry\<close> with its \<open>metadata\<close> fields inlined. Dates are epoch milliseconds.
  The content type \<open>'c\<close> stands for \<open>JsonValue\<close>.
\<close>

record 'c MemoryEntry =
  entry_id :: string
  entry_type :: MemoryType
  content :: 'c
  createdAt :: int
  accessedAt :: int
  accessCount :: nat
  importance :: MemoryImportance
  tags :: "string list"

text \<open>
  The system clock: \<open>clock k\<close> is the value of the \<open>k\<close>-th reading of
  \<open>new Date()\<close>. Every operation takes the number of readings made so far and returns
  it advanced by the readings it made.
\<close>

type_synonym clock = "nat \<Rightarrow> int"

text \<open>\<open>MemoryEntry.recordAccess\<close>: one clock reading.\<close>

definition recordAccess :: "clock \<Rightarrow> nat \<Rightarrow> 'c MemoryEntry \<Rightarrow> 'c MemoryEntry" where
  "recordAccess clk t e = e\<lparr>accessedAt := clk t, accessCount := accessCount e + 1\<rparr>"

text \<open>
  \<open>MemoryQuery\<close>; every field is optional. \<open>maxAge\<close> and \<open>limit\<close> are numbers,
  taken as integers here.
\<close>

record MemoryQuery =
  q_type :: "MemoryType option"
  q_tags :: "string list option"
  minImportance :: "MemoryImportance option"
  maxAge :: "int option"
  limit :: "int option"
  searchText :: "string option"

definition no_filter :: MemoryQuery where
  "no_filter = \<lparr>q_type = None, q_tags = None, minImportance = None, maxAge = None,
                 limit = None, searchText = None\<rparr>"

text \<open>
  JavaScript truthiness of an optional number and of an optional string, as tested by
  \<open>if (query.maxAge)\<close>, \<open>if (maxAge)\<close>, \<open>if (query.searchText)\<close>: \<open>undefined\<close>,
  \<open>0\<close> and the empty string are falsy.
\<close>

fun truthy_number :: "int option \<Rightarrow> bool" where
  "truthy_number None = False"
| "truthy_number (Some n) = (n \<noteq> 0)"

fun truthy_string :: "string option \<Rightarrow> bool" where
  "truthy_string None = False"
| "truthy_string (Some s) = (s \<noteq> [])"

text \<open>\<open>String.prototype.toLowerCase\<close> on the ASCII letters.\<close>

definition lower_char :: "char \<Rightarrow> char" where
  "lower_char c = (let n = (of_char c :: nat) in if 65 \<le> n \<and> n \<le> 90 then char_of (n + 32) else c)"

definition toLowerCase :: "string \<Rightarrow> string" where
  "toLowerCase s = map lower_char s"

text \<open>\<open>haystack.includes(needle)\<close>\<close>

fun str_includes :: "string \<Rightarrow> string \<Rightarrow> bool" where
  "str_includes [] needle = (needle = [])"
| "str_includes (c # cs) needle = (prefix needle (c # cs) \<or> str_includes cs needle)"

text \<open>\<open>`mem-${n}`\<close>: the decimal digits of a natural number.\<close>

definition digit_char :: "nat \<Rightarrow> char" where
  "digit_char d = char_of (48 + d)"

fun string_of_nat :: "nat \<Rightarrow> string" where
  "string_of_nat n =
     (if n < 10 then [digit_char n] else string_of_nat (n div 10) @ [digit_char (n mod 10)])"

declare string_of_nat.simps [simp del]

definition mk_id :: "nat \<Rightarrow> string" where
  "mk_id n = ''mem-'' @ string_of_nat n"

text \<open>The filters shared by both stores, on the fields both keep.\<close>

definition type_matches :: "MemoryQuery \<Rightarrow> MemoryType \<Rightarrow> bool" where
  "type_matches q ty = (case q_type q of None \<Rightarrow> True | Some qt \<Rightarrow> ty = qt)"

definition tags_match :: "MemoryQuery \<Rightarrow> string list \<Rightarrow> bool" where
  "tags_match q tgs =
     (case q_tags q of
        None \<Rightarrow> True
      | Some qtags \<Rightarrow> if length qtags > 0 then (\<exists>tag \<in> set qtags. tag \<in> set tgs) else True)"

definition importance_matches :: "MemoryQuery \<Rightarrow> MemoryImportance \<Rightarrow> bool" where
  "importance_matches q imp =
     (case minImportance q of
        None \<Rightarrow> True
      | Some m \<Rightarrow> importance_value imp \<ge> importance_value m)"

text \<open>The age filter reads the clock, and only when \<open>query.maxAge\<close> is truthy.\<close>

definition age_matches :: "clock \<Rightarrow> nat \<Rightarrow> MemoryQuery \<Rightarrow> int \<Rightarrow> bool" where
  "age_matches clk t q created =
     (if truthy_number (maxAge q) then clk t - created \<le> the (maxAge q) else True)"

definition age_ticks :: "MemoryQuery \<Rightarrow> nat" where
  "age_ticks q = (if truthy_number (maxAge q) then 1 else 0)"

definition text_matches :: "('c \<Rightarrow> string) \<Rightarrow> MemoryQuery \<Rightarrow> 'c \<Rightarrow> bool" where
  "text_matches stringify q c =
     (if truthy_string (searchText q)
      then str_includes (toLowerCase (stringify c)) (toLowerCase (the (searchText q)))
      else True)"

text \<open>\<open>if (query.limit && query.limit > 0) results = results.slice(0, query.limit)\<close>\<close>

definition apply_limit :: "MemoryQuery \<Rightarrow> 'a list \<Rightarrow> 'a list" where
  "apply_limit q xs =
     (case limit q of
        None \<Rightarrow> xs
      | Some l \<Rightarrow> if l \<noteq> 0 \<and> l > 0 then take (nat l) xs else xs)"

text \<open>
  The pruning test of both stores: \<open>if (maxAge) { age > maxAge && importance < minImportance }
  else if (importance < minImportance)\<close>.
\<close>

definition shouldPrune :: "int option \<Rightarrow> MemoryImportance \<Rightarrow> int \<Rightarrow> int \<Rightarrow> MemoryImportance \<Rightarrow> bool" where
  "shouldPrune maxAge_arg minImp now created imp =
     (if truthy_number maxAge_arg
      then now - created > the maxAge_arg \<and> importance_value imp < importance_value minImp
      else importance_value imp < importance_value minImp)"


section \<open>InMemoryMemoryStore (volatile tier)\<close>

text \<open>
  The \<open>Map\<close> from id to entry in insertion order, and the id counter. The methods return
  \<open>Result\<close> values that are always \<open>Ok\<close> (nothing inside their \<open>try\<close> blocks throws),
  so the model returns the value itself.
\<close>

record 'c InMemoryMemoryStore =
  memories :: "(string \<times> 'c MemoryEntry) list"
  nextId :: nat

definition new_InMemoryMemoryStore :: "'c InMemoryMemoryStore" where
  "new_InMemoryMemoryStore = \<lparr>memories = [], nextId = 1\<rparr>"

definition mem_store ::
  "clock \<Rightarrow> MemoryType \<Rightarrow> 'c \<Rightarrow> MemoryImportance \<Rightarrow> string list \<Rightarrow>
   'c InMemoryMemoryStore \<times> nat \<Rightarrow> 'c MemoryEntry \<times> 'c InMemoryMemoryStore \<times> nat" where
  "mem_store clk ty c imp tgs st =
     (let s = fst st; t = snd st;
          ident = mk_id (nextId s);
          now = clk t;
          entry = \<lparr>entry_id = ident, entry_type = ty, content = c, createdAt = now,
                   accessedAt = now, accessCount = 0, importance = imp, tags = tgs\<rparr>
      in (entry, \<lparr>memories = AList.update ident entry (memories s), nextId = nextId s + 1\<rparr>,
          t + 1))"

definition mem_retrieve ::
  "clock \<Rightarrow> string \<Rightarrow> 'c InMemoryMemoryStore \<times> nat \<Rightarrow>
   'c MemoryEntry option \<times> 'c InMemoryMemoryStore \<times> nat" where
  "mem_retrieve clk ident st =
     (let s = fst st; t = snd st
      in case map_of (memories s) ident of
           None \<Rightarrow> (None, s, t)
         | Some entry \<Rightarrow>
             (let entry' = recordAccess clk t entry
              in (Some entry', s\<lparr>memories := AList.update ident entry' (memories s)\<rparr>, t + 1)))"

text \<open>\<open>results.forEach((entry) => entry.recordAccess())\<close>: one clock reading each.\<close>

fun recordAccess_each ::
  "clock \<Rightarrow> nat \<Rightarrow> (string \<times> 'c MemoryEntry) list \<Rightarrow> (string \<times> 'c MemoryEntry) list" where
  "recordAccess_each clk t [] = []"
| "recordAccess_each clk t ((k, e) # rest) =
     (k, recordAccess clk t e) # recordAccess_each clk (Suc t) rest"

text \<open>The entries selected by the filters, sorted and limited, before access is recorded.\<close>

definition mem_select ::
  "clock \<Rightarrow> ('c \<Rightarrow> string) \<Rightarrow> MemoryQuery \<Rightarrow> 'c InMemoryMemoryStore \<times> nat \<Rightarrow>
   (string \<times> 'c MemoryEntry) list" where
  "mem_select clk stringify q st =
     (let s = fst st; t = snd st;
          results = memories s;
          results = filter (\<lambda>(k, e). type_matches q (entry_type e)) results;
          results = filter (\<lambda>(k, e). tags_match q (tags e)) results;
          results = filter (\<lambda>(k, e). importance_matches q (importance e)) results;
          results = filter (\<lambda>(k, e). age_matches clk t q (createdAt e)) results;
          results = filter (\<lambda>(k, e). text_matches stringify q (content e)) results;
          results = sort_key (\<lambda>(k, e). - accessedAt e) results
      in apply_limit q results)"

definition mem_query ::
  "clock \<Rightarrow> ('c \<Rightarrow> string) \<Rightarrow> MemoryQuery \<Rightarrow> 'c InMemoryMemoryStore \<times> nat \<Rightarrow>
   'c MemoryEntry list \<times> 'c InMemoryMemoryStore \<times> nat" where
  "mem_query clk stringify q st =
     (let s = fst st; t = snd st;
          results = mem_select clk stringify q st;
          t1 = t + age_ticks q;
          accessed = recordAccess_each clk t1 results
      in (map snd accessed,
          s\<lparr>memories := fold (\<lambda>(k, e). AList.update k e) accessed (memories s)\<rparr>,
          t1 + length results))"

definition mem_delete ::
  "string \<Rightarrow> 'c InMemoryMemoryStore \<Rightarrow> bool \<times> 'c InMemoryMemoryStore" where
  "mem_delete ident s =
     (map_of (memories s) ident \<noteq> None, s\<lparr>memories := AList.delete ident (memories s)\<rparr>)"

text \<open>\<open>getStats().totalEntries\<close>\<close>

definition mem_totalEntries :: "'c InMemoryMemoryStore \<Rightarrow> nat" where
  "mem_totalEntries s = length (memories s)"

definition mem_prune ::
  "clock \<Rightarrow> int option \<Rightarrow> MemoryImportance \<Rightarrow> 'c InMemoryMemoryStore \<times> nat \<Rightarrow>
   nat \<times> 'c InMemoryMemoryStore \<times> nat" where
  "mem_prune clk maxAge_arg minImp st =
     (let s = fst st; t = snd st;
          now = clk t;
          doomed = (\<lambda>(k, e). shouldPrune maxAge_arg minImp now (createdAt e) (importance e))
      in (length (filter doomed (memories s)),
          s\<lparr>memories := filter (\<lambda>p. \<not> doomed p) (memories s)\<rparr>,
          t + 1))"


section \<open>FileMemoryStore (durable tier)\<close>

text \<open>
  One element of \<open>index.memories\<close>. The ISO date strings of the index are kept as epoch
  milliseconds (\<open>toISOString\<close> and \<open>new Date(string)\<close> are inverse on them).
\<close>

record index_entry =
  ix_id :: string
  ix_type :: MemoryType
  ix_importance :: MemoryImportance
  ix_tags :: "string list"
  ix_createdAt :: int
  ix_accessedAt :: int
  ix_accessCount :: nat

text \<open>
  The store after \<open>initialize()\<close>: the index held in memory, the entry files of the
  storage directory (the file \<open><id>.json\<close> under its id, with the entry it holds), and
  the id counter. Reading or unlinking a file fails exactly when the file does not exist;
  the writes of \<open>store\<close> may fail as the argument \<open>write_outcome\<close> says, and the
  save of the index in \<open>delete\<close> as the argument \<open>save_outcome\<close> says; the writes of
  \<open>retrieve\<close> and \<open>prune\<close> are taken to succeed.
\<close>

record 'c FileMemoryStore =
  index :: "index_entry list"
  files :: "string \<rightharpoonup> 'c MemoryEntry"
  file_nextId :: nat

definition new_FileMemoryStore :: "'c FileMemoryStore" where
  "new_FileMemoryStore = \<lparr>index = [], files = Map.empty, file_nextId = 1\<rparr>"

datatype write_outcome = WriteOk | EntryWriteFails thrown | IndexSaveFails thrown

text \<open>
  \<open>FileMemoryStore.store\<close>: the entry file is written first, then the index is extended
  and saved; an exception of either write is returned as \<open>err\<close> (\<open>Inl\<close>).
\<close>

definition file_store ::
  "clock \<Rightarrow> write_outcome \<Rightarrow> MemoryType \<Rightarrow> 'c \<Rightarrow> MemoryImportance \<Rightarrow> string list \<Rightarrow>
   'c FileMemoryStore \<times> nat \<Rightarrow> (thrown + 'c MemoryEntry) \<times> 'c FileMemoryStore \<times> nat" where
  "file_store clk wo ty c imp tgs st =
     (let s = fst st; t = snd st;
          ident = mk_id (file_nextId s);
          now = clk t;
          entry = \<lparr>entry_id = ident, entry_type = ty, content = c, createdAt = now,
                   accessedAt = now, accessCount = 0, importance = imp, tags = tgs\<rparr>;
          ix = \<lparr>ix_id = ident, ix_type = ty, ix_importance = imp, ix_tags = tgs,
                ix_createdAt = now, ix_accessedAt = now, ix_accessCount = 0\<rparr>;
          s1 = s\<lparr>file_nextId := file_nextId s + 1\<rparr>;
          s2 = s1\<lparr>files := (files s1)(ident \<mapsto> entry), index := index s1 @ [ix]\<rparr>
      in case wo of
           EntryWriteFails e \<Rightarrow> (Inl e, s1, t + 1)
         | IndexSaveFails e \<Rightarrow> (Inl e, s2, t + 1)
         | WriteOk \<Rightarrow> (Inr entry, s2, t + 1))"

text \<open>
  \<open>this.index.memories.find((m) => m.id === id)\<close>, then the assignment of the access
  fields to the element found.
\<close>

fun update_index_access :: "string \<Rightarrow> int \<Rightarrow> nat \<Rightarrow> index_entry list \<Rightarrow> index_entry list" where
  "update_index_access ident atime cnt [] = []"
| "update_index_access ident atime cnt (ix # rest) =
     (if ix_id ix = ident then ix\<lparr>ix_accessedAt := atime, ix_accessCount := cnt\<rparr> # rest
      else ix # update_index_access ident atime cnt rest)"

definition file_retrieve ::
  "clock \<Rightarrow> string \<Rightarrow> 'c FileMemoryStore \<times> nat \<Rightarrow>
   'c MemoryEntry option \<times> 'c FileMemoryStore \<times> nat" where
  "file_retrieve clk ident st =
     (let s = fst st; t = snd st
      in case files s ident of
           None \<Rightarrow> (None, s, t)
         | Some parsed \<Rightarrow>
             (let entry = recordAccess clk t parsed
              in (Some entry,
                  s\<lparr>index := update_index_access ident (accessedAt entry) (accessCount entry) (index s),
                    files := (files s)(ident \<mapsto> entry)\<rparr>,
                  t + 1)))"

text \<open>The index entries selected by the filters on the index, sorted and limited.\<close>

definition file_select ::
  "clock \<Rightarrow> MemoryQuery \<Rightarrow> 'c FileMemoryStore \<times> nat \<Rightarrow> index_entry list" where
  "file_select clk q st =
     (let s = fst st; t = snd st;
          results = index s;
          results = filter (\<lambda>ix. type_matches q (ix_type ix)) results;
          results = filter (\<lambda>ix. tags_match q (ix_tags ix)) results;
          results = filter (\<lambda>ix. importance_matches q (ix_importance ix)) results;
          results = filter (\<lambda>ix. age_matches clk t q (ix_createdAt ix)) results;
          results = sort_key (\<lambda>ix. - ix_accessedAt ix) results
      in apply_limit q results)"

text \<open>
  The loop that loads the full entries: each selected id is retrieved (which records an
  access), and the search text is tested on the loaded content.
\<close>

fun file_load ::
  "clock \<Rightarrow> ('c \<Rightarrow> string) \<Rightarrow> MemoryQuery \<Rightarrow> index_entry list \<Rightarrow> 'c FileMemoryStore \<times> nat \<Rightarrow>
   'c MemoryEntry list \<times> 'c FileMemoryStore \<times> nat" where
  "file_load clk stringify q [] st = ([], st)"
| "file_load clk stringify q (ix # rest) st =
     (case file_retrieve clk (ix_id ix) st of
        (None, st') \<Rightarrow> file_load clk stringify q rest st'
      | (Some entry, st') \<Rightarrow>
          (let r = file_load clk stringify q rest st'
           in if text_matches stringify q (content entry) then (entry # fst r, snd r) else r))"

definition file_query ::
  "clock \<Rightarrow> ('c \<Rightarrow> string) \<Rightarrow> MemoryQuery \<Rightarrow> 'c FileMemoryStore \<times> nat \<Rightarrow>
   'c MemoryEntry list \<times> 'c FileMemoryStore \<times> nat" where
  "file_query clk stringify q st =
     file_load clk stringify q (file_select clk q st) (fst st, snd st + age_ticks q)"

text \<open>
  \<open>FileMemoryStore.delete\<close>: one inner \<open>try\<close> holds the unlink of the entry file, the
  removal of the id from the index and the save of the index, and its \<open>catch\<close> answers
  \<open>ok(false)\<close>. The unlink throws when the file does not exist. \<open>so\<close> is the outcome of
  \<open>saveIndex()\<close>: when it throws, the file is unlinked and the index held in memory is
  filtered already, and the answer is \<open>ok(false)\<close> all the same.
\<close>

datatype save_outcome = SaveOk | SaveFails thrown

definition file_delete ::
  "save_outcome \<Rightarrow> string \<Rightarrow> 'c FileMemoryStore \<Rightarrow> bool \<times> 'c FileMemoryStore" where
  "file_delete so ident s =
     (case files s ident of
        None \<Rightarrow> (False, s)
      | Some e \<Rightarrow>
          (let s' = s\<lparr>index := filter (\<lambda>m. ix_id m \<noteq> ident) (index s),
                      files := (files s)(ident := None)\<rparr>
           in case so of
                SaveOk \<Rightarrow> (True, s')
              | SaveFails err \<Rightarrow> (False, s')))"

text \<open>The unlink loop of \<open>prune\<close>: counts the files it could delete.\<close>

fun unlink_each :: "string list \<Rightarrow> (string \<rightharpoonup> 'a) \<Rightarrow> nat \<times> (string \<rightharpoonup> 'a)" where
  "unlink_each [] fs = (0, fs)"
| "unlink_each (ident # rest) fs =
     (case fs ident of
        None \<Rightarrow> unlink_each rest fs
      | Some e \<Rightarrow> (let r = unlink_each rest (fs(ident := None)) in (fst r + 1, snd r)))"

definition file_prune ::
  "clock \<Rightarrow> int option \<Rightarrow> MemoryImportance \<Rightarrow> 'c FileMemoryStore \<times> nat \<Rightarrow>
   nat \<times> 'c FileMemoryStore \<times> nat" where
  "file_prune clk maxAge_arg minImp st =
     (let s = fst st; t = snd st;
          now = clk t;
          toDelete = map ix_id (filter (\<lambda>ix. shouldPrune maxAge_arg minImp now
                                               (ix_createdAt ix) (ix_importance ix)) (index s));
          r = unlink_each toDelete (files s)
      in (fst r,
          s\<lparr>index := filter (\<lambda>m. ix_id m \<notin> set toDelete) (index s), files := snd r\<rparr>,
          t + 1))"


section \<open>MemoryManager\<close>

record 'c MemoryManager =
  shortTermStore :: "'c InMemoryMemoryStore"
  longTermStore :: "'c FileMemoryStore"
  consolidationThreshold :: int
  consolidationImportance :: MemoryImportance
  shortTermMaxAge :: int

text \<open>The constructor with the defaults of an empty configuration.\<close>

definition new_MemoryManager ::
  "'c InMemoryMemoryStore \<Rightarrow> 'c FileMemoryStore \<Rightarrow> 'c MemoryManager" where
  "new_MemoryManager short long =
     \<lparr>shortTermStore = short, longTermStore = long, consolidationThreshold = 100,
      consolidationImportance = High, shortTermMaxAge = 24 * 60 * 60 * 1000\<rparr>"

text \<open>
  The loop of \<open>consolidate\<close> over the queried memories. The outcome of the durable
  write made for a memory is given by \<open>wr\<close> at the id of that memory.
\<close>

fun consolidate_loop ::
  "clock \<Rightarrow> (string \<Rightarrow> write_outcome) \<Rightarrow> 'c MemoryEntry list \<Rightarrow>
   'c InMemoryMemoryStore \<times> 'c FileMemoryStore \<times> nat \<times> nat \<Rightarrow>
   'c InMemoryMemoryStore \<times> 'c FileMemoryStore \<times> nat \<times> nat" where
  "consolidate_loop clk wr [] acc = acc"
| "consolidate_loop clk wr (memory # rest) (short, long, t, consolidated) =
     (case file_store clk (wr (entry_id memory)) LongTerm (content memory)
             (importance memory) (tags memory) (long, t) of
        (Inr stored, long', t') \<Rightarrow>
          consolidate_loop clk wr rest
            (snd (mem_delete (entry_id memory) short), long', t', consolidated + 1)
      | (Inl e, long', t') \<Rightarrow>
          consolidate_loop clk wr rest (short, long', t', consolidated))"

definition consolidate ::
  "clock \<Rightarrow> ('c \<Rightarrow> string) \<Rightarrow> (string \<Rightarrow> write_outcome) \<Rightarrow> 'c MemoryManager \<times> nat \<Rightarrow>
   nat \<times> 'c MemoryManager \<times> nat" where
  "consolidate clk stringify wr st =
     (let m = fst st; t = snd st;
          query = no_filter\<lparr>q_type := Some ShortTerm,
                            minImportance := Some (consolidationImportance m)\<rparr>;
          qr = mem_query clk stringify query (shortTermStore m, t);
          r = consolidate_loop clk wr (fst qr) (fst (snd qr), longTermStore m, snd (snd qr), 0)
      in (snd (snd (snd r)),
          m\<lparr>shortTermStore := fst r, longTermStore := fst (snd r)\<rparr>,
          fst (snd (snd r))))"

definition maybeConsolidate ::
  "clock \<Rightarrow> ('c \<Rightarrow> string) \<Rightarrow> (string \<Rightarrow> write_outcome) \<Rightarrow> 'c MemoryManager \<times> nat \<Rightarrow>
   'c MemoryManager \<times> nat" where
  "maybeConsolidate clk stringify wr st =
     (if int (mem_totalEntries (shortTermStore (fst st))) \<ge> consolidationThreshold (fst st)
      then snd (consolidate clk stringify wr st) else st)"

text \<open>
  \<open>MemoryManager.store\<close>: \<open>wo\<close> is the outcome of the durable write when the entry is
  routed to the durable tier, \<open>wr\<close> the outcomes of the writes of a consolidation.
\<close>

definition manager_store ::
  "clock \<Rightarrow> ('c \<Rightarrow> string) \<Rightarrow> write_outcome \<Rightarrow> (string \<Rightarrow> write_outcome) \<Rightarrow>
   MemoryType \<Rightarrow> 'c \<Rightarrow> MemoryImportance \<Rightarrow> string list \<Rightarrow> 'c MemoryManager \<times> nat \<Rightarrow>
   (thrown + 'c MemoryEntry) \<times> 'c MemoryManager \<times> nat" where
  "manager_store clk stringify wo wr ty c imp tgs st =
     (let m = fst st; t = snd st
      in if ty = LongTerm \<or> ty = Semantic
         then (case file_store clk wo ty c imp tgs (longTermStore m, t) of
                 (Inr entry, long', t') \<Rightarrow>
                   (Inr entry, maybeConsolidate clk stringify wr (m\<lparr>longTermStore := long'\<rparr>, t'))
               | (Inl e, long', t') \<Rightarrow> (Inl e, m\<lparr>longTermStore := long'\<rparr>, t'))
         else (case mem_store clk ty c imp tgs (shortTermStore m, t) of
                 (entry, short', t') \<Rightarrow>
                   (Inr entry, maybeConsolidate clk stringify wr (m\<lparr>shortTermStore := short'\<rparr>, t'))))"

definition manager_retrieve ::
  "clock \<Rightarrow> string \<Rightarrow> 'c MemoryManager \<times> nat \<Rightarrow>
   'c MemoryEntry option \<times> 'c MemoryManager \<times> nat" where
  "manager_retrieve clk ident st =
     (let m = fst st; t = snd st
      in case mem_retrieve clk ident (shortTermStore m, t) of
           (Some entry, short', t') \<Rightarrow> (Some entry, m\<lparr>shortTermStore := short'\<rparr>, t')
         | (None, short', t') \<Rightarrow>
             (case file_retrieve clk ident (longTermStore m, t') of
                (r, long', t'') \<Rightarrow> (r, m\<lparr>shortTermStore := short', longTermStore := long'\<rparr>, t'')))"

text \<open>
  \<open>MemoryManager.delete\<close>: both stores are asked to delete; \<open>so\<close> is the outcome of the
  index save of the durable store.
\<close>

definition manager_delete ::
  "save_outcome \<Rightarrow> string \<Rightarrow> 'c MemoryManager \<Rightarrow> bool \<times> 'c MemoryManager" where
  "manager_delete so ident m =
     (let shortTermResult = mem_delete ident (shortTermStore m);
          longTermResult = file_delete so ident (longTermStore m);
          m' = m\<lparr>shortTermStore := snd shortTermResult, longTermStore := snd longTermResult\<rparr>
      in if fst shortTermResult then (True, m') else (fst longTermResult, m'))"


section \<open>The agent execution loop (ExecuteAgentUseCaseImpl)\<close>

text \<open>\<open>Result<T, E>\<close>\<close>

datatype ('e, 'a) Result = Ok 'a | Err 'e

datatype TaskStatus = Pending | Running | Completed | Failed | Cancelled

record TaskResult =
  tr_success :: bool
  tr_output :: "string option"
  tr_error :: "string option"

text \<open>
  Of \<open>Task\<close>, the description, the status and the result; the constraints, the priority
  and the dates of its metadata are written but never read by the use case.
\<close>

record Task =
  task_description :: string
  status :: TaskStatus
  task_result :: "TaskResult option"

text \<open>
  JavaScript white space among the characters below 256, as \<open>String.prototype.trim\<close>
  and the regular expression class \<open>\s\<close> see it: tab, line feed, vertical tab, form
  feed, carriage return, space and no-break space.
\<close>

definition is_whitespace :: "char \<Rightarrow> bool" where
  "is_whitespace c = ((of_char c :: nat) \<in> {9, 10, 11, 12, 13, 32, 160})"

text \<open>\<open>!description || description.trim().length === 0\<close>\<close>

definition blank :: "string \<Rightarrow> bool" where
  "blank s = list_all is_whitespace s"

text \<open>\<open>new Task(...)\<close> throws an \<open>InvalidEntityError\<close> on a blank description.\<close>

definition new_Task :: "string \<Rightarrow> thrown + Task" where
  "new_Task descr =
     (if blank descr then Inl (Error ''Task description cannot be empty'' [])
      else Inr \<lparr>task_description = descr, status = Pending, task_result = None\<rparr>)"

definition updateStatus :: "TaskStatus \<Rightarrow> Task \<Rightarrow> Task" where
  "updateStatus st task = task\<lparr>status := st\<rparr>"

definition setResult :: "TaskResult \<Rightarrow> Task \<Rightarrow> Task" where
  "setResult r task =
     updateStatus (if tr_success r then Completed else Failed) (task\<lparr>task_result := Some r\<rparr>)"

record AgentConfig =
  cfg_temperature :: "real option"
  cfg_modelName :: "string option"
  cfg_systemPrompt :: "string option"

record Agent =
  agent_name :: string
  agent_description :: string
  capabilities :: "string list"
  config :: AgentConfig

record ExecutionOptions =
  opt_maxIterations :: "int option"
  opt_timeout :: "int option"
  opt_tools :: "string list option"
  opt_temperature :: "real option"
  opt_modelName :: "string option"

record ExecuteAgentRequest =
  agentId :: string
  taskDescription :: string
  options :: "ExecutionOptions option"

record 'v Iteration =
  number :: nat
  thought :: string
  action :: string
  actionInput :: "'v ToolParams"
  observation :: string
  timestamp :: int

datatype MessageRole = System | User | Assistant

record Message =
  role :: MessageRole
  message_content :: string

record ToolDefinition =
  def_name :: string
  def_description :: string
  def_parameters :: ToolSchema

record CompletionRequest =
  messages :: "Message list"
  model :: "string option"
  temperature :: real
  request_tools :: "ToolDefinition list option"
  toolChoice :: "string option"

record 'v ToolCall =
  call_id :: string
  call_name :: string
  arguments :: "'v ToolParams"

record 'v CompletionResponse =
  response_content :: string
  toolCalls :: "'v ToolCall list option"

text \<open>
  The content the loop stores in memory after a tool execution:
  \<open>{type: 'tool_execution', tool, input, output, success, timestamp}\<close>.
\<close>

record ('v, 'o) tool_execution =
  te_tool :: string
  te_input :: "'v ToolParams"
  te_output :: "'o option"
  te_success :: bool
  te_timestamp :: int

text \<open>
  The \<open>MemoryStore\<close> port as the use case sees it, over a state \<open>'m\<close> of the store
  behind it. \<open>port_store\<close> returns the exception it raised, if any (its \<open>Result\<close> is
  not read). \<open>port_query\<close> returns an exception, or \<open>None\<close> for an \<open>Err\<close> result, or
  for an \<open>Ok\<close> result what the use case reads of each memory: the text of
  \<open>content.tool\<close> and the truthiness of \<open>content.success\<close>.
\<close>

record ('v, 'o, 'm) MemoryPort =
  port_store :: "MemoryType \<Rightarrow> ('v, 'o) tool_execution \<Rightarrow> MemoryImportance \<Rightarrow> string list \<Rightarrow>
                 'm \<Rightarrow> thrown option \<times> 'm"
  port_query :: "MemoryQuery \<Rightarrow> 'm \<Rightarrow> (thrown + (string \<times> bool) list option) \<times> 'm"

text \<open>
  The collaborators of the use case. \<open>generateCompletion k\<close> is the answer of the model
  to its \<open>k\<close>-th call; \<open>stringify_output\<close> is \<open>JSON.stringify\<close> on a tool output.
\<close>

record ('v, 'o, 'm) Collaborators =
  findById :: "string \<Rightarrow> Agent option"
  generateCompletion :: "nat \<Rightarrow> CompletionRequest \<Rightarrow> thrown + 'v CompletionResponse"
  toolRegistry :: "('v, 'o) ToolRegistryImpl"
  memoryStore :: "('v, 'o, 'm) MemoryPort option"
  stringify_output :: "'o option \<Rightarrow> string"

definition DEFAULT_MAX_ITERATIONS :: int where
  "DEFAULT_MAX_ITERATIONS = 5"

definition getToolDefinition :: "('v, 'o) Tool \<Rightarrow> ToolDefinition" where
  "getToolDefinition tool =
     \<lparr>def_name = name tool, def_description = description tool, def_parameters = schema tool\<rparr>"

text \<open>The system prompt: the configured one when it is truthy, else the generated one.\<close>

definition systemPrompt :: "Agent \<Rightarrow> string" where
  "systemPrompt agent =
     (if truthy_string (cfg_systemPrompt (config agent)) then the (cfg_systemPrompt (config agent))
      else ''You are '' @ agent_name agent @ ''. '' @ agent_description agent @
           [CHR 0x0A, CHR 0x0A] @ ''When solving tasks:'' @ [CHR 0x0A] @
           ''1. Think step by step about what you need to do'' @ [CHR 0x0A] @
           ''2. Use available tools when needed'' @ [CHR 0x0A] @
           ''3. When you have the final answer, respond directly without using tools'' @
           [CHR 0x0A, CHR 0x0A] @
           ''Your capabilities: '' @ join '', '' (capabilities agent))"

definition memory_line :: "string \<times> bool \<Rightarrow> string" where
  "memory_line m =
     ''Past observation: Used '' @ fst m @ '' - '' @ (if snd m then ''succeeded'' else ''failed'')"

definition iteration_messages :: "'v Iteration \<Rightarrow> Message list" where
  "iteration_messages it =
     \<lparr>role = Assistant, message_content = thought it\<rparr> #
     (if action it \<noteq> ''final_answer''
      then [\<lparr>role = User, message_content = ''Tool result: '' @ observation it\<rparr>] else [])"

text \<open>\<open>buildMessages\<close>: queries the memory store when there is one.\<close>

definition buildMessages ::
  "('v, 'o, 'm) Collaborators \<Rightarrow> Agent \<Rightarrow> Task \<Rightarrow> 'v Iteration list \<Rightarrow> 'm \<Rightarrow>
   (thrown + Message list) \<times> 'm" where
  "buildMessages env agent task its mem =
     (let head = [\<lparr>role = System, message_content = systemPrompt agent\<rparr>,
                  \<lparr>role = User, message_content = task_description task\<rparr>];
          replay = concat (map iteration_messages its)
      in case memoryStore env of
           None \<Rightarrow> (Inr (head @ replay), mem)
         | Some port \<Rightarrow>
             (case port_query port (no_filter\<lparr>q_type := Some Episodic,
                                               minImportance := Some Medium,
                                               limit := Some 5\<rparr>) mem of
                (Inl e, mem') \<Rightarrow> (Inl e, mem')
              | (Inr None, mem') \<Rightarrow> (Inr (head @ replay), mem')
              | (Inr (Some mems), mem') \<Rightarrow>
                  (Inr (head @
                        (if length mems > 0
                         then [\<lparr>role = System,
                                message_content = ''Relevant past experience:'' @ [CHR 0x0A] @
                                  join [CHR 0x0A] (map memory_line mems)\<rparr>]
                         else []) @ replay), mem')))"

text \<open>
  The variables of \<open>execute\<close> that the loop changes: the \<open>iterations\<close> array, the
  flags, the state of the memory store and the number of clock readings.
\<close>

record ('v, 'm) LoopState =
  iterations :: "'v Iteration list"
  iterationCount :: nat
  completed :: bool
  finalOutput :: "string option"
  memory :: 'm
  tick :: nat

text \<open>The request sent to the model.\<close>

definition completion_request ::
  "ExecuteAgentRequest \<Rightarrow> Agent \<Rightarrow> Message list \<Rightarrow> ToolDefinition list \<Rightarrow> CompletionRequest" where
  "completion_request request agent msgs toolDefinitions =
     \<lparr>messages = msgs,
      model = (case Option.bind (options request) opt_modelName of
                 Some m \<Rightarrow> Some m | None \<Rightarrow> cfg_modelName (config agent)),
      temperature = (case Option.bind (options request) opt_temperature of
                       Some x \<Rightarrow> x
                     | None \<Rightarrow> (case cfg_temperature (config agent) of
                                  Some x \<Rightarrow> x | None \<Rightarrow> 7 / 10)),
      request_tools = (if length toolDefinitions > 0 then Some toolDefinitions else None),
      toolChoice = (if length toolDefinitions > 0 then Some ''auto'' else None)\<rparr>"

text \<open>
  The branch of the loop body for an answer with a tool call: the first call is executed,
  the iteration is recorded, and the execution is stored in memory when there is a store.
  The first component is the exception that left the branch, if any.
\<close>

definition tool_call_step ::
  "('v, 'o, 'm) Collaborators \<Rightarrow> clock \<Rightarrow> string \<Rightarrow> 'v CompletionResponse \<Rightarrow> 'v ToolCall \<Rightarrow>
   ('v, 'm) LoopState \<Rightarrow> thrown option \<times> ('v, 'm) LoopState" where
  "tool_call_step env clk executionId response toolCall st =
     (case fst (registry_execute (toolRegistry env) (call_name toolCall) (arguments toolCall)) of
        Inl e \<Rightarrow> (Some e, st)
      | Inr toolResult \<Rightarrow>
          (let obs = (if success toolResult
                      then stringify_output env (tool_output toolResult)
                      else ''Error: '' @ (case error toolResult of
                                           Some msg \<Rightarrow> msg | None \<Rightarrow> ''undefined''));
               st1 = st\<lparr>iterations := iterations st @
                         [\<lparr>number = iterationCount st,
                           thought = response_content response,
                           action = call_name toolCall,
                           actionInput = arguments toolCall,
                           observation = obs,
                           timestamp = clk (tick st)\<rparr>],
                       tick := tick st + 1\<rparr>
           in case memoryStore env of
                None \<Rightarrow> (None, st1)
              | Some port \<Rightarrow>
                  (case port_store port Episodic
                          \<lparr>te_tool = call_name toolCall,
                           te_input = arguments toolCall,
                           te_output = tool_output toolResult,
                           te_success = success toolResult,
                           te_timestamp = clk (tick st1)\<rparr>
                          (if success toolResult then Medium else Low)
                          [''tool'', call_name toolCall, executionId] (memory st1) of
                     (thrown_opt, mem2) \<Rightarrow>
                       (thrown_opt, st1\<lparr>memory := mem2, tick := tick st1 + 1\<rparr>))))"

text \<open>The branch for an answer without a tool call: the final answer.\<close>

definition final_answer_step ::
  "clock \<Rightarrow> 'v CompletionResponse \<Rightarrow> ('v, 'm) LoopState \<Rightarrow> ('v, 'm) LoopState" where
  "final_answer_step clk response st =
     st\<lparr>iterations := iterations st @
           [\<lparr>number = iterationCount st,
             thought = response_content response,
             action = ''final_answer'',
             actionInput = [],
             observation = response_content response,
             timestamp = clk (tick st)\<rparr>],
        completed := True,
        finalOutput := Some (response_content response),
        tick := tick st + 1\<rparr>"

text \<open>
  One pass of the loop body, after \<open>iterationCount++\<close>. The first component is the
  exception that left the body, if any.
\<close>

definition iteration_body ::
  "('v, 'o, 'm) Collaborators \<Rightarrow> clock \<Rightarrow> string \<Rightarrow> ExecuteAgentRequest \<Rightarrow> Agent \<Rightarrow> Task \<Rightarrow>
   ToolDefinition list \<Rightarrow> ('v, 'm) LoopState \<Rightarrow> thrown option \<times> ('v, 'm) LoopState" where
  "iteration_body env clk executionId request agent task toolDefinitions st =
     (case buildMessages env agent task (iterations st) (memory st) of
        (Inl e, mem1) \<Rightarrow> (Some e, st\<lparr>memory := mem1\<rparr>)
      | (Inr msgs, mem1) \<Rightarrow>
          (case generateCompletion env (iterationCount st)
                  (completion_request request agent msgs toolDefinitions) of
             Inl e \<Rightarrow> (Some e, st\<lparr>memory := mem1\<rparr>)
           | Inr response \<Rightarrow>
               (case toolCalls response of
                  Some (toolCall # others) \<Rightarrow>
                    tool_call_step env clk executionId response toolCall (st\<lparr>memory := mem1\<rparr>)
                | _ \<Rightarrow> (None, final_answer_step clk response (st\<lparr>memory := mem1\<rparr>)))))"

text \<open>
  \<open>while (iterationCount < maxIterations && !completed) { iterationCount++; ... }\<close>;
  an exception leaves the loop with the variables as they are.
\<close>

function agent_loop ::
  "('v, 'o, 'm) Collaborators \<Rightarrow> clock \<Rightarrow> string \<Rightarrow> ExecuteAgentRequest \<Rightarrow> Agent \<Rightarrow> Task \<Rightarrow>
   ToolDefinition list \<Rightarrow> int \<Rightarrow> ('v, 'm) LoopState \<Rightarrow> thrown option \<times> ('v, 'm) LoopState" where
  "agent_loop env clk executionId request agent task toolDefinitions maxIterations st =
     (if int (iterationCount st) < maxIterations \<and> \<not> completed st
      then (case iteration_body env clk executionId request agent task toolDefinitions
                   (st\<lparr>iterationCount := iterationCount st + 1\<rparr>) of
              (Some e, st') \<Rightarrow> (Some e, st'\<lparr>iterationCount := iterationCount st + 1\<rparr>)
            | (None, st') \<Rightarrow>
                agent_loop env clk executionId request agent task toolDefinitions maxIterations
                  (st'\<lparr>iterationCount := iterationCount st + 1\<rparr>))
      else (None, st))"
  by pat_completeness auto
termination
  by (relation "measure (\<lambda>(env, clk, executionId, request, agent, task, toolDefinitions,
                            maxIterations, st). nat (maxIterations - int (iterationCount st)))")
     auto

declare agent_loop.simps [simp del]

record 'v ExecuteAgentResponse =
  resp_executionId :: string
  resp_success :: bool
  resp_output :: "string option"
  resp_error :: "string option"
  resp_iterations :: "'v Iteration list"
  resp_startedAt :: int
  resp_completedAt :: int
  resp_duration :: int
  resp_iterationCount :: nat

text \<open>
  What \<open>execute\<close> leaves behind besides its return value: the task object (when it was
  created), the \<open>iterations\<close> array as it stands when \<open>execute\<close> returns, the state of
  the memory store and the clock readings made.
\<close>

record ('v, 'm) ExecutionTrace =
  trace_task :: "Task option"
  trace_iterations :: "'v Iteration list"
  trace_iterationCount :: nat
  trace_memory :: 'm
  trace_tick :: nat

definition availableTools ::
  "('v, 'o) ToolRegistryImpl \<Rightarrow> ExecuteAgentRequest \<Rightarrow> ('v, 'o) Tool list" where
  "availableTools reg request =
     (case Option.bind (options request) opt_tools of
        Some names \<Rightarrow> concat (map (\<lambda>nm. case getByName reg nm of None \<Rightarrow> [] | Some t \<Rightarrow> [t]) names)
      | None \<Rightarrow> list_tools reg)"

definition requested_maxIterations :: "ExecuteAgentRequest \<Rightarrow> int" where
  "requested_maxIterations request =
     (case Option.bind (options request) opt_maxIterations of
        Some n \<Rightarrow> n | None \<Rightarrow> DEFAULT_MAX_ITERATIONS)"

text \<open>\<open>ExecuteAgentUseCaseImpl.execute\<close>\<close>

definition execute ::
  "('v, 'o, 'm) Collaborators \<Rightarrow> clock \<Rightarrow> string \<Rightarrow> ExecuteAgentRequest \<Rightarrow> 'm \<times> nat \<Rightarrow>
   (thrown, 'v ExecuteAgentResponse) Result \<times> ('v, 'm) ExecutionTrace" where
  "execute env clk executionId request start =
     (let mem0 = fst start; t0 = snd start; startedAt = clk t0
      in case findById env (agentId request) of
           None \<Rightarrow>
             (Err (Error (''Agent not found: '' @ agentId request) []),
              \<lparr>trace_task = None, trace_iterations = [], trace_iterationCount = 0,
                trace_memory = mem0, trace_tick = t0 + 1\<rparr>)
         | Some agent \<Rightarrow>
             (case new_Task (taskDescription request) of
                Inl e \<Rightarrow>
                  (Err e,
                   \<lparr>trace_task = None, trace_iterations = [], trace_iterationCount = 0,
                     trace_memory = mem0, trace_tick = t0 + 1\<rparr>)
              | Inr task0 \<Rightarrow>
                  (let task = updateStatus Running task0;
                       toolDefinitions = map getToolDefinition
                                           (availableTools (toolRegistry env) request);
                       maxIterations = requested_maxIterations request;
                       r = agent_loop env clk executionId request agent task toolDefinitions
                             maxIterations
                             \<lparr>iterations = [], iterationCount = 0, completed = False,
                               finalOutput = None, memory = mem0, tick = t0 + 1\<rparr>;
                       st = snd r
                   in case fst r of
                        Some e \<Rightarrow>
                          (Err e,
                           \<lparr>trace_task = Some task, trace_iterations = iterations st,
                             trace_iterationCount = iterationCount st,
                             trace_memory = memory st, trace_tick = tick st\<rparr>)
                      | None \<Rightarrow>
                          (let task' =
                                 (if \<not> completed st
                                  then setResult
                                         \<lparr>tr_success = False, tr_output = None,
                                           tr_error = Some ''Maximum iterations reached without completion''\<rparr>
                                         (updateStatus Failed task)
                                  else setResult
                                         \<lparr>tr_success = True, tr_output = finalOutput st,
                                           tr_error = None\<rparr>
                                         (updateStatus Completed task));
                               completedAt = clk (tick st)
                           in (Ok \<lparr>resp_executionId = executionId,
                                   resp_success = completed st,
                                   resp_output = finalOutput st,
                                   resp_error = (if completed st then None
                                                 else Some ''Maximum iterations reached''),
                                   resp_iterations = iterations st,
                                   resp_startedAt = startedAt,
                                   resp_completedAt = completedAt,
                                   resp_duration = completedAt - startedAt,
                                   resp_iterationCount = iterationCount st\<rparr>,
                               \<lparr>trace_task = Some task', trace_iterations = iterations st,
                                 trace_iterationCount = iterationCount st,
                                 trace_memory = memory st, trace_tick = tick st + 1\<rparr>)))))"


section \<open>The calculator tool\<close>

text \<open>
  The character class of \<open>/^[\d+\-*/().\s]+$/\<close>: decimal digits, the four operators, the
  parentheses, the dot and white space.
\<close>

definition is_digit :: "char \<Rightarrow> bool" where
  "is_digit c = (48 \<le> (of_char c :: nat) \<and> (of_char c :: nat) \<le> 57)"

definition calculator_allowed :: "char \<Rightarrow> bool" where
  "calculator_allowed c = (is_digit c \<or> c \<in> set ''+-*/().'' \<or> is_whitespace c)"

text \<open>\<open>/^[\d+\-*/().\s]+$/.test(expression)\<close>: at least one character, all in the class.\<close>

definition expression_regex_test :: "string \<Rightarrow> bool" where
  "expression_regex_test expression = (expression \<noteq> [] \<and> list_all calculator_allowed expression)"

definition function_body :: "string \<Rightarrow> string" where
  "function_body expression = [CHR 0x27] @ ''use strict'' @ [CHR 0x27] @ ''; return ('' @ expression @ '')''"

text \<open>
  The executor of the calculator. \<open>js_Function body\<close> is the JavaScript engine evaluating
  \<open>Function(body)()\<close>: it returns the value or throws. A missing \<open>expression\<close> reads as
  \<open>undefined\<close>, which the regular expression tests as the text \<open>undefined\<close>.
  \<open>calculator_run\<close> gives the result of the executor together with the bodies it has handed
  to the engine, in order.
\<close>

definition calculator_run ::
  "(string \<Rightarrow> thrown + 'o) \<Rightarrow> string ToolParams \<Rightarrow> (thrown + 'o ToolResult) \<times> string list" where
  "calculator_run js_Function params =
     (let expression = (case map_of params ''expression'' of
                          Some e \<Rightarrow> e | None \<Rightarrow> ''undefined'');
          attempt =
            (if \<not> expression_regex_test expression
             then (Inr \<lparr>success = False, tool_output = None,
                     error = Some ''Invalid expression. Only numbers and basic operators are allowed.'',
                     metadata = None\<rparr>, [])
             else (case js_Function (function_body expression) of
                     Inl e \<Rightarrow> Inl e
                   | Inr v \<Rightarrow> Inr \<lparr>success = True, tool_output = Some v, error = None,
                                   metadata = None\<rparr>,
                   [function_body expression]))
      in (try_catch (fst attempt)
            (\<lambda>e. Inr \<lparr>success = False, tool_output = None, error = Some (error_message e),
                      metadata = None\<rparr>),
          snd attempt))"

definition calculator_executor ::
  "(string \<Rightarrow> thrown + 'o) \<Rightarrow> string ToolParams \<Rightarrow> thrown + 'o ToolResult" where
  "calculator_executor js_Function params = fst (calculator_run js_Function params)"

definition createCalculatorTool :: "(string \<Rightarrow> thrown + 'o) \<Rightarrow> (string, 'o) Tool" where
  "createCalculatorTool js_Function =
     \<lparr>tool_id = ''tool-calculator'',
      name = ''calculator'',
      description = ''Perform basic mathematical calculations. Supports +, -, *, /, and parentheses.'',
      schema = \<lparr>properties = [''expression''], required = Some [''expression'']\<rparr>,
      executor = calculator_executor js_Function\<rparr>"


section \<open>A fragment of the JavaScript engine\<close>

text \<open>
  The calculator hands the text \<open>'use strict'; return (expression)\<close> to the engine. This
  section describes what every JavaScript engine does with such a body when the text after
  \<open>return\<close> is written with decimal integer literals, the operators \<open>+\<close>, \<open>-\<close> and
  \<open>*\<close>, parentheses and spaces only, and every number met on the way is an integer of
  magnitude below \<open>2^53\<close>, where arithmetic on doubles is exact. Everything else is left
  outside the fragment and nothing is said about it: the division and the dot (and with them
  comments, regular expression literals and fractions), the tokens \<open>++\<close>, \<open>--\<close> and
  \<open>**\<close>, literals with a leading zero, line terminators and other white space (automatic
  semicolon insertion), a parenthesis following an operand (a call), and negative zero.
\<close>

datatype token = TNum nat | TPlus | TMinus | TStar | TOpen | TClose

definition digit_value :: "char \<Rightarrow> nat" where
  "digit_value c = of_char c - 48"

text \<open>
  The punctuator starting at character \<open>c\<close>, followed by the text \<open>cs\<close>; a space gives no
  token. The lexer takes the longest punctuator, so that two adjacent \<open>+\<close> are the token
  \<open>++\<close>, which is outside the fragment.
\<close>

definition punctuator :: "char \<Rightarrow> string \<Rightarrow> token list option" where
  "punctuator c cs =
     (if c = CHR '' '' then Some []
      else if c = CHR ''('' then Some [TOpen]
      else if c = CHR '')'' then Some [TClose]
      else if c = CHR ''+'' then (if take 1 cs = ''+'' then None else Some [TPlus])
      else if c = CHR ''-'' then (if take 1 cs = ''-'' then None else Some [TMinus])
      else if c = CHR ''*'' then (if take 1 cs = ''*'' then None else Some [TStar])
      else None)"

definition flush :: "nat option \<Rightarrow> token list" where
  "flush acc = (case acc of None \<Rightarrow> [] | Some n \<Rightarrow> [TNum n])"

text \<open>
  The lexer; \<open>acc\<close> is the value of the integer literal being read, if any. \<open>None\<close>: the
  text is outside the fragment.
\<close>

fun tokens_of :: "nat option \<Rightarrow> string \<Rightarrow> token list option" where
  "tokens_of acc [] = Some (flush acc)"
| "tokens_of acc (c # cs) =
     (if is_digit c
      then (case acc of
              None \<Rightarrow> tokens_of (Some (digit_value c)) cs
            | Some n \<Rightarrow> if n = 0 then None else tokens_of (Some (10 * n + digit_value c)) cs)
      else (case punctuator c cs of
              None \<Rightarrow> None
            | Some toks \<Rightarrow> map_option (\<lambda>later. flush acc @ toks @ later) (tokens_of None cs)))"

text \<open>The integers on which the arithmetic of doubles is exact.\<close>

definition exact :: "int \<Rightarrow> bool" where
  "exact v = (\<bar>v\<bar> < 9007199254740992)"

text \<open>
  The result of reading an expression from the front of a token list: its value and the tokens
  left, a syntax error, or a text outside the fragment.
\<close>

datatype parse = Outside | SyntaxError | Parsed int "token list"

text \<open>A parenthesis after an operand starts the arguments of a call.\<close>

definition operand :: "int \<Rightarrow> token list \<Rightarrow> parse" where
  "operand v later = (case later of TOpen # ts \<Rightarrow> Outside | _ \<Rightarrow> Parsed v later)"

definition negate :: "parse \<Rightarrow> parse" where
  "negate p = (case p of Parsed v later \<Rightarrow> if v = 0 then Outside else Parsed (- v) later
                       | other \<Rightarrow> other)"

definition exact_product :: "int \<Rightarrow> int \<Rightarrow> int option" where
  "exact_product a b = (if \<not> exact (a * b) \<or> (a * b = 0 \<and> (a < 0 \<or> b < 0)) then None
                  else Some (a * b))"

definition exact_sum :: "int \<Rightarrow> int \<Rightarrow> int option" where
  "exact_sum a b = (if exact (a + b) then Some (a + b) else None)"

text \<open>
  Recursive descent along the grammar of ECMAScript, evaluating on the way:
  \<open>AdditiveExpression\<close>, \<open>MultiplicativeExpression\<close>, \<open>UnaryExpression\<close> and
  \<open>PrimaryExpression\<close> (a literal or a parenthesised expression). The first argument bounds
  the depth of the descent; when it is used up the text counts as outside the fragment.
\<close>

fun expression_value :: "nat \<Rightarrow> token list \<Rightarrow> parse"
and additive_more :: "nat \<Rightarrow> int \<Rightarrow> token list \<Rightarrow> parse"
and multiplicative :: "nat \<Rightarrow> token list \<Rightarrow> parse"
and multiplicative_more :: "nat \<Rightarrow> int \<Rightarrow> token list \<Rightarrow> parse"
and unary :: "nat \<Rightarrow> token list \<Rightarrow> parse" where
  "expression_value 0 ts = Outside"
| "expression_value (Suc n) ts =
     (case multiplicative n ts of
        Parsed v later \<Rightarrow> additive_more n v later
      | other \<Rightarrow> other)"
| "additive_more 0 v ts = Outside"
| "additive_more (Suc n) v ts =
     (case ts of
        TPlus # later \<Rightarrow>
          (case multiplicative n later of
             Parsed w later' \<Rightarrow>
               (case exact_sum v w of None \<Rightarrow> Outside | Some s \<Rightarrow> additive_more n s later')
           | other \<Rightarrow> other)
      | TMinus # later \<Rightarrow>
          (case multiplicative n later of
             Parsed w later' \<Rightarrow>
               (case exact_sum v (- w) of None \<Rightarrow> Outside | Some s \<Rightarrow> additive_more n s later')
           | other \<Rightarrow> other)
      | _ \<Rightarrow> Parsed v ts)"
| "multiplicative 0 ts = Outside"
| "multiplicative (Suc n) ts =
     (case unary n ts of
        Parsed v later \<Rightarrow> multiplicative_more n v later
      | other \<Rightarrow> other)"
| "multiplicative_more 0 v ts = Outside"
| "multiplicative_more (Suc n) v ts =
     (case ts of
        TStar # later \<Rightarrow>
          (case unary n later of
             Parsed w later' \<Rightarrow>
               (case exact_product v w of None \<Rightarrow> Outside | Some s \<Rightarrow> multiplicative_more n s later')
           | other \<Rightarrow> other)
      | _ \<Rightarrow> Parsed v ts)"
| "unary 0 ts = Outside"
| "unary (Suc n) ts =
     (case ts of
        TPlus # later \<Rightarrow> unary n later
      | TMinus # later \<Rightarrow> negate (unary n later)
      | TNum k # later \<Rightarrow> if exact (int k) then operand (int k) later else Outside
      | TOpen # later \<Rightarrow>
          (case expression_value n later of
             Parsed v (TClose # later') \<Rightarrow> operand v later'
           | Parsed v _ \<Rightarrow> SyntaxError
           | other \<Rightarrow> other)
      | _ \<Rightarrow> SyntaxError)"

text \<open>The text after \<open>return\<close> of a body that the calculator builds.\<close>

definition return_argument :: "string \<Rightarrow> string option" where
  "return_argument body =
     (if take 22 body = [CHR 0x27] @ ''use strict'' @ [CHR 0x27] @ ''; return (''
      then Some (drop 21 body) else None)"

datatype js_outcome = Returns int | ThrowsSyntaxError

text \<open>
  What \<open>Function(body)()\<close> does on the fragment: it returns the value of the expression, or the
  constructor throws a \<open>SyntaxError\<close> because the body does not parse, also when tokens are
  left after the expression. \<open>None\<close>: the body is outside the fragment.
\<close>

definition js_fragment :: "string \<Rightarrow> js_outcome option" where
  "js_fragment body =
     (case return_argument body of
        None \<Rightarrow> None
      | Some arg \<Rightarrow>
          (case tokens_of None arg of
             None \<Rightarrow> None
           | Some toks \<Rightarrow>
               (case expression_value (5 * length toks + 5) toks of
                  Outside \<Rightarrow> None
                | SyntaxError \<Rightarrow> Some ThrowsSyntaxError
                | Parsed v [] \<Rightarrow> Some (Returns v)
                | Parsed v (t # ts) \<Rightarrow> Some ThrowsSyntaxError)))"

text \<open>
  An engine agrees with the fragment: on its bodies it returns that number or throws an
  \<open>Error\<close> object (whose message is the engine's own wording).
\<close>

definition engine_agrees :: "(string \<Rightarrow> thrown + int) \<Rightarrow> bool" where
  "engine_agrees js_Function =
     (\<forall>body. case js_fragment body of
               None \<Rightarrow> True
             | Some (Returns v) \<Rightarrow> js_Function body = Inr v
             | Some ThrowsSyntaxError \<Rightarrow> (\<exists>msg stk. js_Function body = Inl (Error msg stk)))"


section \<open>Conditions on the collaborators of the loop\<close>

text \<open>A model that always requests a tool call: every answer carries at least one.\<close>

definition always_requests_tool_call :: "('v, 'o, 'm) Collaborators \<Rightarrow> bool" where
  "always_requests_tool_call env =
     (\<forall>k req. \<exists>resp call others.
        generateCompletion env k req = Inr resp \<and> toolCalls resp = Some (call # others))"

text \<open>
  A memory store whose methods raise no exception (as those of \<open>MemoryManager\<close>, which
  catch every exception and return an \<open>Err\<close> result), or no memory store at all.
\<close>

definition memory_never_throws :: "('v, 'o, 'm) Collaborators \<Rightarrow> bool" where
  "memory_never_throws env =
     (case memoryStore env of
        None \<Rightarrow> True
      | Some port \<Rightarrow>
          (\<forall>ty c imp tgs m. fst (port_store port ty c imp tgs m) = None) \<and>
          (\<forall>q m. \<exists>r. fst (port_query port q m) = Inr r))"

text \<open>The state in which \<open>execute\<close> enters the loop.\<close>

definition initial_loop_state :: "'m \<times> nat \<Rightarrow> ('v, 'm) LoopState" where
  "initial_loop_state start =
     \<lparr>iterations = [], iterationCount = 0, completed = False, finalOutput = None,
      memory = fst start, tick = snd start + 1\<rparr>"

text \<open>The loop as \<open>execute\<close> runs it for a request, once its agent is found.\<close>

definition execute_loop ::
  "('v, 'o, 'm) Collaborators \<Rightarrow> clock \<Rightarrow> string \<Rightarrow> ExecuteAgentRequest \<Rightarrow> Agent \<Rightarrow> 'm \<times> nat \<Rightarrow>
   thrown option \<times> ('v, 'm) LoopState" where
  "execute_loop env clk executionId request agent start =
     agent_loop env clk executionId request agent
       \<lparr>task_description = taskDescription request, status = Running, task_result = None\<rparr>
       (map getToolDefinition (availableTools (toolRegistry env) request))
       (requested_maxIterations request)
       (initial_loop_state start)"

text \<open>The iteration records a result carries: those of an \<open>Ok\<close> response, none for \<open>Err\<close>.\<close>

fun carried_iterations :: "(thrown, 'v ExecuteAgentResponse) Result \<Rightarrow> 'v Iteration list option" where
  "carried_iterations (Ok resp) = Some (resp_iterations resp)"
| "carried_iterations (Err e) = None"

text \<open>An execution has failed when it returns \<open>Err\<close> or a response with \<open>success = false\<close>.\<close>

fun failed_execution :: "(thrown, 'v ExecuteAgentResponse) Result \<Rightarrow> bool" where
  "failed_execution (Ok resp) = (\<not> resp_success resp)"
| "failed_execution (Err e) = True"

section \<open>Sequences of operations on the volatile store\<close>

text \<open>A call of \<open>store\<close>, \<open>retrieve\<close> or \<open>query\<close> on an \<open>InMemoryMemoryStore\<close>.\<close>

datatype 'c store_op =
    Store MemoryType 'c MemoryImportance "string list"
  | Retrieve string
  | Query MemoryQuery

fun apply_op ::
  "clock \<Rightarrow> ('c \<Rightarrow> string) \<Rightarrow> 'c store_op \<Rightarrow> 'c InMemoryMemoryStore \<times> nat \<Rightarrow>
   'c InMemoryMemoryStore \<times> nat" where
  "apply_op clk stringify (Store ty c imp tgs) st = snd (mem_store clk ty c imp tgs st)"
| "apply_op clk stringify (Retrieve ident) st = snd (mem_retrieve clk ident st)"
| "apply_op clk stringify (Query q) st = snd (mem_query clk stringify q st)"

text \<open>
  The entries a retrieve or query call hands to its caller (\<open>store\<close> is not a read).
\<close>

fun op_returns ::
  "clock \<Rightarrow> ('c \<Rightarrow> string) \<Rightarrow> 'c store_op \<Rightarrow> 'c InMemoryMemoryStore \<times> nat \<Rightarrow> 'c MemoryEntry list" where
  "op_returns clk stringify (Store ty c imp tgs) st = []"
| "op_returns clk stringify (Retrieve ident) st =
     (case fst (mem_retrieve clk ident st) of None \<Rightarrow> [] | Some e \<Rightarrow> [e])"
| "op_returns clk stringify (Query q) st = fst (mem_query clk stringify q st)"

fun run_ops ::
  "clock \<Rightarrow> ('c \<Rightarrow> string) \<Rightarrow> 'c store_op list \<Rightarrow> 'c InMemoryMemoryStore \<times> nat \<Rightarrow>
   'c InMemoryMemoryStore \<times> nat" where
  "run_ops clk stringify [] st = st"
| "run_ops clk stringify (x # xs) st = run_ops clk stringify xs (apply_op clk stringify x st)"

text \<open>
  The number of retrieve/query hits on the entry with id \<open>ident\<close> in a sequence of calls:
  how often the entry is among the entries returned.
\<close>

fun hits ::
  "clock \<Rightarrow> ('c \<Rightarrow> string) \<Rightarrow> 'c store_op list \<Rightarrow> 'c InMemoryMemoryStore \<times> nat \<Rightarrow> string \<Rightarrow> nat" where
  "hits clk stringify [] st ident = 0"
| "hits clk stringify (x # xs) st ident =
     length (filter (\<lambda>e. entry_id e = ident) (op_returns clk stringify x st)) +
     hits clk stringify xs (apply_op clk stringify x st) ident"

text \<open>
  The states the volatile store can be in: the keys of the map are distinct, each entry
  is stored under its own id, ids come from the counter, and no date lies after the last
  clock reading.
\<close>

definition store_ok :: "clock \<Rightarrow> 'c InMemoryMemoryStore \<times> nat \<Rightarrow> bool" where
  "store_ok clk st =
     (distinct (map fst (memories (fst st))) \<and>
      (\<forall>k e. map_of (memories (fst st)) k = Some e \<longrightarrow>
         entry_id e = k \<and> (\<exists>j < nextId (fst st). k = mk_id j) \<and>
         createdAt e \<le> accessedAt e \<and> accessedAt e \<le> clk (snd st)))"

text \<open>
  \<open>accessed_from e n e'\<close>: the entry \<open>e'\<close> is the entry \<open>e\<close> after \<open>n\<close> recorded
  accesses: the count is \<open>n\<close> higher, the access date is not earlier, and nothing else
  has changed.
\<close>

definition accessed_from :: "'c MemoryEntry \<Rightarrow> nat \<Rightarrow> 'c MemoryEntry \<Rightarrow> bool" where
  "accessed_from e n e' =
     (e' = e\<lparr>accessedAt := accessedAt e', accessCount := accessCount e + n\<rparr> \<and>
      accessedAt e \<le> accessedAt e')"

text \<open>A clock that never runs backwards.\<close>

definition monotone_clock :: "clock \<Rightarrow> bool" where
  "monotone_clock clk = (\<forall>i j. i \<le> j \<longrightarrow> clk i \<le> clk j)"

text \<open>The conjunction of the filters of \<open>InMemoryMemoryStore.query\<close> on one entry.\<close>

definition query_pred ::
  "clock \<Rightarrow> ('c \<Rightarrow> string) \<Rightarrow> MemoryQuery \<Rightarrow> nat \<Rightarrow> 'c MemoryEntry \<Rightarrow> bool" where
  "query_pred clk stringify q t e =
     (type_matches q (entry_type e) \<and> tags_match q (tags e) \<and>
      importance_matches q (importance e) \<and> age_matches clk t q (createdAt e) \<and>
      text_matches stringify q (content e))"

section \<open>The pruning rule in the words of the specification\<close>

text \<open>
  The rule as the specification words it, for comparison with \<open>shouldPrune\<close>: an entry is
  removed if (maxAge given and age > maxAge and importance < minImportance) or (maxAge
  absent and importance < minImportance).
\<close>

definition spec_prune_rule :: "int option \<Rightarrow> MemoryImportance \<Rightarrow> int \<Rightarrow> MemoryImportance \<Rightarrow> bool" where
  "spec_prune_rule maxAge_arg minImp age imp =
     ((maxAge_arg \<noteq> None \<and> age > the maxAge_arg \<and> importance_value imp < importance_value minImp) \<or>
      (maxAge_arg = None \<and> importance_value imp < importance_value minImp))"

section \<open>Concrete inputs used by the examples\<close>

text \<open>A tool whose executor always throws.\<close>

definition throwing_tool :: "(string, int) Tool" where
  "throwing_tool =
     \<lparr>tool_id = ''tool-boom'', name = ''boom'', description = ''always throws'',
      schema = \<lparr>properties = [''x''], required = Some [''x'']\<rparr>,
      executor = (\<lambda>p. Inl (Error ''kaboom'' ''at boom''))\<rparr>"

text \<open>An agent, an echo tool and a request with \<open>maxIterations = 1\<close>.\<close>

definition example_agent :: Agent where
  "example_agent =
     \<lparr>agent_name = ''Helper'', agent_description = ''Answers questions'', capabilities = [],
      config = \<lparr>cfg_temperature = None, cfg_modelName = None, cfg_systemPrompt = None\<rparr>\<rparr>"

definition echo_tool :: "(string, string) Tool" where
  "echo_tool =
     \<lparr>tool_id = ''tool-echo'', name = ''echo'',
      description = ''Echo back the input message. Useful for testing.'',
      schema = \<lparr>properties = [''message''], required = Some [''message'']\<rparr>,
      executor = (\<lambda>params. Inr \<lparr>success = True, tool_output = map_of params ''message'',
                                 error = None, metadata = None\<rparr>)\<rparr>"

definition echo_call :: "string CompletionResponse" where
  "echo_call =
     \<lparr>response_content = ''I will echo'',
      toolCalls = Some [\<lparr>call_id = ''call-1'', call_name = ''echo'',
                         arguments = [(''message'', ''hi'')]\<rparr>]\<rparr>"

text \<open>A model that requests the echo tool on every call, and no memory store.\<close>

definition tool_loving_env :: "(string, string, unit) Collaborators" where
  "tool_loving_env =
     \<lparr>findById = (\<lambda>i. if i = ''agent-1'' then Some example_agent else None),
      generateCompletion = (\<lambda>k req. Inr echo_call),
      toolRegistry = register echo_tool empty_registry,
      memoryStore = None,
      stringify_output = (\<lambda>v. case v of None \<Rightarrow> ''undefined'' | Some s \<Rightarrow> s)\<rparr>"

text \<open>A model that requests the echo tool on its first call and fails on every later one.\<close>

definition flaky_env :: "(string, string, unit) Collaborators" where
  "flaky_env =
     tool_loving_env\<lparr>generateCompletion :=
        (\<lambda>k req. if k \<le> 1 then Inr echo_call else Inl (Error ''model unavailable'' []))\<rparr>"

definition example_request :: "int \<Rightarrow> ExecuteAgentRequest" where
  "example_request n =
     \<lparr>agentId = ''agent-1'', taskDescription = ''Say hi'',
      options = Some \<lparr>opt_maxIterations = Some n, opt_timeout = None, opt_tools = None,
                      opt_temperature = None, opt_modelName = None\<rparr>\<rparr>"

definition example_clock :: clock where
  "example_clock k = 1000 + int k"

text \<open>
  A volatile and a durable store holding one entry of low importance each, stored at the
  first reading of a clock; \<open>still_clock\<close> gives the same millisecond at every reading.
\<close>

definition still_clock :: clock where
  "still_clock k = 1000"

definition one_low_entry :: "string InMemoryMemoryStore \<times> nat" where
  "one_low_entry = snd (mem_store still_clock ShortTerm ''note'' Low [] (new_InMemoryMemoryStore, 0))"

definition one_low_file :: "string FileMemoryStore \<times> nat" where
  "one_low_file = snd (file_store still_clock WriteOk LongTerm ''note'' Low [] (new_FileMemoryStore, 0))"

text \<open>
  A memory manager over two fresh stores after one entry was stored in each tier.
\<close>

definition no_failure :: "string \<Rightarrow> write_outcome" where
  "no_failure ident = WriteOk"

definition quoted :: "string \<Rightarrow> string" where
  "quoted str = [CHR 0x22] @ str @ [CHR 0x22]"

definition two_tier_example :: "string MemoryManager \<times> nat" where
  "two_tier_example =
     snd (manager_store example_clock quoted WriteOk no_failure LongTerm ''durable fact'' High []
       (snd (manager_store example_clock quoted WriteOk no_failure ShortTerm ''volatile note''
               Medium [] (new_MemoryManager new_InMemoryMemoryStore new_FileMemoryStore, 0))))"

text \<open>Operations on a fresh volatile store: one entry is stored, then read three times.\<close>

definition first_ops :: "string store_op list" where
  "first_ops = [Store ShortTerm ''note'' Medium [''demo'']]"

definition later_ops :: "string store_op list" where
  "later_ops = [Retrieve ''mem-1'', Query no_filter, Retrieve ''mem-7'']"

text \<open>
  A durable and a volatile store holding the same two entries, \<open>banana\<close> stored before
  \<open>apple\<close>, and a query for the text \<open>banana\<close> with \<open>limit = 1\<close>.
\<close>

definition fruit_files :: "string FileMemoryStore \<times> nat" where
  "fruit_files =
     snd (file_store example_clock WriteOk LongTerm ''apple'' Medium []
       (snd (file_store example_clock WriteOk LongTerm ''banana'' Medium []
               (new_FileMemoryStore, 0))))"

definition fruit_memories :: "string InMemoryMemoryStore \<times> nat" where
  "fruit_memories =
     snd (mem_store example_clock LongTerm ''apple'' Medium []
       (snd (mem_store example_clock LongTerm ''banana'' Medium []
               (new_InMemoryMemoryStore, 0))))"

definition banana_query :: MemoryQuery where
  "banana_query = no_filter\<lparr>searchText := Some ''banana'', limit := Some 1\<rparr>"

text \<open>
  A manager over fresh stores after an episodic entry of importance High was stored (the
  kind of entry the agent loop writes, routed to the volatile tier).
\<close>

definition episodic_example :: "string MemoryManager \<times> nat" where
  "episodic_example =
     snd (manager_store example_clock quoted WriteOk no_failure Episodic ''tool run'' High []
            (new_MemoryManager new_InMemoryMemoryStore new_FileMemoryStore, 0))"

text \<open>
  A manager over fresh stores after two short-term entries of importance High were
  stored, and outcomes of durable writes under which the write made for the second fails.
\<close>

definition short_term_example :: "string MemoryManager \<times> nat" where
  "short_term_example =
     snd (manager_store example_clock quoted WriteOk no_failure ShortTerm ''second'' High [''b'']
       (snd (manager_store example_clock quoted WriteOk no_failure ShortTerm ''first'' High [''a'']
               (new_MemoryManager new_InMemoryMemoryStore new_FileMemoryStore, 0))))"

definition second_write_fails :: "string \<Rightarrow> write_outcome" where
  "second_write_fails ident =
     (if ident = ''mem-2'' then EntryWriteFails (Error ''disk full'' []) else WriteOk)"

text \<open>
  An engine that agrees with the fragment, and the expression \<open>2 + import('fs')\<close>.
\<close>

definition reference_engine :: "string \<Rightarrow> thrown + int" where
  "reference_engine body =
     (case js_fragment body of
        Some (Returns v) \<Rightarrow> Inr v
      | Some ThrowsSyntaxError \<Rightarrow> Inl (Error ''Unexpected token'' ''SyntaxError: Unexpected token'')
      | None \<Rightarrow> Inl (Error ''not modelled'' []))"

definition import_expression :: string where
  "import_expression = ''2 + import('' @ [CHR 0x27] @ ''fs'' @ [CHR 0x27] @ '')''"

text \<open>
  The manager of \<open>two_tier_example\<close> after a second long-term entry was stored: the id
  \<open>mem-2\<close> is held by the durable tier only.
\<close>

definition shadowed_example :: "string MemoryManager \<times> nat" where
  "shadowed_example =
     snd (manager_store example_clock quoted WriteOk no_failure LongTerm ''second fact'' High []
            two_tier_example)"

text \<open>
  A manager over fresh stores after two short-term entries and an episodic entry, all of
  importance High, were stored.
\<close>

definition mixed_example :: "string MemoryManager \<times> nat" where
  "mixed_example =
     snd (manager_store example_clock quoted WriteOk no_failure Episodic ''tool run'' High []
            short_term_example)"


section \<open>Properties of the tool invoker\<close>

lemma js_in_own: "k \<in> set ks \<Longrightarrow> js_in k ks"
  by (simp add: js_in_def)

lemma js_in_toString: "js_in ''toString'' ks"
  by (simp add: js_in_def object_prototype_keys_def)

lemma missing_required_Nil:
  "missing_required sch params = [] \<longleftrightarrow>
     (\<forall>r \<in> set (case required sch of None \<Rightarrow> [] | Some req \<Rightarrow> req). js_in r (map fst params))"
proof (cases "required sch")
  case None
  then show ?thesis by (simp add: missing_required_def)
next
  case (Some req)
  have "concat (map (\<lambda>r. if \<not> js_in r (map fst params)
                          then [''Missing required parameter: '' @ r] else []) req) = []
        \<longleftrightarrow> (\<forall>r \<in> set req. js_in r (map fst params))"
    by (induction req) simp_all
  with Some show ?thesis by (simp add: missing_required_def)
qed

lemma unknown_parameters_Nil:
  "unknown_parameters sch params = [] \<longleftrightarrow> (\<forall>k \<in> set (map fst params). js_in k (properties sch))"
proof -
  have "concat (map (\<lambda>k. if \<not> js_in k (properties sch)
                          then [''Unknown parameter: '' @ k] else []) ks) = []
        \<longleftrightarrow> (\<forall>k \<in> set ks. js_in k (properties sch))" for ks
    by (induction ks) simp_all
  then show ?thesis unfolding unknown_parameters_def by blast
qed

lemma fst_validate:
  "fst (validate sch params) \<longleftrightarrow>
     (\<forall>r \<in> set (case required sch of None \<Rightarrow> [] | Some req \<Rightarrow> req). js_in r (map fst params)) \<and>
     (\<forall>k \<in> set (map fst params). js_in k (properties sch))"
  by (simp add: validate_def Let_def missing_required_Nil unknown_parameters_Nil del: set_map)

lemma snd_validate:
  "\<not> fst (validate sch params) \<Longrightarrow>
   snd (validate sch params) = Some (missing_required sch params @ unknown_parameters sch params)"
  by (auto simp: validate_def Let_def)

text \<open>
  What \<open>Tool.execute\<close> does with the verdict of \<open>validate\<close>: on a failed validation the
  result is the failure with the joined messages and the executor is not invoked; on a
  passed validation the executor is invoked once, with the parameters.
\<close>

lemma Tool_execute_validation:
  "(\<not> fst (validate (schema tool) params) \<longrightarrow>
      Tool_execute tool params =
        (Inr \<lparr>success = False, tool_output = None,
              error = Some (''Invalid parameters: '' @
                 join '', '' (missing_required (schema tool) params @
                              unknown_parameters (schema tool) params)),
              metadata = None\<rparr>, [])) \<and>
   (fst (validate (schema tool) params) \<longrightarrow> snd (Tool_execute tool params) = [params])"
  by (simp add: Tool_execute_def Let_def snd_validate)

lemma throwing_tool_missing_required:
  "missing_required (schema throwing_tool) [(''x'', v)] = []"
  by (simp add: throwing_tool_def missing_required_def js_in_own)

lemma throwing_tool_unknown_parameters:
  "unknown_parameters (schema throwing_tool) [(''x'', v)] = []"
  by (simp add: throwing_tool_def unknown_parameters_def js_in_own)

lemma throwing_tool_valid: "fst (validate (schema throwing_tool) [(''x'', v)])"
  by (simp add: validate_def throwing_tool_missing_required throwing_tool_unknown_parameters)

lemma throwing_registry_lookup:
  "map_of (toolsByName (register throwing_tool empty_registry)) nm =
     (if nm = ''boom'' then Some throwing_tool else None)"
  by (simp add: register_def empty_registry_def throwing_tool_def)

text \<open>
  Claim C3. \<open>ToolRegistryImpl.execute(name, params)\<close> never lets an exception reach its
  caller: for every registry, name and parameter object the call returns a result;
  when no tool is registered under the name the result is
  \<open>{success: false, error: "Tool not found: <name>"}\<close> (and no executor runs); and when
  the executor of the tool throws, the result is a failure carrying the message of the
  thrown value.
\<close>

theorem registry_execute_never_throws:
  "(\<exists>r. fst (registry_execute reg nm params) = Inr r) \<and>
   (map_of (toolsByName reg) nm = None \<longrightarrow>
      registry_execute reg nm params =
        (Inr \<lparr>success = False, tool_output = None,
              error = Some (''Tool not found: '' @ nm), metadata = None\<rparr>, [])) \<and>
   (\<forall>tool e. map_of (toolsByName reg) nm = Some tool \<and>
        fst (validate (schema tool) params) \<and> executor tool params = Inl e \<longrightarrow>
      (\<exists>r. fst (registry_execute reg nm params) = Inr r \<and> success r = False \<and>
           error r = Some (error_message e)))"
  by (auto simp: registry_execute_def Tool_execute_def try_catch_def Let_def
           split: option.splits sum.splits)

theorem registry_execute_never_throws_witness:
  "registry_execute (register throwing_tool empty_registry) ''absent'' [(''x'', ''1'')] =
     (Inr \<lparr>success = False, tool_output = None,
           error = Some ''Tool not found: absent'', metadata = None\<rparr>, []) \<and>
   (\<exists>r. fst (registry_execute (register throwing_tool empty_registry) ''boom'' [(''x'', ''1'')])
           = Inr r \<and> success r = False \<and> error r = Some ''kaboom'')"
proof -
  let ?reg = "register throwing_tool empty_registry"
  have absent: "map_of (toolsByName ?reg) ''absent'' = None"
    by (simp add: throwing_registry_lookup)
  have present: "map_of (toolsByName ?reg) ''boom'' = Some throwing_tool"
    by (simp add: throwing_registry_lookup)
  have throws: "executor throwing_tool [(''x'', ''1'')] = Inl (Error ''kaboom'' ''at boom'')"
    by (simp add: throwing_tool_def)
  from registry_execute_never_throws [of ?reg "''absent''" "[(''x'', ''1'')]"] absent
  have a: "registry_execute ?reg ''absent'' [(''x'', ''1'')] =
             (Inr \<lparr>success = False, tool_output = None,
                   error = Some (''Tool not found: '' @ ''absent''), metadata = None\<rparr>, [])"
    by blast
  from registry_execute_never_throws [of ?reg "''boom''" "[(''x'', ''1'')]"]
    present throws throwing_tool_valid [of "''1''"]
  have b: "\<exists>r. fst (registry_execute ?reg ''boom'' [(''x'', ''1'')]) = Inr r \<and>
               success r = False \<and>
               error r = Some (error_message (Error ''kaboom'' ''at boom''))"
    by blast
  from a b show ?thesis by simp
qed

text \<open>
  Claim C4, evaluated at the calculator tool with the parameter object
  \<open>{expression: "2 + 2", toString: "x"}\<close>: the key \<open>toString\<close> is not among the
  properties of the schema, yet validation passes (the test \<open>key in properties\<close> finds the
  method every object inherits) and the executor is invoked with the object.
\<close>

theorem inherited_key_passes_validation:
  "''toString'' \<notin> set (properties (schema (createCalculatorTool F))) \<and>
   snd (Tool_execute (createCalculatorTool F) [(''expression'', ''2 + 2''), (''toString'', ''x'')])
     = [[(''expression'', ''2 + 2''), (''toString'', ''x'')]]"
proof -
  let ?tool = "createCalculatorTool F"
  let ?params = "[(''expression'', ''2 + 2''), (''toString'', ''x'')]"
  have sch: "schema ?tool = \<lparr>properties = [''expression''], required = Some [''expression'']\<rparr>"
    by (simp add: createCalculatorTool_def)
  have m: "missing_required (schema ?tool) ?params = []"
    unfolding sch by (simp add: missing_required_def js_in_own)
  have u: "unknown_parameters (schema ?tool) ?params = []"
    unfolding sch by (simp add: unknown_parameters_def js_in_own js_in_toString)
  have v: "fst (validate (schema ?tool) ?params)"
    by (simp add: validate_def m u)
  have "''toString'' \<notin> set (properties (schema ?tool))"
    unfolding sch by simp
  moreover have "snd (Tool_execute ?tool ?params) = [?params]"
    using v by (simp add: Tool_execute_def Let_def)
  ultimately show ?thesis by simp
qed


section \<open>Properties of the agent execution loop\<close>

lemma tool_call_step_shape:
  "tool_call_step env clk xid response toolCall st = (r, st') \<Longrightarrow>
   iterationCount st' = iterationCount st \<and> completed st' = completed st \<and>
   finalOutput st' = finalOutput st \<and>
   ((r \<noteq> None \<and> iterations st' = iterations st) \<or>
    (\<exists>rec. iterations st' = iterations st @ [rec] \<and> number rec = iterationCount st))"
  by (auto simp add: tool_call_step_def Let_def split: prod.splits sum.splits option.splits)

lemma final_answer_step_shape:
  "iterationCount (final_answer_step clk response st) = iterationCount st \<and>
   completed (final_answer_step clk response st) \<and>
   (\<exists>rec. iterations (final_answer_step clk response st) = iterations st @ [rec] \<and>
          number rec = iterationCount st \<and> action rec = ''final_answer'')"
  by (simp add: final_answer_step_def)

lemma iteration_body_shape:
  assumes "iteration_body env clk xid request agent task defs st = (r, st')"
  shows "iterationCount st' = iterationCount st \<and>
   ((r \<noteq> None \<and> iterations st' = iterations st \<and> completed st' = completed st) \<or>
    (\<exists>rec. iterations st' = iterations st @ [rec] \<and> number rec = iterationCount st \<and>
           (completed st' = completed st \<or> (completed st' \<and> r = None))))"
proof (cases "buildMessages env agent task (iterations st) (memory st)")
  case (Pair bm mem1)
  show ?thesis
  proof (cases bm)
    case (Inl e)
    with Pair assms show ?thesis by (auto simp: iteration_body_def)
  next
    case (Inr msgs)
    show ?thesis
    proof (cases "generateCompletion env (iterationCount st) (completion_request request agent msgs defs)")
      case (Inl e)
      with Pair Inr assms show ?thesis by (auto simp: iteration_body_def)
    next
      case resp: (Inr response)
      show ?thesis
      proof (cases "\<exists>toolCall others. toolCalls response = Some (toolCall # others)")
        case True
        then obtain toolCall others where tc: "toolCalls response = Some (toolCall # others)" by blast
        with Pair Inr resp assms
        have "tool_call_step env clk xid response toolCall (st\<lparr>memory := mem1\<rparr>) = (r, st')"
          by (simp add: iteration_body_def)
        from tool_call_step_shape [OF this] show ?thesis by auto
      next
        case False
        with Pair Inr resp assms
        have "r = None" "st' = final_answer_step clk response (st\<lparr>memory := mem1\<rparr>)"
          by (auto simp: iteration_body_def split: option.splits list.splits)
        with final_answer_step_shape [of clk response "st\<lparr>memory := mem1\<rparr>"]
        show ?thesis by auto
      qed
    qed
  qed
qed


lemma agent_loop_stop:
  assumes "\<not> (int (iterationCount st) < maxIterations \<and> \<not> completed st)"
  shows "agent_loop env clk xid request agent task defs maxIterations st = (None, st)"
  by (subst agent_loop.simps) (simp only: assms if_False)

lemma agent_loop_step:
  "int (iterationCount st) < maxIterations \<Longrightarrow> \<not> completed st \<Longrightarrow>
   agent_loop env clk xid request agent task defs maxIterations st =
     (case iteration_body env clk xid request agent task defs
             (st\<lparr>iterationCount := iterationCount st + 1\<rparr>) of
        (Some e, st') \<Rightarrow> (Some e, st'\<lparr>iterationCount := iterationCount st + 1\<rparr>)
      | (None, st') \<Rightarrow>
          agent_loop env clk xid request agent task defs maxIterations
            (st'\<lparr>iterationCount := iterationCount st + 1\<rparr>))"
  by (subst agent_loop.simps) (simp only: simp_thms if_True)




lemma registry_execute_total: "\<exists>r. fst (registry_execute reg nm params) = Inr r"
  by (auto simp: registry_execute_def Tool_execute_def try_catch_def Let_def
           split: option.splits sum.splits)

lemma buildMessages_ok:
  assumes "memory_never_throws env"
  shows "\<exists>msgs mem1. buildMessages env agent task its mem = (Inr msgs, mem1)"
proof (cases "memoryStore env")
  case None
  then show ?thesis by (simp add: buildMessages_def)
next
  case (Some port)
  let ?q = "no_filter\<lparr>q_type := Some Episodic, minImportance := Some Medium, limit := Some 5\<rparr>"
  from assms Some have "\<forall>q m. \<exists>r. fst (port_query port q m) = Inr r"
    by (simp add: memory_never_throws_def)
  then obtain r where r: "fst (port_query port ?q mem) = Inr r" by blast
  obtain x mem' where pq: "port_query port ?q mem = (x, mem')"
    by (cases "port_query port ?q mem") blast
  with r have x: "x = Inr r" by simp
  show ?thesis
  proof (cases r)
    case None
    with Some pq x show ?thesis by (simp add: buildMessages_def)
  next
    case (Some mems)
    with \<open>memoryStore env = Some port\<close> pq x show ?thesis by (simp add: buildMessages_def)
  qed
qed

lemma tool_call_step_ok:
  assumes "memory_never_throws env"
  shows "\<exists>st'. tool_call_step env clk xid response toolCall st = (None, st') \<and>
               completed st' = completed st"
proof -
  obtain tr where tr: "fst (registry_execute (toolRegistry env) (call_name toolCall)
                          (arguments toolCall)) = Inr tr"
    using registry_execute_total by blast
  show ?thesis
  proof (cases "memoryStore env")
    case None
    with tr show ?thesis by (simp add: tool_call_step_def Let_def)
  next
    case (Some port)
    with assms have nt: "\<And>ty c imp tgs m. fst (port_store port ty c imp tgs m) = None"
      by (simp add: memory_never_throws_def)
    from tr Some show ?thesis
      by (simp add: tool_call_step_def Let_def case_prod_beta nt)
  qed
qed

lemma iteration_body_tool_call_at:
  assumes "\<And>req. \<exists>resp call others.
             generateCompletion env (iterationCount st) req = Inr resp \<and>
             toolCalls resp = Some (call # others)"
      and "memory_never_throws env"
  shows "\<exists>st'. iteration_body env clk xid request agent task defs st = (None, st') \<and>
               completed st' = completed st"
proof -
  from buildMessages_ok [OF assms(2)] obtain msgs mem1
    where bm: "buildMessages env agent task (iterations st) (memory st) = (Inr msgs, mem1)"
    by blast
  from assms(1) obtain resp call others
    where gc: "generateCompletion env (iterationCount st)
                 (completion_request request agent msgs defs) = Inr resp"
      and tc: "toolCalls resp = Some (call # others)"
    by blast
  from tool_call_step_ok [OF assms(2), of clk xid resp call "st\<lparr>memory := mem1\<rparr>"]
  show ?thesis by (simp add: iteration_body_def bm gc tc)
qed

lemma iteration_body_tool_call:
  assumes "always_requests_tool_call env" "memory_never_throws env"
  shows "\<exists>st'. iteration_body env clk xid request agent task defs st = (None, st') \<and>
               completed st' = completed st"
  using assms(1) by (intro iteration_body_tool_call_at assms(2))
                    (simp add: always_requests_tool_call_def)

lemma iteration_body_model_throws:
  assumes "\<And>req. generateCompletion env (iterationCount st) req = Inl e"
      and "memory_never_throws env"
  shows "\<exists>mem1. iteration_body env clk xid request agent task defs st =
                  (Some e, st\<lparr>memory := mem1\<rparr>)"
proof -
  from buildMessages_ok [OF assms(2)] obtain msgs mem1
    where bm: "buildMessages env agent task (iterations st) (memory st) = (Inr msgs, mem1)"
    by blast
  show ?thesis by (rule exI [of _ mem1]) (simp add: iteration_body_def bm assms(1))
qed

lemma agent_loop_tool_calls:
  "always_requests_tool_call env \<Longrightarrow> memory_never_throws env \<Longrightarrow> \<not> completed st0 \<Longrightarrow>
   fst (agent_loop env clk xid request agent task defs maxIterations st0) = None \<and>
   \<not> completed (snd (agent_loop env clk xid request agent task defs maxIterations st0))"
proof (induction env clk xid request agent task defs maxIterations st0 rule: agent_loop.induct)
  case (1 env clk xid request agent task defs maxIterations st0)
  show ?case
  proof (cases "int (iterationCount st0) < maxIterations \<and> \<not> completed st0")
    case False
    with "1.prems" show ?thesis by (simp add: agent_loop_stop)
  next
    case True
    from iteration_body_tool_call [OF "1.prems"(1,2)]
    obtain st' where body: "iteration_body env clk xid request agent task defs
             (st0\<lparr>iterationCount := iterationCount st0 + 1\<rparr>) = (None, st')"
        and c: "completed st' = completed (st0\<lparr>iterationCount := iterationCount st0 + 1\<rparr>)"
      by blast
    from c "1.prems" have nc: "\<not> completed (st'\<lparr>iterationCount := iterationCount st0 + 1\<rparr>)"
      by simp
    from "1.IH" [OF True body [symmetric] refl "1.prems"(1,2) nc]
    show ?thesis using True body by (simp add: agent_loop_step)
  qed
qed


lemma execute_found:
  assumes "findById env (agentId request) = Some agent" "\<not> blank (taskDescription request)"
  shows "execute env clk xid request start =
     (let r = execute_loop env clk xid request agent start; st = snd r;
          task = \<lparr>task_description = taskDescription request, status = Running, task_result = None\<rparr>
      in case fst r of
           Some e \<Rightarrow> (Err e, \<lparr>trace_task = Some task, trace_iterations = iterations st,
                             trace_iterationCount = iterationCount st,
                             trace_memory = memory st, trace_tick = tick st\<rparr>)
         | None \<Rightarrow>
            (Ok \<lparr>resp_executionId = xid, resp_success = completed st,
                 resp_output = finalOutput st,
                 resp_error = (if completed st then None else Some ''Maximum iterations reached''),
                 resp_iterations = iterations st,
                 resp_startedAt = clk (snd start), resp_completedAt = clk (tick st),
                 resp_duration = clk (tick st) - clk (snd start),
                 resp_iterationCount = iterationCount st\<rparr>,
             \<lparr>trace_task = Some (if \<not> completed st
                  then task\<lparr>status := Failed, task_result := Some \<lparr>tr_success = False, tr_output = None,
                               tr_error = Some ''Maximum iterations reached without completion''\<rparr>\<rparr>
                  else task\<lparr>status := Completed, task_result := Some \<lparr>tr_success = True, tr_output = finalOutput st, tr_error = None\<rparr>\<rparr>),
               trace_iterations = iterations st,
               trace_iterationCount = iterationCount st,
               trace_memory = memory st, trace_tick = tick st + 1\<rparr>))"
  using assms
  by (simp add: execute_def execute_loop_def initial_loop_state_def new_Task_def Let_def
        updateStatus_def setResult_def split: option.splits)



lemma example_found:
  "findById tool_loving_env (agentId (example_request n)) = Some example_agent"
  "findById flaky_env (agentId (example_request n)) = Some example_agent"
  by (simp_all add: tool_loving_env_def flaky_env_def example_request_def)

lemma example_not_blank: "\<not> blank (taskDescription (example_request n))"
  by (simp add: example_request_def blank_def is_whitespace_def)

lemma example_maxIterations: "requested_maxIterations (example_request n) = n"
  by (simp add: requested_maxIterations_def example_request_def)

lemma example_memory_never_throws:
  "memory_never_throws tool_loving_env" "memory_never_throws flaky_env"
  by (simp_all add: memory_never_throws_def tool_loving_env_def flaky_env_def)

lemma tool_loving_always: "always_requests_tool_call tool_loving_env"
  by (simp add: always_requests_tool_call_def tool_loving_env_def echo_call_def)




text \<open>
  Claim C2, as amended. Let the loop be entered (the agent exists, the description is valid).
  An execution that fails by exhaustion of the iteration bound returns a response that
  carries every iteration record accumulated. An execution in which an iteration raises an
  exception returns \<open>Err\<close> with the causal error and carries no iteration record, whatever
  the \<open>iterations\<close> array holds at that point.
\<close>

theorem failed_execution_result:
  assumes found: "findById env (agentId request) = Some agent"
      and descr: "\<not> blank (taskDescription request)"
  shows "(fst (execute_loop env clk xid request agent start) = None \<and>
          \<not> completed (snd (execute_loop env clk xid request agent start)) \<longrightarrow>
            failed_execution (fst (execute env clk xid request start)) \<and>
            carried_iterations (fst (execute env clk xid request start)) =
              Some (iterations (snd (execute_loop env clk xid request agent start))) \<and>
            trace_iterations (snd (execute env clk xid request start)) =
              iterations (snd (execute_loop env clk xid request agent start))) \<and>
         (\<forall>e. fst (execute_loop env clk xid request agent start) = Some e \<longrightarrow>
            fst (execute env clk xid request start) = Err e \<and>
            carried_iterations (fst (execute env clk xid request start)) = None \<and>
            trace_iterations (snd (execute env clk xid request start)) =
              iterations (snd (execute_loop env clk xid request agent start)))"
  unfolding execute_found [OF found descr] by (simp add: Let_def)

lemma flaky_first_call:
  "k \<le> 1 \<Longrightarrow> \<exists>resp call others.
      generateCompletion flaky_env k req = Inr resp \<and> toolCalls resp = Some (call # others)"
  by (simp add: flaky_env_def tool_loving_env_def echo_call_def)

lemma flaky_later_call:
  "1 < k \<Longrightarrow> generateCompletion flaky_env k req = Inl (Error ''model unavailable'' [])"
  by (simp add: flaky_env_def tool_loving_env_def)

lemma flaky_loop:
  "fst (execute_loop flaky_env clk xid (example_request 5) example_agent ((), 0))
     = Some (Error ''model unavailable'' []) \<and>
   length (iterations (snd (execute_loop flaky_env clk xid (example_request 5) example_agent ((), 0)))) = 1"
proof -
  let ?task = "\<lparr>task_description = taskDescription (example_request 5), status = Running,
                 task_result = None\<rparr>"
  let ?defs = "map getToolDefinition (availableTools (toolRegistry flaky_env) (example_request 5))"
  let ?st0 = "initial_loop_state ((), 0) :: (string, unit) LoopState"
  let ?st0' = "?st0\<lparr>iterationCount := iterationCount ?st0 + 1\<rparr>"
  have c0: "iterationCount ?st0 = 0" "\<not> completed ?st0" "iterations ?st0 = []"
    by (simp_all add: initial_loop_state_def)
  have "\<And>req. \<exists>resp call others. generateCompletion flaky_env (iterationCount ?st0') req = Inr resp \<and>
            toolCalls resp = Some (call # others)"
    by (rule flaky_first_call) (simp add: c0)
  from iteration_body_tool_call_at [OF this example_memory_never_throws(2)]
  obtain st1 where b1: "iteration_body flaky_env clk xid (example_request 5) example_agent ?task ?defs ?st0'
                          = (None, st1)"
    and comp1: "completed st1 = completed ?st0'" by blast
  from iteration_body_shape [OF b1]
  have cnt1: "iterationCount st1 = 1" and len1: "length (iterations st1) = 1"
    by (auto simp: c0)
  let ?st1 = "st1\<lparr>iterationCount := iterationCount ?st0 + 1\<rparr>"
  have st1_eq: "?st1 = st1" using cnt1 by (simp add: c0)
  let ?st1' = "st1\<lparr>iterationCount := iterationCount st1 + 1\<rparr>"
  have "\<And>req. generateCompletion flaky_env (iterationCount ?st1') req = Inl (Error ''model unavailable'' [])"
    by (rule flaky_later_call) (simp add: cnt1)
  from iteration_body_model_throws [OF this example_memory_never_throws(2)]
  obtain mem1 where b2: "iteration_body flaky_env clk xid (example_request 5) example_agent ?task ?defs ?st1'
                          = (Some (Error ''model unavailable'' []), ?st1'\<lparr>memory := mem1\<rparr>)"
    by blast
  have step1: "agent_loop flaky_env clk xid (example_request 5) example_agent ?task ?defs 5 ?st0
        = agent_loop flaky_env clk xid (example_request 5) example_agent ?task ?defs 5 st1"
    using b1 st1_eq by (subst agent_loop_step) (simp_all add: c0)
  have step2: "agent_loop flaky_env clk xid (example_request 5) example_agent ?task ?defs 5 st1
        = (Some (Error ''model unavailable'' []), ?st1'\<lparr>memory := mem1\<rparr>\<lparr>iterationCount := iterationCount st1 + 1\<rparr>)"
    using b2 comp1 by (subst agent_loop_step) (simp_all add: c0 cnt1)
  show ?thesis
    unfolding execute_loop_def example_maxIterations step1 step2
    by (simp add: len1)
qed

text \<open>
  Claim C2 as stated fails: with a model that requests a tool call on its first call and
  throws on its second, the execution fails with \<open>Err\<close>; one iteration record had been
  accumulated, and the result does not carry it.
\<close>

theorem exception_drops_iterations_counterexample:
  "fst (execute flaky_env example_clock ''exec-1'' (example_request 5) ((), 0))
     = Err (Error ''model unavailable'' []) \<and>
   failed_execution (fst (execute flaky_env example_clock ''exec-1'' (example_request 5) ((), 0))) \<and>
   length (trace_iterations (snd (execute flaky_env example_clock ''exec-1'' (example_request 5) ((), 0)))) = 1 \<and>
   carried_iterations (fst (execute flaky_env example_clock ''exec-1'' (example_request 5) ((), 0)))
     \<noteq> Some (trace_iterations (snd (execute flaky_env example_clock ''exec-1'' (example_request 5) ((), 0))))"
  unfolding execute_found [OF example_found(2) example_not_blank]
  using flaky_loop [of example_clock "''exec-1''"] by (simp add: Let_def)


theorem failed_execution_result_witness:
  "findById flaky_env (agentId (example_request 5)) = Some example_agent \<and>
   \<not> blank (taskDescription (example_request 5)) \<and>
   fst (execute_loop flaky_env example_clock ''exec-1'' (example_request 5) example_agent ((), 0))
     = Some (Error ''model unavailable'' []) \<and>
   fst (execute flaky_env example_clock ''exec-1'' (example_request 5) ((), 0))
     = Err (Error ''model unavailable'' []) \<and>
   carried_iterations (fst (execute flaky_env example_clock ''exec-1'' (example_request 5) ((), 0)))
     = None \<and>
   findById tool_loving_env (agentId (example_request 1)) = Some example_agent \<and>
   \<not> blank (taskDescription (example_request 1)) \<and>
   fst (execute_loop tool_loving_env example_clock ''exec-1'' (example_request 1) example_agent ((), 0))
     = None \<and>
   \<not> completed (snd (execute_loop tool_loving_env example_clock ''exec-1'' (example_request 1)
                       example_agent ((), 0))) \<and>
   failed_execution (fst (execute tool_loving_env example_clock ''exec-1'' (example_request 1) ((), 0))) \<and>
   carried_iterations (fst (execute tool_loving_env example_clock ''exec-1'' (example_request 1) ((), 0)))
     = Some (trace_iterations (snd (execute tool_loving_env example_clock ''exec-1''
                                      (example_request 1) ((), 0))))"
proof -
  let ?floop = "execute_loop flaky_env example_clock ''exec-1'' (example_request 5) example_agent ((), 0)"
  let ?tloop = "execute_loop tool_loving_env example_clock ''exec-1'' (example_request 1) example_agent ((), 0)"
  have f: "fst ?floop = Some (Error ''model unavailable'' [])"
    using flaky_loop [of example_clock "''exec-1''"] by simp
  have t: "fst ?tloop = None \<and> \<not> completed (snd ?tloop)"
    using agent_loop_tool_calls [OF tool_loving_always example_memory_never_throws(1),
            of "initial_loop_state ((), 0)"]
    by (simp add: execute_loop_def initial_loop_state_def)
  from failed_execution_result [OF example_found(2) [of 5] example_not_blank [of 5],
         where clk = example_clock and xid = "''exec-1''" and start = "((), 0)"] f
  have a: "fst (execute flaky_env example_clock ''exec-1'' (example_request 5) ((), 0))
             = Err (Error ''model unavailable'' []) \<and>
           carried_iterations (fst (execute flaky_env example_clock ''exec-1'' (example_request 5) ((), 0)))
             = None"
    by blast
  from failed_execution_result [OF example_found(1) [of 1] example_not_blank [of 1],
         where clk = example_clock and xid = "''exec-1''" and start = "((), 0)"] t
  have b: "failed_execution (fst (execute tool_loving_env example_clock ''exec-1'' (example_request 1) ((), 0))) \<and>
           carried_iterations (fst (execute tool_loving_env example_clock ''exec-1'' (example_request 1) ((), 0)))
             = Some (trace_iterations (snd (execute tool_loving_env example_clock ''exec-1''
                                      (example_request 1) ((), 0))))"
    by simp
  from a b f t example_found(2) [of 5] example_found(1) [of 1] example_not_blank [of 5]
    example_not_blank [of 1]
  show ?thesis by blast
qed


section \<open>Properties of pruning\<close>

lemma digit_char_values:
  "digit_char 0 = CHR ''0''" "digit_char 1 = CHR ''1''" "digit_char 2 = CHR ''2''"
  "digit_char 3 = CHR ''3''" "digit_char 4 = CHR ''4''" "digit_char 5 = CHR ''5''"
  "digit_char 6 = CHR ''6''" "digit_char 7 = CHR ''7''" "digit_char 8 = CHR ''8''"
  "digit_char 9 = CHR ''9''" "digit_char (Suc 0) = CHR ''1''"
  by code_simp+

lemma string_of_nat_1: "string_of_nat 1 = ''1''"
  by (subst string_of_nat.simps) (simp add: digit_char_values)

lemma mk_id_1: "mk_id 1 = ''mem-1''" "mk_id (Suc 0) = ''mem-1''"
  using string_of_nat_1 by (simp_all add: mk_id_def)

lemma string_of_nat_2: "string_of_nat 2 = ''2''"
  by (subst string_of_nat.simps) (simp add: digit_char_values)

lemma mk_id_2: "mk_id 2 = ''mem-2''" "mk_id (Suc (Suc 0)) = ''mem-2''"
  using string_of_nat_2 by (simp_all add: mk_id_def numeral_2_eq_2)

lemma string_of_nat_3: "string_of_nat 3 = ''3''"
  by (subst string_of_nat.simps) (simp add: digit_char_values)

lemma mk_id_3: "mk_id 3 = ''mem-3''"
  using string_of_nat_3 by (simp add: mk_id_def)

lemma map_of_filter_distinct:
  "distinct (map fst xs) \<Longrightarrow> (k, e) \<in> set xs \<Longrightarrow>
   map_of (filter Q xs) k = (if Q (k, e) then Some e else None)"
proof (induction xs)
  case Nil
  then show ?case by simp
next
  case (Cons x xs)
  show ?case
  proof (cases "fst x = k")
    case True
    with Cons.prems have notin: "k \<notin> fst ` set xs" by auto
    with Cons.prems True have x: "x = (k, e)" by (auto simp: image_iff)
    from notin have "map_of (filter Q xs) k = None"
      by (auto simp: map_of_eq_None_iff)
    with x show ?thesis by simp
  next
    case False
    with Cons.prems have "(k, e) \<in> set xs" by auto
    with Cons False show ?thesis by (cases x) auto
  qed
qed

lemma shouldPrune_cases:
  "shouldPrune maxAge_arg minImp now created imp \<longleftrightarrow>
     (\<exists>m. maxAge_arg = Some m \<and> m \<noteq> 0 \<and> now - created > m \<and>
          importance_value imp < importance_value minImp) \<or>
     ((maxAge_arg = None \<or> maxAge_arg = Some 0) \<and>
          importance_value imp < importance_value minImp)"
  by (cases maxAge_arg) (auto simp: shouldPrune_def)

lemma mem_prune_entry:
  assumes "distinct (map fst (memories s))" "(k, e) \<in> set (memories s)"
  shows "map_of (memories (fst (snd (mem_prune clk maxAge_arg minImp (s, t))))) k =
           (if shouldPrune maxAge_arg minImp (clk t) (createdAt e) (importance e) then None else Some e)"
  using map_of_filter_distinct [OF assms, of "\<lambda>p. \<not> (case p of (k, e) \<Rightarrow>
            shouldPrune maxAge_arg minImp (clk t) (createdAt e) (importance e))"]
  by (simp add: mem_prune_def Let_def)

lemma unlink_each_files:
  "snd (unlink_each ids fs) = (\<lambda>k. if k \<in> set ids then None else fs k)"
proof (induction ids arbitrary: fs)
  case Nil
  then show ?case by simp
next
  case (Cons i ids)
  show ?case
  proof (cases "fs i")
    case None
    with Cons show ?thesis by (auto simp: fun_eq_iff)
  next
    case (Some e)
    with Cons show ?thesis by (auto simp: fun_eq_iff Let_def)
  qed
qed

lemma file_prune_index:
  "index (fst (snd (file_prune clk maxAge_arg minImp (fs, t)))) =
     filter (\<lambda>m. ix_id m \<notin> ix_id ` {ix \<in> set (index fs).
                 shouldPrune maxAge_arg minImp (clk t) (ix_createdAt ix) (ix_importance ix)})
            (index fs)"
  by (simp add: file_prune_def Let_def)

lemma file_prune_files:
  "files (fst (snd (file_prune clk maxAge_arg minImp (fs, t)))) =
     (\<lambda>k. if k \<in> ix_id ` {ix \<in> set (index fs).
                 shouldPrune maxAge_arg minImp (clk t) (ix_createdAt ix) (ix_importance ix)}
          then None else files fs k)"
  by (simp add: file_prune_def Let_def unlink_each_files)

lemma distinct_ids_eq:
  "distinct (map ix_id xs) \<Longrightarrow> x \<in> set xs \<Longrightarrow> y \<in> set xs \<Longrightarrow> ix_id x = ix_id y \<Longrightarrow> x = y"
  by (metis distinct_map inj_on_def)

lemma file_prune_entry:
  assumes "distinct (map ix_id (index fs))" "ix \<in> set (index fs)"
  shows "(ix \<in> set (index (fst (snd (file_prune clk maxAge_arg minImp (fs, t))))) \<longleftrightarrow>
            \<not> shouldPrune maxAge_arg minImp (clk t) (ix_createdAt ix) (ix_importance ix)) \<and>
         files (fst (snd (file_prune clk maxAge_arg minImp (fs, t)))) (ix_id ix) =
           (if shouldPrune maxAge_arg minImp (clk t) (ix_createdAt ix) (ix_importance ix)
            then None else files fs (ix_id ix))"
proof -
  let ?D = "{ix \<in> set (index fs).
                 shouldPrune maxAge_arg minImp (clk t) (ix_createdAt ix) (ix_importance ix)}"
  have "ix_id ix \<in> ix_id ` ?D \<longleftrightarrow>
          shouldPrune maxAge_arg minImp (clk t) (ix_createdAt ix) (ix_importance ix)"
    using assms distinct_ids_eq [OF assms(1)] by (auto simp: image_iff)
  then show ?thesis
    using assms(2) by (simp add: file_prune_index file_prune_files)
qed


lemma importance_below_Medium:
  "importance_value imp < importance_value Medium \<longleftrightarrow> imp = Low"
  "importance_value imp < 2 \<longleftrightarrow> imp = Low"
  by (cases imp; simp)+

text \<open>
  Claim C6, as amended. For both stores and every entry (of a store whose ids are
  distinct), \<open>prune(maxAge, minImportance)\<close> at clock reading \<open>clk t\<close> removes the
  entry if and only if (maxAge is given and is not zero, and the age of the entry exceeds
  maxAge, and its importance is below minImportance) or (maxAge is absent or zero, and its
  importance is below minImportance); an entry that is kept is unchanged, and the durable
  store removes the file of an entry together with its index element. In particular
  \<open>prune(undefined, Medium)\<close> removes exactly the entries of importance Low, whatever
  their age.
\<close>

theorem prune_removes_iff:
  "(distinct (map fst (memories s)) \<and> (k, e) \<in> set (memories s) \<longrightarrow>
      ((map_of (memories (fst (snd (mem_prune clk maxAge_arg minImp (s, t))))) k = None) \<longleftrightarrow>
         (\<exists>m. maxAge_arg = Some m \<and> m \<noteq> 0 \<and> clk t - createdAt e > m \<and>
              importance_value (importance e) < importance_value minImp) \<or>
         ((maxAge_arg = None \<or> maxAge_arg = Some 0) \<and>
              importance_value (importance e) < importance_value minImp)) \<and>
      (map_of (memories (fst (snd (mem_prune clk maxAge_arg minImp (s, t))))) k \<noteq> None \<longrightarrow>
         map_of (memories (fst (snd (mem_prune clk maxAge_arg minImp (s, t))))) k = Some e) \<and>
      ((map_of (memories (fst (snd (mem_prune clk None Medium (s, t))))) k = None) \<longleftrightarrow>
         importance e = Low)) \<and>
   (distinct (map ix_id (index fs)) \<and> ix \<in> set (index fs) \<longrightarrow>
      ((ix \<notin> set (index (fst (snd (file_prune clk maxAge_arg minImp (fs, t)))))) \<longleftrightarrow>
         (\<exists>m. maxAge_arg = Some m \<and> m \<noteq> 0 \<and> clk t - ix_createdAt ix > m \<and>
              importance_value (ix_importance ix) < importance_value minImp) \<or>
         ((maxAge_arg = None \<or> maxAge_arg = Some 0) \<and>
              importance_value (ix_importance ix) < importance_value minImp)) \<and>
      (files (fst (snd (file_prune clk maxAge_arg minImp (fs, t)))) (ix_id ix) =
         (if ix \<in> set (index (fst (snd (file_prune clk maxAge_arg minImp (fs, t)))))
          then files fs (ix_id ix) else None)) \<and>
      ((ix \<notin> set (index (fst (snd (file_prune clk None Medium (fs, t)))))) \<longleftrightarrow>
         ix_importance ix = Low))"
proof (intro conjI impI)
  assume a: "distinct (map fst (memories s)) \<and> (k, e) \<in> set (memories s)"
  then have d: "distinct (map fst (memories s))" and m: "(k, e) \<in> set (memories s)" by simp_all
  show "(map_of (memories (fst (snd (mem_prune clk maxAge_arg minImp (s, t))))) k = None) \<longleftrightarrow>
         (\<exists>m. maxAge_arg = Some m \<and> m \<noteq> 0 \<and> clk t - createdAt e > m \<and>
              importance_value (importance e) < importance_value minImp) \<or>
         ((maxAge_arg = None \<or> maxAge_arg = Some 0) \<and>
              importance_value (importance e) < importance_value minImp)"
    unfolding mem_prune_entry [OF d m] shouldPrune_cases [symmetric] by simp
  show "map_of (memories (fst (snd (mem_prune clk maxAge_arg minImp (s, t))))) k = Some e"
    if "map_of (memories (fst (snd (mem_prune clk maxAge_arg minImp (s, t))))) k \<noteq> None"
    using that unfolding mem_prune_entry [OF d m] by (simp split: if_splits)
  show "(map_of (memories (fst (snd (mem_prune clk None Medium (s, t))))) k = None) \<longleftrightarrow>
         importance e = Low"
    unfolding mem_prune_entry [OF d m] by (simp add: shouldPrune_def importance_below_Medium)
next
  assume a: "distinct (map ix_id (index fs)) \<and> ix \<in> set (index fs)"
  then have d: "distinct (map ix_id (index fs))" and m: "ix \<in> set (index fs)" by simp_all
  note fp = file_prune_entry [OF d m]
  show "(ix \<notin> set (index (fst (snd (file_prune clk maxAge_arg minImp (fs, t)))))) \<longleftrightarrow>
         (\<exists>m. maxAge_arg = Some m \<and> m \<noteq> 0 \<and> clk t - ix_createdAt ix > m \<and>
              importance_value (ix_importance ix) < importance_value minImp) \<or>
         ((maxAge_arg = None \<or> maxAge_arg = Some 0) \<and>
              importance_value (ix_importance ix) < importance_value minImp)"
    using fp [of clk maxAge_arg minImp t] unfolding shouldPrune_cases [symmetric] by simp
  show "files (fst (snd (file_prune clk maxAge_arg minImp (fs, t)))) (ix_id ix) =
         (if ix \<in> set (index (fst (snd (file_prune clk maxAge_arg minImp (fs, t)))))
          then files fs (ix_id ix) else None)"
    using fp [of clk maxAge_arg minImp t] by simp
  show "(ix \<notin> set (index (fst (snd (file_prune clk None Medium (fs, t)))))) \<longleftrightarrow>
         ix_importance ix = Low"
    using fp [of clk None Medium t] by (simp add: shouldPrune_def importance_below_Medium)
qed

lemma one_low_entry_value:
  "one_low_entry =
     (\<lparr>memories = [(''mem-1'', \<lparr>entry_id = ''mem-1'', entry_type = ShortTerm, content = ''note'',
                               createdAt = 1000, accessedAt = 1000, accessCount = 0,
                               importance = Low, tags = []\<rparr>)],
       nextId = 2\<rparr>, 1)"
  by (simp add: one_low_entry_def mem_store_def new_InMemoryMemoryStore_def Let_def mk_id_1
        still_clock_def)

lemma one_low_file_value:
  "one_low_file =
     (\<lparr>index = [\<lparr>ix_id = ''mem-1'', ix_type = LongTerm, ix_importance = Low, ix_tags = [],
                 ix_createdAt = 1000, ix_accessedAt = 1000, ix_accessCount = 0\<rparr>],
       files = [''mem-1'' \<mapsto> \<lparr>entry_id = ''mem-1'', entry_type = LongTerm, content = ''note'',
                               createdAt = 1000, accessedAt = 1000, accessCount = 0,
                               importance = Low, tags = []\<rparr>],
       file_nextId = 2\<rparr>, 1)"
  by (simp add: one_low_file_def file_store_def new_FileMemoryStore_def Let_def mk_id_1
        still_clock_def)

text \<open>
  Claim C6 as stated fails for \<open>maxAge = 0\<close>: an entry of importance Low pruned in the
  millisecond of its creation has age 0, which does not exceed the given maxAge, so the
  rule of the specification keeps it; the code tests \<open>if (maxAge)\<close>, takes 0 as absent
  and removes the entry.
\<close>

theorem prune_zero_maxAge_counterexample:
  "map_of (memories (fst one_low_entry)) ''mem-1'' =
     Some \<lparr>entry_id = ''mem-1'', entry_type = ShortTerm, content = ''note'',
           createdAt = 1000, accessedAt = 1000, accessCount = 0, importance = Low, tags = []\<rparr> \<and>
   \<not> spec_prune_rule (Some 0) Medium (still_clock (snd one_low_entry) - 1000) Low \<and>
   map_of (memories (fst (snd (mem_prune still_clock (Some 0) Medium one_low_entry)))) ''mem-1'' = None"
  by (simp add: one_low_entry_value spec_prune_rule_def still_clock_def mem_prune_def
        shouldPrune_def Let_def)


theorem prune_removes_iff_witness:
  "distinct (map fst (memories (fst one_low_entry))) \<and>
   (''mem-1'', \<lparr>entry_id = ''mem-1'', entry_type = ShortTerm, content = ''note'',
           createdAt = 1000, accessedAt = 1000, accessCount = 0, importance = Low, tags = []\<rparr>)
     \<in> set (memories (fst one_low_entry)) \<and>
   map_of (memories (fst (snd (mem_prune still_clock (Some 0) Medium (fst one_low_entry, 1)))))
     ''mem-1'' = None \<and>
   map_of (memories (fst (snd (mem_prune still_clock None Medium (fst one_low_entry, 1)))))
     ''mem-1'' = None \<and>
   distinct (map ix_id (index (fst one_low_file))) \<and>
   \<lparr>ix_id = ''mem-1'', ix_type = LongTerm, ix_importance = Low, ix_tags = [],
     ix_createdAt = 1000, ix_accessedAt = 1000, ix_accessCount = 0\<rparr>
     \<in> set (index (fst one_low_file)) \<and>
   \<lparr>ix_id = ''mem-1'', ix_type = LongTerm, ix_importance = Low, ix_tags = [],
     ix_createdAt = 1000, ix_accessedAt = 1000, ix_accessCount = 0\<rparr>
     \<notin> set (index (fst (snd (file_prune still_clock (Some 0) Medium (fst one_low_file, 1))))) \<and>
   files (fst (snd (file_prune still_clock (Some 0) Medium (fst one_low_file, 1)))) ''mem-1'' = None"
proof -
  let ?e = "\<lparr>entry_id = ''mem-1'', entry_type = ShortTerm, content = ''note'',
           createdAt = 1000, accessedAt = 1000, accessCount = 0, importance = Low, tags = []\<rparr>"
  let ?ix = "\<lparr>ix_id = ''mem-1'', ix_type = LongTerm, ix_importance = Low, ix_tags = [],
     ix_createdAt = 1000, ix_accessedAt = 1000, ix_accessCount = 0\<rparr>"
  have h1: "distinct (map fst (memories (fst one_low_entry))) \<and>
            (''mem-1'', ?e) \<in> set (memories (fst one_low_entry))"
    by (simp add: one_low_entry_value)
  have h2: "distinct (map ix_id (index (fst one_low_file))) \<and> ?ix \<in> set (index (fst one_low_file))"
    by (simp add: one_low_file_value)
  from prune_removes_iff [where s = "fst one_low_entry" and k = "''mem-1''" and e = ?e
      and clk = still_clock and maxAge_arg = "Some 0" and minImp = Medium and t = 1
      and fs = "fst one_low_file" and ix = ?ix] h1 h2
  show ?thesis by simp
qed


section \<open>Properties of the two tiers under the manager\<close>

lemma mem_store_id:
  "entry_id (fst (mem_store clk ty c imp tgs (s, t))) = mk_id (nextId s) \<and>
   nextId (fst (snd (mem_store clk ty c imp tgs (s, t)))) = nextId s + 1"
  by (simp add: mem_store_def Let_def)

lemma file_store_id:
  "\<exists>e. fst (file_store clk WriteOk ty c imp tgs (fs, t)) = Inr e \<and>
       entry_id e = mk_id (file_nextId fs) \<and>
       file_nextId (fst (snd (file_store clk WriteOk ty c imp tgs (fs, t)))) = file_nextId fs + 1"
  by (simp add: file_store_def Let_def)

lemma manager_retrieve_shadow:
  assumes "map_of (memories (shortTermStore m)) ident = Some e1"
  shows "fst (manager_retrieve clk ident (m, t)) = Some (recordAccess clk t e1) \<and>
         longTermStore (fst (snd (manager_retrieve clk ident (m, t)))) = longTermStore m"
  using assms by (simp add: manager_retrieve_def mem_retrieve_def Let_def)

lemma manager_delete_both:
  "fst (manager_delete so ident m) =
     (map_of (memories (shortTermStore m)) ident \<noteq> None \<or>
      (files (longTermStore m) ident \<noteq> None \<and> so = SaveOk)) \<and>
   map_of (memories (shortTermStore (snd (manager_delete so ident m)))) ident = None \<and>
   files (longTermStore (snd (manager_delete so ident m))) ident = None"
  by (cases "files (longTermStore m) ident"; cases so)
     (simp_all add: manager_delete_def mem_delete_def file_delete_def Let_def delete_conv')

lemma two_tier_example_value:
  "two_tier_example =
    (\<lparr>shortTermStore =
        \<lparr>memories = [(''mem-1'', \<lparr>entry_id = ''mem-1'', entry_type = ShortTerm,
             content = ''volatile note'', createdAt = 1000, accessedAt = 1000, accessCount = 0,
             importance = Medium, tags = []\<rparr>)], nextId = 2\<rparr>,
      longTermStore =
        \<lparr>index = [\<lparr>ix_id = ''mem-1'', ix_type = LongTerm, ix_importance = High, ix_tags = [],
                    ix_createdAt = 1001, ix_accessedAt = 1001, ix_accessCount = 0\<rparr>],
          files = [''mem-1'' \<mapsto> \<lparr>entry_id = ''mem-1'', entry_type = LongTerm,
             content = ''durable fact'', createdAt = 1001, accessedAt = 1001, accessCount = 0,
             importance = High, tags = []\<rparr>],
          file_nextId = 2\<rparr>,
      consolidationThreshold = 100, consolidationImportance = High,
      shortTermMaxAge = 86400000\<rparr>, 2)"
  by (simp add: two_tier_example_def manager_store_def mem_store_def file_store_def
        maybeConsolidate_def mem_totalEntries_def new_MemoryManager_def
        new_InMemoryMemoryStore_def new_FileMemoryStore_def example_clock_def Let_def mk_id_1)

lemma shadowed_example_value:
  "shadowed_example =
    (\<lparr>shortTermStore =
        \<lparr>memories = [(''mem-1'', \<lparr>entry_id = ''mem-1'', entry_type = ShortTerm,
             content = ''volatile note'', createdAt = 1000, accessedAt = 1000, accessCount = 0,
             importance = Medium, tags = []\<rparr>)], nextId = 2\<rparr>,
      longTermStore =
        \<lparr>index = [\<lparr>ix_id = ''mem-1'', ix_type = LongTerm, ix_importance = High, ix_tags = [],
                    ix_createdAt = 1001, ix_accessedAt = 1001, ix_accessCount = 0\<rparr>,
                  \<lparr>ix_id = ''mem-2'', ix_type = LongTerm, ix_importance = High, ix_tags = [],
                    ix_createdAt = 1002, ix_accessedAt = 1002, ix_accessCount = 0\<rparr>],
          files = [''mem-1'' \<mapsto> \<lparr>entry_id = ''mem-1'', entry_type = LongTerm,
             content = ''durable fact'', createdAt = 1001, accessedAt = 1001, accessCount = 0,
             importance = High, tags = []\<rparr>,
                   ''mem-2'' \<mapsto> \<lparr>entry_id = ''mem-2'', entry_type = LongTerm,
             content = ''second fact'', createdAt = 1002, accessedAt = 1002, accessCount = 0,
             importance = High, tags = []\<rparr>],
          file_nextId = 3\<rparr>,
      consolidationThreshold = 100, consolidationImportance = High,
      shortTermMaxAge = 86400000\<rparr>, 3)"
  unfolding shadowed_example_def two_tier_example_value
  by (simp add: manager_store_def file_store_def maybeConsolidate_def mem_totalEntries_def
        example_clock_def Let_def mk_id_2)


text \<open>
  Claim C10, evaluated at a manager whose volatile tier holds \<open>mem-1\<close> and whose durable
  tier holds \<open>mem-1\<close> and \<open>mem-2\<close>: each tier numbers its entries from 1, the same id
  names distinct entries in the two tiers, and \<open>retrieve\<close> answers with the volatile one.
  The id \<open>mem-2\<close> is held by the durable tier only. When the save of the index throws
  after the entry file was unlinked, \<open>FileMemoryStore.delete\<close> answers \<open>ok(false)\<close> from
  the \<open>catch\<close> written for a missing file, and \<open>MemoryManager.delete\<close> returns false
  although the durable tier held the id and the entry is gone from its files and its index. With
  a successful save the same call returns true.
\<close>

theorem delete_reports_false_for_removed_entry:
  "map fst (memories (shortTermStore (fst shadowed_example))) = [''mem-1''] \<and>
   map ix_id (index (longTermStore (fst shadowed_example))) = [''mem-1'', ''mem-2''] \<and>
   map_option content (map_of (memories (shortTermStore (fst shadowed_example))) ''mem-1'')
     = Some ''volatile note'' \<and>
   map_option content (files (longTermStore (fst shadowed_example)) ''mem-1'') = Some ''durable fact'' \<and>
   map_option content (fst (manager_retrieve example_clock ''mem-1'' shadowed_example))
     = Some ''volatile note'' \<and>
   map_of (memories (shortTermStore (fst shadowed_example))) ''mem-2'' = None \<and>
   map_option content (files (longTermStore (fst shadowed_example)) ''mem-2'') = Some ''second fact'' \<and>
   fst (manager_delete (SaveFails (Error ''ENOSPC'' [])) ''mem-2'' (fst shadowed_example)) = False \<and>
   files (longTermStore (snd (manager_delete (SaveFails (Error ''ENOSPC'' [])) ''mem-2''
                                (fst shadowed_example)))) ''mem-2'' = None \<and>
   map ix_id (index (longTermStore (snd (manager_delete (SaveFails (Error ''ENOSPC'' [])) ''mem-2''
                                           (fst shadowed_example))))) = [''mem-1''] \<and>
   fst (manager_delete SaveOk ''mem-2'' (fst shadowed_example)) = True"
proof -
  have r: "map_option content (fst (manager_retrieve example_clock ''mem-1'' shadowed_example))
             = Some ''volatile note''"
    by (simp add: shadowed_example_value manager_retrieve_def mem_retrieve_def recordAccess_def
          Let_def)
  have del: "fst (manager_delete (SaveFails (Error ''ENOSPC'' [])) ''mem-2'' (fst shadowed_example))
               = False"
            "files (longTermStore (snd (manager_delete (SaveFails (Error ''ENOSPC'' [])) ''mem-2''
                                (fst shadowed_example)))) ''mem-2'' = None"
            "map ix_id (index (longTermStore (snd (manager_delete (SaveFails (Error ''ENOSPC'' []))
                                ''mem-2'' (fst shadowed_example))))) = [''mem-1'']"
            "fst (manager_delete SaveOk ''mem-2'' (fst shadowed_example)) = True"
    by (simp_all add: shadowed_example_value manager_delete_def mem_delete_def file_delete_def
          Let_def)
  show ?thesis
    using r del by (simp add: shadowed_example_value)
qed


section \<open>Access metadata of the volatile store\<close>

lemma string_of_nat_nonempty: "string_of_nat n \<noteq> []"
  by (subst string_of_nat.simps) simp

lemma digit_char_inj: "a < 10 \<Longrightarrow> b < 10 \<Longrightarrow> digit_char a = digit_char b \<Longrightarrow> a = b"
  by (simp add: digit_char_def char_of_eq_iff take_bit_eq_mod)

lemma string_of_nat_inj: "string_of_nat m = string_of_nat n \<Longrightarrow> m = n"
proof (induction m arbitrary: n rule: string_of_nat.induct)
  case (1 m)
  show ?case
  proof (cases "m < 10")
    case m: True
    show ?thesis
    proof (cases "n < 10")
      case True
      with m "1.prems" show ?thesis
        by (simp add: string_of_nat.simps [of m] string_of_nat.simps [of n] digit_char_inj)
    next
      case False
      with m "1.prems" string_of_nat_nonempty [of "n div 10"] show ?thesis
        by (simp add: string_of_nat.simps [of m] string_of_nat.simps [of n])
    qed
  next
    case m: False
    show ?thesis
    proof (cases "n < 10")
      case True
      with m "1.prems" string_of_nat_nonempty [of "m div 10"] show ?thesis
        by (simp add: string_of_nat.simps [of m] string_of_nat.simps [of n])
    next
      case False
      with m "1.prems" have eq: "string_of_nat (m div 10) = string_of_nat (n div 10)"
        and d: "digit_char (m mod 10) = digit_char (n mod 10)"
        by (simp_all add: string_of_nat.simps [of m] string_of_nat.simps [of n])
      from "1.IH" [OF m eq] have "m div 10 = n div 10" .
      moreover from d have "m mod 10 = n mod 10" by (intro digit_char_inj) simp_all
      ultimately show ?thesis by (metis div_mult_mod_eq)
    qed
  qed
qed

lemma mk_id_inj: "mk_id m = mk_id n \<longleftrightarrow> m = n"
  by (auto simp: mk_id_def dest: string_of_nat_inj)


lemma update_fresh: "k \<notin> fst ` set al \<Longrightarrow> AList.update k v al = al @ [(k, v)]"
  by (induction al) auto

lemma recordAccess_each_keys: "map fst (recordAccess_each clk t xs) = map fst xs"
  by (induction clk t xs rule: recordAccess_each.induct) simp_all

lemma recordAccess_each_length: "length (recordAccess_each clk t xs) = length xs"
  by (induction clk t xs rule: recordAccess_each.induct) simp_all

lemma recordAccess_each_mem:
  "(k, e') \<in> set (recordAccess_each clk t xs) \<Longrightarrow>
   \<exists>e j. (k, e) \<in> set xs \<and> t \<le> j \<and> j < t + length xs \<and> e' = recordAccess clk j e"
proof (induction clk t xs rule: recordAccess_each.induct)
  case (1 clk t)
  then show ?case by simp
next
  case (2 clk t k0 e0 rest)
  show ?case
  proof (cases "(k, e') = (k0, recordAccess clk t e0)")
    case True
    then show ?thesis by (intro exI [of _ e0] exI [of _ t]) simp
  next
    case False
    with "2.prems" have "(k, e') \<in> set (recordAccess_each clk (Suc t) rest)" by auto
    from "2.IH" [OF this] obtain e j where
      "(k, e) \<in> set rest" "Suc t \<le> j" "j < Suc t + length rest" "e' = recordAccess clk j e"
      by blast
    then show ?thesis by (intro exI [of _ e] exI [of _ j]) simp
  qed
qed

lemma recordAccess_each_mem_conv:
  "(k, e) \<in> set xs \<Longrightarrow>
   \<exists>j. t \<le> j \<and> j < t + length xs \<and> (k, recordAccess clk j e) \<in> set (recordAccess_each clk t xs)"
proof (induction clk t xs rule: recordAccess_each.induct)
  case (1 clk t)
  then show ?case by simp
next
  case (2 clk t k0 e0 rest)
  show ?case
  proof (cases "(k, e) = (k0, e0)")
    case True
    then show ?thesis by (intro exI [of _ t]) simp
  next
    case False
    with "2.prems" have "(k, e) \<in> set rest" by auto
    from "2.IH" [OF this] obtain j where
      "Suc t \<le> j" "j < Suc t + length rest"
      "(k, recordAccess clk j e) \<in> set (recordAccess_each clk (Suc t) rest)"
      by blast
    then show ?thesis by (intro exI [of _ j]) simp
  qed
qed

lemma fold_update_map_of:
  "map_of (fold (\<lambda>(k, e). AList.update k e) acc ms) = map_of ms ++ map_of (rev acc)"
proof (induction acc arbitrary: ms)
  case Nil
  then show ?case by simp
next
  case (Cons a acc)
  obtain k v where a: "a = (k, v)" by (cases a)
  have "map_of (fold (\<lambda>(k, e). AList.update k e) (a # acc) ms)
          = map_of (AList.update k v ms) ++ map_of (rev acc)"
    using Cons.IH [of "AList.update k v ms"] by (simp add: a)
  also have "\<dots> = map_of ms ++ map_of (rev (a # acc))"
    by (simp add: a update_conv' map_add_def fun_eq_iff split: option.splits)
  finally show ?case .
qed

lemma fold_update_keys:
  "set (map fst acc) \<subseteq> set (map fst ms) \<Longrightarrow>
   map fst (fold (\<lambda>(k, e). AList.update k e) acc ms) = map fst ms"
proof (induction acc arbitrary: ms)
  case Nil
  then show ?case by simp
next
  case (Cons a acc)
  obtain k v where a: "a = (k, v)" by (cases a)
  from Cons.prems a have k: "k \<in> set (map fst ms)" by simp
  then have keys: "map fst (AList.update k v ms) = map fst ms"
    by (simp add: update_keys)
  with Cons.prems have "set (map fst acc) \<subseteq> set (map fst (AList.update k v ms))" by simp
  from Cons.IH [OF this] keys show ?case by (simp add: a)
qed

lemma distinct_keys_sort:
  "distinct (map fst xs) \<Longrightarrow> distinct (map fst (sort_key f xs))"
  by (simp add: distinct_map)

lemma apply_limit_set: "set (apply_limit q xs) \<subseteq> set xs"
  by (auto simp: apply_limit_def split: option.splits dest: in_set_takeD)

lemma apply_limit_distinct: "distinct (map f xs) \<Longrightarrow> distinct (map f (apply_limit q xs))"
  by (auto simp: apply_limit_def take_map [symmetric] split: option.splits)

lemma apply_limit_no_limit: "limit q = None \<Longrightarrow> apply_limit q xs = xs"
  by (simp add: apply_limit_def)

lemma mem_select_eq:
  "mem_select clk sf q (s, t) =
     apply_limit q (sort_key (\<lambda>(k, e). - accessedAt e)
        (filter (\<lambda>(k, e). query_pred clk sf q t e) (memories s)))"
proof -
  have "filter (\<lambda>(k, e). text_matches sf q (content e))
          (filter (\<lambda>(k, e). age_matches clk t q (createdAt e))
            (filter (\<lambda>(k, e). importance_matches q (importance e))
              (filter (\<lambda>(k, e). tags_match q (tags e))
                (filter (\<lambda>(k, e). type_matches q (entry_type e)) xs))))
        = filter (\<lambda>(k, e). query_pred clk sf q t e) xs" for xs :: "(string \<times> 'a MemoryEntry) list"
    by (induction xs) (auto simp: query_pred_def)
  then show ?thesis by (simp add: mem_select_def Let_def)
qed

lemma mem_select_subset: "set (mem_select clk sf q (s, t)) \<subseteq> set (memories s)"
proof -
  have "set (mem_select clk sf q (s, t)) \<subseteq>
        set (sort_key (\<lambda>(k, e). - accessedAt e)
               (filter (\<lambda>(k, e). query_pred clk sf q t e) (memories s)))"
    unfolding mem_select_eq by (rule apply_limit_set)
  then show ?thesis by auto
qed

lemma mem_select_distinct:
  assumes "distinct (map fst (memories s))"
  shows "distinct (map fst (mem_select clk sf q (s, t)))"
proof -
  from assms have "distinct (map fst (filter (\<lambda>(k, e). query_pred clk sf q t e) (memories s)))"
    by (rule distinct_map_filter)
  then show ?thesis
    unfolding mem_select_eq by (intro apply_limit_distinct distinct_keys_sort)
qed


lemma map_of_rev_distinct: "distinct (map fst xs) \<Longrightarrow> map_of (rev xs) = map_of xs"
  by (rule map_of_inject_set [THEN iffD2]) (simp_all add: rev_map [symmetric])

lemma mem_query_parts:
  "fst (mem_query clk sf q (s, t)) =
     map snd (recordAccess_each clk (t + age_ticks q) (mem_select clk sf q (s, t)))"
  "memories (fst (snd (mem_query clk sf q (s, t)))) =
     fold (\<lambda>(k, e). AList.update k e)
       (recordAccess_each clk (t + age_ticks q) (mem_select clk sf q (s, t))) (memories s)"
  "nextId (fst (snd (mem_query clk sf q (s, t)))) = nextId s"
  "snd (snd (mem_query clk sf q (s, t))) = t + age_ticks q + length (mem_select clk sf q (s, t))"
  by (simp_all add: mem_query_def Let_def)

lemma mem_query_keys:
  "map fst (memories (fst (snd (mem_query clk sf q (s, t))))) = map fst (memories s)"
proof -
  have "set (map fst (mem_select clk sf q (s, t))) \<subseteq> set (map fst (memories s))"
    using mem_select_subset [of clk sf q s t] by auto
  then show ?thesis
    unfolding mem_query_parts by (intro fold_update_keys) (simp add: recordAccess_each_keys)
qed

lemma mem_query_map_of:
  assumes "distinct (map fst (memories s))"
  shows "map_of (memories (fst (snd (mem_query clk sf q (s, t))))) k =
     (case map_of (recordAccess_each clk (t + age_ticks q) (mem_select clk sf q (s, t))) k of
        Some e' \<Rightarrow> Some e' | None \<Rightarrow> map_of (memories s) k)"
proof -
  have "distinct (map fst (recordAccess_each clk (t + age_ticks q) (mem_select clk sf q (s, t))))"
    using mem_select_distinct [OF assms] by (simp add: recordAccess_each_keys)
  then show ?thesis
    unfolding mem_query_parts fold_update_map_of
    by (simp add: map_of_rev_distinct map_add_def)
qed

text \<open>What a query does to the entry stored under a key.\<close>

lemma mem_query_entry:
  assumes d: "distinct (map fst (memories s))" and e: "map_of (memories s) k = Some e"
  shows "(k \<in> fst ` set (mem_select clk sf q (s, t)) \<longrightarrow>
            (\<exists>j. t \<le> j \<and> j < snd (snd (mem_query clk sf q (s, t))) \<and>
                 map_of (memories (fst (snd (mem_query clk sf q (s, t))))) k =
                   Some (recordAccess clk j e))) \<and>
         (k \<notin> fst ` set (mem_select clk sf q (s, t)) \<longrightarrow>
            map_of (memories (fst (snd (mem_query clk sf q (s, t))))) k = Some e)"
proof (intro conjI impI)
  let ?sel = "mem_select clk sf q (s, t)"
  let ?acc = "recordAccess_each clk (t + age_ticks q) ?sel"
  have dsel: "distinct (map fst ?sel)" by (rule mem_select_distinct [OF d])
  have dacc: "distinct (map fst ?acc)" using dsel by (simp add: recordAccess_each_keys)
  {
    assume "k \<in> fst ` set ?sel"
    then obtain e0 where "(k, e0) \<in> set ?sel" by auto
    with mem_select_subset [of clk sf q s t] have "(k, e0) \<in> set (memories s)" by auto
    with d e have "e0 = e" by simp
    with \<open>(k, e0) \<in> set ?sel\<close> have "(k, e) \<in> set ?sel" by simp
    from recordAccess_each_mem_conv [OF this, of "t + age_ticks q" clk]
    obtain j where j: "t + age_ticks q \<le> j" "j < t + age_ticks q + length ?sel"
      "(k, recordAccess clk j e) \<in> set ?acc" by blast
    with dacc have "map_of ?acc k = Some (recordAccess clk j e)" by simp
    then have "map_of (memories (fst (snd (mem_query clk sf q (s, t))))) k = Some (recordAccess clk j e)"
      by (simp add: mem_query_map_of [OF d])
    with j show "\<exists>j. t \<le> j \<and> j < snd (snd (mem_query clk sf q (s, t))) \<and>
                 map_of (memories (fst (snd (mem_query clk sf q (s, t))))) k =
                   Some (recordAccess clk j e)"
      by (intro exI [of _ j]) (simp add: mem_query_parts)
  }
  {
    assume "k \<notin> fst ` set ?sel"
    then have "k \<notin> fst ` set ?acc"
      using recordAccess_each_keys [of clk "t + age_ticks q" ?sel] by (metis set_map)
    then have "map_of ?acc k = None" by (simp add: map_of_eq_None_iff)
    then show "map_of (memories (fst (snd (mem_query clk sf q (s, t))))) k = Some e"
      by (simp add: mem_query_map_of [OF d] e)
  }
qed


lemma monotone_clockD: "monotone_clock clk \<Longrightarrow> i \<le> j \<Longrightarrow> clk i \<le> clk j"
  by (simp add: monotone_clock_def)

lemma accessed_from_refl: "accessed_from e 0 e"
  by (simp add: accessed_from_def)

lemma accessed_from_recordAccess:
  "accessedAt e \<le> clk j \<Longrightarrow> accessed_from e 1 (recordAccess clk j e)"
  "accessedAt e \<le> clk j \<Longrightarrow> accessed_from e (Suc 0) (recordAccess clk j e)"
  by (simp_all add: accessed_from_def recordAccess_def)

lemma accessed_from_trans:
  "accessed_from e m e' \<Longrightarrow> accessed_from e' n e'' \<Longrightarrow> accessed_from e (m + n) e''"
  unfolding accessed_from_def
  by (cases e, cases e', cases e'') simp

lemma store_okD:
  assumes "store_ok clk (s, t)" "map_of (memories s) k = Some e"
  shows "entry_id e = k" "\<exists>j < nextId s. k = mk_id j" "createdAt e \<le> accessedAt e"
        "accessedAt e \<le> clk t"
  using assms unfolding store_ok_def by auto

lemma store_ok_distinct: "store_ok clk (s, t) \<Longrightarrow> distinct (map fst (memories s))"
  by (simp add: store_ok_def)

lemma store_ok_new: "store_ok clk (new_InMemoryMemoryStore, t)"
  by (simp add: store_ok_def new_InMemoryMemoryStore_def)

lemma filter_ids_keys:
  "\<forall>(k', x) \<in> set acc. entry_id x = k' \<Longrightarrow>
   filter (\<lambda>x. entry_id x = k) (map snd acc) = map snd (filter (\<lambda>p. fst p = k) acc)"
  by (induction acc) auto

lemma count_key_distinct:
  "distinct (map fst acc) \<Longrightarrow>
   length (filter (\<lambda>p. fst p = k) acc) = (if k \<in> fst ` set acc then 1 else 0)"
  by (induction acc) (auto simp: image_iff)

lemma count_ids:
  assumes "\<forall>(k', x) \<in> set acc. entry_id x = k'" "distinct (map fst acc)"
  shows "length (filter (\<lambda>x. entry_id x = k) (map snd acc)) = (if k \<in> fst ` set acc then 1 else 0)"
  unfolding filter_ids_keys [OF assms(1)] using count_key_distinct [OF assms(2), of k]
  by simp


lemma store_ok_step:
  assumes mono: "monotone_clock clk" and ok: "store_ok clk (s, t)" and tt: "t \<le> t'"
      and d: "distinct (map fst (memories s'))" and n: "nextId s \<le> nextId s'"
      and step: "\<And>k e'. map_of (memories s') k = Some e' \<Longrightarrow>
          (\<exists>e. map_of (memories s) k = Some e \<and>
               (e' = e \<or> (\<exists>j. t \<le> j \<and> j < t' \<and> e' = recordAccess clk j e))) \<or>
          (k = mk_id (nextId s) \<and> nextId s < nextId s' \<and> entry_id e' = k \<and>
           createdAt e' = accessedAt e' \<and> (\<exists>j. j < t' \<and> accessedAt e' = clk j))"
  shows "store_ok clk (s', t')"
  unfolding store_ok_def fst_conv snd_conv
proof (intro conjI allI impI)
  show "distinct (map fst (memories s'))" by (rule d)
next
  fix k e' assume m: "map_of (memories s') k = Some e'"
  from step [OF m] show "entry_id e' = k"
  proof (elim disjE exE conjE)
    fix e assume "map_of (memories s) k = Some e" "e' = e"
    with store_okD(1) [OF ok] show ?thesis by simp
  next
    fix e j assume "map_of (memories s) k = Some e" "e' = recordAccess clk j e"
    with store_okD(1) [OF ok] show ?thesis by (simp add: recordAccess_def)
  qed simp
  from step [OF m] show "\<exists>j<nextId s'. k = mk_id j"
  proof (elim disjE exE conjE)
    fix e assume "map_of (memories s) k = Some e" "e' = e"
    with store_okD(2) [OF ok] n show ?thesis by (meson less_le_trans)
  next
    fix e j assume "map_of (memories s) k = Some e" "e' = recordAccess clk j e"
    with store_okD(2) [OF ok] n show ?thesis by (meson less_le_trans)
  qed blast
  from step [OF m] show "createdAt e' \<le> accessedAt e'"
  proof (elim disjE exE conjE)
    fix e assume "map_of (memories s) k = Some e" "e' = e"
    with store_okD(3) [OF ok] show ?thesis by simp
  next
    fix e j assume e: "map_of (memories s) k = Some e" "e' = recordAccess clk j e" and j: "t \<le> j"
    from store_okD(3,4) [OF ok e(1)] monotone_clockD [OF mono j]
    show ?thesis by (simp add: e(2) recordAccess_def)
  qed simp
  from step [OF m] show "accessedAt e' \<le> clk t'"
  proof (elim disjE exE conjE)
    fix e assume "map_of (memories s) k = Some e" "e' = e"
    with store_okD(4) [OF ok] monotone_clockD [OF mono tt] show ?thesis by fastforce
  next
    fix e j assume e: "e' = recordAccess clk j e" and j: "j < t'"
    then show ?thesis using monotone_clockD [OF mono, of j t'] by (simp add: recordAccess_def)
  next
    fix j assume "j < t'" "accessedAt e' = clk j"
    then show ?thesis using monotone_clockD [OF mono, of j t'] by simp
  qed
qed

lemma fresh_id:
  assumes ok: "store_ok clk (s, t)"
  shows "mk_id (nextId s) \<notin> fst ` set (memories s)"
proof
  assume "mk_id (nextId s) \<in> fst ` set (memories s)"
  then obtain e where "map_of (memories s) (mk_id (nextId s)) = Some e"
    by (metis map_of_eq_None_iff not_Some_eq)
  from store_okD(2) [OF ok this] show False by (auto simp: mk_id_inj)
qed

lemma mem_store_parts:
  "memories (fst (snd (mem_store clk ty c imp tgs (s, t)))) =
     AList.update (mk_id (nextId s))
       \<lparr>entry_id = mk_id (nextId s), entry_type = ty, content = c, createdAt = clk t,
         accessedAt = clk t, accessCount = 0, importance = imp, tags = tgs\<rparr> (memories s)"
  "nextId (fst (snd (mem_store clk ty c imp tgs (s, t)))) = nextId s + 1"
  "snd (snd (mem_store clk ty c imp tgs (s, t))) = t + 1"
  by (simp_all add: mem_store_def Let_def)

lemma mem_store_keeps:
  assumes ok: "store_ok clk (s, t)" and e: "map_of (memories s) k = Some e"
  shows "map_of (memories (fst (snd (mem_store clk ty c imp tgs (s, t))))) k = Some e"
proof -
  from e have "k \<in> fst ` set (memories s)" by (metis map_of_eq_None_iff option.distinct(1))
  with fresh_id [OF ok] have "k \<noteq> mk_id (nextId s)" by blast
  with e show ?thesis by (simp add: mem_store_parts update_conv')
qed

lemma mem_store_ok:
  assumes mono: "monotone_clock clk" and ok: "store_ok clk (s, t)"
  shows "store_ok clk (snd (mem_store clk ty c imp tgs (s, t)))"
proof -
  let ?r = "mem_store clk ty c imp tgs (s, t)"
  have "store_ok clk (fst (snd ?r), snd (snd ?r))"
  proof (rule store_ok_step [OF mono ok])
    show "t \<le> snd (snd ?r)" by (simp add: mem_store_parts)
    show "distinct (map fst (memories (fst (snd ?r))))"
      using store_ok_distinct [OF ok] by (simp add: mem_store_parts distinct_update)
    show "nextId s \<le> nextId (fst (snd ?r))" by (simp add: mem_store_parts)
  next
    fix k e' assume "map_of (memories (fst (snd ?r))) k = Some e'"
    then show "(\<exists>e. map_of (memories s) k = Some e \<and>
               (e' = e \<or> (\<exists>j. t \<le> j \<and> j < snd (snd ?r) \<and> e' = recordAccess clk j e))) \<or>
          (k = mk_id (nextId s) \<and> nextId s < nextId (fst (snd ?r)) \<and> entry_id e' = k \<and>
           createdAt e' = accessedAt e' \<and> (\<exists>j. j < snd (snd ?r) \<and> accessedAt e' = clk j))"
      by (cases "k = mk_id (nextId s)") (auto simp: mem_store_parts update_conv')
  qed
  then show ?thesis by simp
qed

lemma mem_retrieve_parts:
  "map_of (memories s) ident = None \<Longrightarrow> mem_retrieve clk ident (s, t) = (None, s, t)"
  "map_of (memories s) ident = Some e \<Longrightarrow>
     mem_retrieve clk ident (s, t) =
       (Some (recordAccess clk t e),
        s\<lparr>memories := AList.update ident (recordAccess clk t e) (memories s)\<rparr>, t + 1)"
  by (simp_all add: mem_retrieve_def Let_def)

lemma mem_retrieve_ok:
  assumes mono: "monotone_clock clk" and ok: "store_ok clk (s, t)"
  shows "store_ok clk (snd (mem_retrieve clk ident (s, t)))"
proof (cases "map_of (memories s) ident")
  case None
  with ok show ?thesis by (simp add: mem_retrieve_parts)
next
  case (Some e0)
  let ?s' = "s\<lparr>memories := AList.update ident (recordAccess clk t e0) (memories s)\<rparr>"
  have "store_ok clk (?s', t + 1)"
  proof (rule store_ok_step [OF mono ok])
    show "distinct (map fst (memories ?s'))"
      using store_ok_distinct [OF ok] by (simp add: distinct_update)
  next
    fix k e' assume "map_of (memories ?s') k = Some e'"
    with Some show "(\<exists>e. map_of (memories s) k = Some e \<and>
               (e' = e \<or> (\<exists>j. t \<le> j \<and> j < t + 1 \<and> e' = recordAccess clk j e))) \<or>
          (k = mk_id (nextId s) \<and> nextId s < nextId ?s' \<and> entry_id e' = k \<and>
           createdAt e' = accessedAt e' \<and> (\<exists>j. j < t + 1 \<and> accessedAt e' = clk j))"
      by (cases "k = ident") (auto simp: update_conv')
  qed simp_all
  with Some show ?thesis by (simp add: mem_retrieve_parts)
qed

lemma mem_query_ok:
  assumes mono: "monotone_clock clk" and ok: "store_ok clk (s, t)"
  shows "store_ok clk (snd (mem_query clk sf q (s, t)))"
proof -
  let ?r = "mem_query clk sf q (s, t)"
  note d = store_ok_distinct [OF ok]
  have "store_ok clk (fst (snd ?r), snd (snd ?r))"
  proof (rule store_ok_step [OF mono ok])
    show "t \<le> snd (snd ?r)" by (simp add: mem_query_parts)
    show "distinct (map fst (memories (fst (snd ?r))))" using d by (simp add: mem_query_keys)
    show "nextId s \<le> nextId (fst (snd ?r))" by (simp add: mem_query_parts)
  next
    fix k e' assume a: "map_of (memories (fst (snd ?r))) k = Some e'"
    then have "k \<in> fst ` set (memories (fst (snd ?r)))"
      by (metis map_of_eq_None_iff option.distinct(1))
    then have "k \<in> fst ` set (memories s)"
      using mem_query_keys [of clk sf q s t] by (metis set_map)
    then obtain e where e: "map_of (memories s) k = Some e"
      by (metis map_of_eq_None_iff not_Some_eq)
    from mem_query_entry [OF d e, of clk sf q t] a
    have "e' = e \<or> (\<exists>j. t \<le> j \<and> j < snd (snd ?r) \<and> e' = recordAccess clk j e)"
      by (cases "k \<in> fst ` set (mem_select clk sf q (s, t))") auto
    with e show "(\<exists>e. map_of (memories s) k = Some e \<and>
               (e' = e \<or> (\<exists>j. t \<le> j \<and> j < snd (snd ?r) \<and> e' = recordAccess clk j e))) \<or>
          (k = mk_id (nextId s) \<and> nextId s < nextId (fst (snd ?r)) \<and> entry_id e' = k \<and>
           createdAt e' = accessedAt e' \<and> (\<exists>j. j < snd (snd ?r) \<and> accessedAt e' = clk j))"
      by blast
  qed
  then show ?thesis by simp
qed


lemma apply_op_ok:
  assumes "monotone_clock clk" "store_ok clk st"
  shows "store_ok clk (apply_op clk sf x st)"
  using assms by (cases st; cases x) (simp_all add: mem_store_ok mem_retrieve_ok mem_query_ok)

lemma run_ops_ok:
  "monotone_clock clk \<Longrightarrow> store_ok clk st \<Longrightarrow> store_ok clk (run_ops clk sf ops st)"
  by (induction ops arbitrary: st) (simp_all add: apply_op_ok)

lemma recordAccess_id: "entry_id (recordAccess clk j e) = entry_id e"
  by (simp add: recordAccess_def)

lemma query_returns_ids:
  assumes ok: "store_ok clk (s, t)"
  shows "\<forall>(k', x) \<in> set (recordAccess_each clk t1 (mem_select clk sf q (s, t))). entry_id x = k'"
proof (clarify)
  fix k' x assume "(k', x) \<in> set (recordAccess_each clk t1 (mem_select clk sf q (s, t)))"
  from recordAccess_each_mem [OF this] obtain e0 j
    where m: "(k', e0) \<in> set (mem_select clk sf q (s, t))" and x: "x = recordAccess clk j e0"
    by blast
  from m mem_select_subset [of clk sf q s t] have "(k', e0) \<in> set (memories s)" by auto
  with store_ok_distinct [OF ok] have "map_of (memories s) k' = Some e0" by simp
  from store_okD(1) [OF ok this] x show "entry_id x = k'" by (simp add: recordAccess_id)
qed

lemma op_step:
  assumes mono: "monotone_clock clk" and ok: "store_ok clk st"
      and e: "map_of (memories (fst st)) k = Some e"
  shows "\<exists>e'. map_of (memories (fst (apply_op clk sf x st))) k = Some e' \<and>
              accessed_from e (length (filter (\<lambda>y. entry_id y = k) (op_returns clk sf x st))) e'"
proof -
  obtain s t where st: "st = (s, t)" by (cases st)
  note ok' = ok [unfolded st] and e' = e [unfolded st fst_conv]
  note d = store_ok_distinct [OF ok']
  show ?thesis
  proof (cases x)
    case (Store ty c imp tgs)
    with mem_store_keeps [OF ok' e'] show ?thesis
      by (auto simp: st accessed_from_refl)
  next
    case (Retrieve ident)
    show ?thesis
    proof (cases "map_of (memories s) ident")
      case None
      with e' Retrieve show ?thesis by (auto simp: st mem_retrieve_parts accessed_from_refl)
    next
      case (Some e0)
      show ?thesis
      proof (cases "k = ident")
        case True
        with Some e' have "e0 = e" by simp
        with Some True Retrieve store_okD(1,4) [OF ok' e'] show ?thesis
          by (simp add: st mem_retrieve_parts update_conv' recordAccess_id
                accessed_from_recordAccess)
      next
        case False
        with store_okD(1) [OF ok' Some] have "entry_id e0 \<noteq> k" by simp
        with Some False Retrieve e' show ?thesis
          by (simp add: st mem_retrieve_parts update_conv' recordAccess_id accessed_from_refl)
      qed
    qed
  next
    case (Query q)
    let ?sel = "mem_select clk sf q (s, t)"
    let ?acc = "recordAccess_each clk (t + age_ticks q) ?sel"
    have dacc: "distinct (map fst ?acc)"
      using mem_select_distinct [OF d] by (simp add: recordAccess_each_keys)
    have keys: "fst ` set ?acc = fst ` set ?sel"
      using recordAccess_each_keys [of clk "t + age_ticks q" ?sel] by (metis set_map)
    have n: "length (filter (\<lambda>y. entry_id y = k) (op_returns clk sf x st)) =
               (if k \<in> fst ` set ?sel then 1 else 0)"
      using count_ids [OF query_returns_ids [OF ok'] dacc, of k] keys
      by (simp add: Query st mem_query_parts)
    show ?thesis
    proof (cases "k \<in> fst ` set ?sel")
      case True
      with mem_query_entry [OF d e', of clk sf q t] obtain j
        where j: "t \<le> j"
          and m: "map_of (memories (fst (snd (mem_query clk sf q (s, t))))) k = Some (recordAccess clk j e)"
        by blast
      from store_okD(4) [OF ok' e'] monotone_clockD [OF mono j]
      have "accessed_from e 1 (recordAccess clk j e)"
        by (intro accessed_from_recordAccess(1)) simp
      with m True n show ?thesis by (simp add: Query st)
    next
      case False
      with mem_query_entry [OF d e', of clk sf q t]
      have "map_of (memories (fst (snd (mem_query clk sf q (s, t))))) k = Some e" by blast
      with False n show ?thesis by (simp add: Query st accessed_from_refl)
    qed
  qed
qed

lemma run_ops_relation:
  "monotone_clock clk \<Longrightarrow> store_ok clk st \<Longrightarrow> map_of (memories (fst st)) k = Some e \<Longrightarrow>
   \<exists>e'. map_of (memories (fst (run_ops clk sf ops st))) k = Some e' \<and>
        accessed_from e (hits clk sf ops st k) e'"
proof (induction ops arbitrary: st e)
  case Nil
  then show ?case by (simp add: accessed_from_refl)
next
  case (Cons x ops)
  from op_step [OF Cons.prems, of sf x] obtain e1
    where e1: "map_of (memories (fst (apply_op clk sf x st))) k = Some e1"
      and a1: "accessed_from e (length (filter (\<lambda>y. entry_id y = k) (op_returns clk sf x st))) e1"
    by blast
  from Cons.IH [OF Cons.prems(1) apply_op_ok [OF Cons.prems(1,2)] e1] obtain e'
    where e': "map_of (memories (fst (run_ops clk sf ops (apply_op clk sf x st)))) k = Some e'"
      and a2: "accessed_from e1 (hits clk sf ops (apply_op clk sf x st) k) e'"
    by blast
  from accessed_from_trans [OF a1 a2] e' show ?case by simp
qed

text \<open>
  The access metadata of the volatile store, for a clock that never runs backwards. Take any
  sequence of store, retrieve and query calls on a fresh store, and any entry the store
  then holds: its access date is not before its creation date. After any further such
  calls the entry is still stored under its id, its access count is its former count
  plus the number of times those calls returned it, so the count never decreases, its
  access date has not moved back, and its creation date is unchanged.
\<close>

theorem access_metadata_invariant:
  assumes "monotone_clock clk"
  shows "\<forall>k e. map_of (memories (fst (run_ops clk sf ops (new_InMemoryMemoryStore, t0)))) k = Some e \<longrightarrow>
           createdAt e \<le> accessedAt e \<and>
           (\<exists>e'. map_of (memories (fst (run_ops clk sf later
                          (run_ops clk sf ops (new_InMemoryMemoryStore, t0))))) k = Some e' \<and>
                 accessCount e' =
                   accessCount e + hits clk sf later (run_ops clk sf ops (new_InMemoryMemoryStore, t0)) k \<and>
                 accessCount e \<le> accessCount e' \<and>
                 accessedAt e \<le> accessedAt e' \<and>
                 createdAt e' = createdAt e \<and>
                 createdAt e' \<le> accessedAt e')"
proof (intro allI impI)
  fix k e
  let ?st = "run_ops clk sf ops (new_InMemoryMemoryStore, t0)"
  assume e: "map_of (memories (fst ?st)) k = Some e"
  have ok: "store_ok clk ?st" by (intro run_ops_ok assms store_ok_new)
  then have ok': "store_ok clk (fst ?st, snd ?st)" by simp
  from run_ops_relation [OF assms ok e, of sf later] obtain e'
    where e': "map_of (memories (fst (run_ops clk sf later ?st))) k = Some e'"
      and a: "accessed_from e (hits clk sf later ?st k) e'"
    by blast
  from a have "accessCount e' = accessCount e + hits clk sf later ?st k"
    "accessedAt e \<le> accessedAt e'" "createdAt e' = createdAt e"
    unfolding accessed_from_def by (cases e, cases e', simp)+
  with store_okD(3) [OF ok' e] e'
  show "createdAt e \<le> accessedAt e \<and>
           (\<exists>e'. map_of (memories (fst (run_ops clk sf later ?st))) k = Some e' \<and>
                 accessCount e' = accessCount e + hits clk sf later ?st k \<and>
                 accessCount e \<le> accessCount e' \<and>
                 accessedAt e \<le> accessedAt e' \<and>
                 createdAt e' = createdAt e \<and>
                 createdAt e' \<le> accessedAt e')"
    by auto
qed


lemma monotone_example_clock: "monotone_clock example_clock"
  by (simp add: monotone_clock_def example_clock_def)

lemma first_ops_state:
  "run_ops example_clock quoted first_ops (new_InMemoryMemoryStore, 0) =
     (\<lparr>memories = [(''mem-1'', \<lparr>entry_id = ''mem-1'', entry_type = ShortTerm, content = ''note'',
                               createdAt = 1000, accessedAt = 1000, accessCount = 0,
                               importance = Medium, tags = [''demo'']\<rparr>)],
       nextId = 2\<rparr>, 1)"
  by (simp add: first_ops_def mem_store_def new_InMemoryMemoryStore_def Let_def mk_id_1
        example_clock_def)

lemma no_filter_select:
  "mem_select clk sf no_filter (\<lparr>memories = [(k, e)], nextId = n\<rparr>, t) = [(k, e)]"
  by (simp add: mem_select_def no_filter_def Let_def type_matches_def tags_match_def
        importance_matches_def age_matches_def text_matches_def apply_limit_def)

lemma age_ticks_no_filter: "age_ticks no_filter = 0"
  by (simp add: age_ticks_def no_filter_def)

lemma later_ops_hits:
  "hits example_clock quoted later_ops
     (run_ops example_clock quoted first_ops (new_InMemoryMemoryStore, 0)) ''mem-1'' = 2"
  unfolding first_ops_state
  by (simp add: later_ops_def mem_retrieve_def mem_query_def no_filter_select Let_def
        recordAccess_def age_ticks_no_filter)

theorem access_metadata_invariant_witness:
  "monotone_clock example_clock \<and>
   map_of (memories (fst (run_ops example_clock quoted first_ops (new_InMemoryMemoryStore, 0))))
     ''mem-1'' =
     Some \<lparr>entry_id = ''mem-1'', entry_type = ShortTerm, content = ''note'',
           createdAt = 1000, accessedAt = 1000, accessCount = 0,
           importance = Medium, tags = [''demo'']\<rparr> \<and>
   hits example_clock quoted later_ops
     (run_ops example_clock quoted first_ops (new_InMemoryMemoryStore, 0)) ''mem-1'' = 2 \<and>
   (\<exists>e'. map_of (memories (fst (run_ops example_clock quoted later_ops
                  (run_ops example_clock quoted first_ops (new_InMemoryMemoryStore, 0)))))
              ''mem-1'' = Some e' \<and>
         accessCount e' = 2 \<and> 1000 \<le> accessedAt e' \<and> createdAt e' = 1000)"
proof -
  let ?e = "\<lparr>entry_id = ''mem-1'', entry_type = ShortTerm, content = ''note'',
           createdAt = 1000, accessedAt = 1000, accessCount = 0,
           importance = Medium, tags = [''demo'']\<rparr>"
  have h: "map_of (memories (fst (run_ops example_clock quoted first_ops
              (new_InMemoryMemoryStore, 0)))) ''mem-1'' = Some ?e"
    by (simp add: first_ops_state)
  from access_metadata_invariant [OF monotone_example_clock, of quoted first_ops 0 later_ops] h
  have "\<exists>e'. map_of (memories (fst (run_ops example_clock quoted later_ops
                  (run_ops example_clock quoted first_ops (new_InMemoryMemoryStore, 0)))))
              ''mem-1'' = Some e' \<and>
         accessCount e' = accessCount ?e + hits example_clock quoted later_ops
            (run_ops example_clock quoted first_ops (new_InMemoryMemoryStore, 0)) ''mem-1'' \<and>
         accessedAt ?e \<le> accessedAt e' \<and> createdAt e' = createdAt ?e"
    by blast
  then show ?thesis
    using monotone_example_clock h later_ops_hits by (simp add: numeral_2_eq_2)
qed


section \<open>Queries of the two stores\<close>

lemma lower_banana: "toLowerCase ''banana'' = ''banana''"
  by code_simp

lemma lower_quoted_banana: "toLowerCase (quoted ''banana'') = quoted ''banana''"
  by code_simp

lemma lower_quoted_apple: "toLowerCase (quoted ''apple'') = quoted ''apple''"
  by code_simp

lemma apple_no_banana: "\<not> str_includes (quoted ''apple'') ''banana''"
  by (simp add: quoted_def)

lemma banana_has_banana: "str_includes (quoted ''banana'') ''banana''"
  by (simp add: quoted_def)

lemma banana_text:
  "text_matches quoted banana_query ''banana''" "\<not> text_matches quoted banana_query ''apple''"
  by (simp_all add: text_matches_def banana_query_def no_filter_def lower_banana
        lower_quoted_banana lower_quoted_apple apple_no_banana banana_has_banana)

lemma fruit_files_value:
  "fruit_files =
     (\<lparr>index = [\<lparr>ix_id = ''mem-1'', ix_type = LongTerm, ix_importance = Medium, ix_tags = [],
                 ix_createdAt = 1000, ix_accessedAt = 1000, ix_accessCount = 0\<rparr>,
               \<lparr>ix_id = ''mem-2'', ix_type = LongTerm, ix_importance = Medium, ix_tags = [],
                 ix_createdAt = 1001, ix_accessedAt = 1001, ix_accessCount = 0\<rparr>],
       files = [''mem-1'' \<mapsto> \<lparr>entry_id = ''mem-1'', entry_type = LongTerm, content = ''banana'',
                               createdAt = 1000, accessedAt = 1000, accessCount = 0,
                               importance = Medium, tags = []\<rparr>,
                ''mem-2'' \<mapsto> \<lparr>entry_id = ''mem-2'', entry_type = LongTerm, content = ''apple'',
                               createdAt = 1001, accessedAt = 1001, accessCount = 0,
                               importance = Medium, tags = []\<rparr>],
       file_nextId = 3\<rparr>, 2)"
  by (simp add: fruit_files_def file_store_def new_FileMemoryStore_def Let_def mk_id_1 mk_id_2
        example_clock_def)

lemma fruit_memories_value:
  "fruit_memories =
     (\<lparr>memories = [(''mem-1'', \<lparr>entry_id = ''mem-1'', entry_type = LongTerm, content = ''banana'',
                               createdAt = 1000, accessedAt = 1000, accessCount = 0,
                               importance = Medium, tags = []\<rparr>),
                (''mem-2'', \<lparr>entry_id = ''mem-2'', entry_type = LongTerm, content = ''apple'',
                               createdAt = 1001, accessedAt = 1001, accessCount = 0,
                               importance = Medium, tags = []\<rparr>)],
       nextId = 3\<rparr>, 2)"
  by (simp add: fruit_memories_def mem_store_def new_InMemoryMemoryStore_def Let_def mk_id_1 mk_id_2
        example_clock_def)


lemma banana_query_fields:
  "q_type banana_query = None" "q_tags banana_query = None" "minImportance banana_query = None"
  "maxAge banana_query = None" "limit banana_query = Some 1"
  by (simp_all add: banana_query_def no_filter_def)

lemma banana_query_filters:
  "type_matches banana_query ty" "tags_match banana_query tgs"
  "importance_matches banana_query imp" "age_matches clk t banana_query created"
  "age_ticks banana_query = 0" "apply_limit banana_query xs = take 1 xs"
  by (simp_all add: type_matches_def tags_match_def importance_matches_def age_matches_def
        age_ticks_def apply_limit_def banana_query_fields)

text \<open>
  The volatile store does what claim C5 says: it filters by all predicates, sorts by the
  access date (latest first), applies the limit and records an access on each entry it
  returns.
\<close>

lemma mem_query_result:
  "fst (mem_query clk sf q (s, t)) =
     map snd (recordAccess_each clk (t + age_ticks q)
       (apply_limit q (sort_key (\<lambda>(k, e). - accessedAt e)
          (filter (\<lambda>(k, e). query_pred clk sf q t e) (memories s)))))"
  by (simp add: mem_query_parts mem_select_eq)

text \<open>
  Claim C5, evaluated at the durable store holding \<open>banana\<close> and, accessed later,
  \<open>apple\<close>, for the query \<open>{searchText: "banana", limit: 1}\<close>: the entry \<open>banana\<close>
  satisfies every predicate, yet the durable store returns no entry, because it cuts the
  list to the limit (keeping \<open>apple\<close>) before it tests the search text. The volatile
  store returns \<open>banana\<close> for the same entries and query.
\<close>

theorem durable_query_limits_before_search:
  "files (fst fruit_files) ''mem-1'' =
     Some \<lparr>entry_id = ''mem-1'', entry_type = LongTerm, content = ''banana'',
           createdAt = 1000, accessedAt = 1000, accessCount = 0,
           importance = Medium, tags = []\<rparr> \<and>
   text_matches quoted banana_query ''banana'' \<and>
   fst (file_query example_clock quoted banana_query fruit_files) = [] \<and>
   map content (fst (mem_query example_clock quoted banana_query fruit_memories)) = [''banana'']"
proof -
  have a: "files (fst fruit_files) ''mem-1'' =
     Some \<lparr>entry_id = ''mem-1'', entry_type = LongTerm, content = ''banana'',
           createdAt = 1000, accessedAt = 1000, accessCount = 0,
           importance = Medium, tags = []\<rparr>"
    by (simp add: fruit_files_value)
  have sel: "file_select example_clock banana_query fruit_files =
     [\<lparr>ix_id = ''mem-2'', ix_type = LongTerm, ix_importance = Medium, ix_tags = [],
       ix_createdAt = 1001, ix_accessedAt = 1001, ix_accessCount = 0\<rparr>]"
    by (simp add: fruit_files_value file_select_def Let_def banana_query_filters)
  have f: "fst (file_query example_clock quoted banana_query fruit_files) = []"
    unfolding file_query_def sel
    by (simp add: fruit_files_value file_retrieve_def Let_def banana_query_filters
          recordAccess_def banana_text)
  have msel: "mem_select example_clock quoted banana_query fruit_memories =
     [(''mem-1'', \<lparr>entry_id = ''mem-1'', entry_type = LongTerm, content = ''banana'',
                   createdAt = 1000, accessedAt = 1000, accessCount = 0,
                   importance = Medium, tags = []\<rparr>)]"
    by (simp add: fruit_memories_value mem_select_def Let_def banana_query_filters banana_text)
  have m: "map content (fst (mem_query example_clock quoted banana_query fruit_memories)) = [''banana'']"
    unfolding mem_query_def msel
    by (simp add: Let_def recordAccess_def)
  from a f m banana_text(1) show ?thesis by simp
qed

text \<open>
  Claim C7, evaluated at the durable store holding \<open>banana\<close> and, accessed later,
  \<open>apple\<close>, for the query \<open>{searchText: "banana", limit: 1}\<close>. The loop that loads the
  selected entries calls \<open>retrieve\<close>, which records an access, before it tests the search
  text: the query returns no entry, and yet the access count of \<open>apple\<close> goes from 0 to
  1, in its file and in the index. The volatile store, for the same entries and query, returns
  \<open>banana\<close>, counts one access on it and leaves the count of \<open>apple\<close> at 0.
\<close>

theorem durable_query_counts_unreturned_entry:
  "map ix_id (index (fst fruit_files)) = [''mem-1'', ''mem-2''] \<and>
   map ix_accessCount (index (fst fruit_files)) = [0, 0] \<and>
   map_option accessCount (files (fst fruit_files) ''mem-2'') = Some 0 \<and>
   fst (file_query example_clock quoted banana_query fruit_files) = [] \<and>
   map ix_id (index (fst (snd (file_query example_clock quoted banana_query fruit_files))))
     = [''mem-1'', ''mem-2''] \<and>
   map ix_accessCount (index (fst (snd (file_query example_clock quoted banana_query fruit_files))))
     = [0, 1] \<and>
   map_option accessCount
     (files (fst (snd (file_query example_clock quoted banana_query fruit_files))) ''mem-2'') = Some 1 \<and>
   map fst (memories (fst fruit_memories)) = [''mem-1'', ''mem-2''] \<and>
   map (accessCount \<circ> snd) (memories (fst fruit_memories)) = [0, 0] \<and>
   map entry_id (fst (mem_query example_clock quoted banana_query fruit_memories)) = [''mem-1''] \<and>
   map fst (memories (fst (snd (mem_query example_clock quoted banana_query fruit_memories))))
     = [''mem-1'', ''mem-2''] \<and>
   map (accessCount \<circ> snd)
     (memories (fst (snd (mem_query example_clock quoted banana_query fruit_memories)))) = [1, 0]"
proof -
  have sel: "file_select example_clock banana_query fruit_files =
     [\<lparr>ix_id = ''mem-2'', ix_type = LongTerm, ix_importance = Medium, ix_tags = [],
       ix_createdAt = 1001, ix_accessedAt = 1001, ix_accessCount = 0\<rparr>]"
    by (simp add: fruit_files_value file_select_def Let_def banana_query_filters)
  have f: "fst (file_query example_clock quoted banana_query fruit_files) = []"
          "map ix_id (index (fst (snd (file_query example_clock quoted banana_query fruit_files))))
             = [''mem-1'', ''mem-2'']"
          "map ix_accessCount
             (index (fst (snd (file_query example_clock quoted banana_query fruit_files)))) = [0, 1]"
          "map_option accessCount
             (files (fst (snd (file_query example_clock quoted banana_query fruit_files))) ''mem-2'')
             = Some 1"
    unfolding file_query_def sel
    by (simp_all add: fruit_files_value file_retrieve_def Let_def banana_query_filters
          recordAccess_def banana_text)
  have msel: "mem_select example_clock quoted banana_query fruit_memories =
     [(''mem-1'', \<lparr>entry_id = ''mem-1'', entry_type = LongTerm, content = ''banana'',
                   createdAt = 1000, accessedAt = 1000, accessCount = 0,
                   importance = Medium, tags = []\<rparr>)]"
    by (simp add: fruit_memories_value mem_select_def Let_def banana_query_filters banana_text)
  have m: "map entry_id (fst (mem_query example_clock quoted banana_query fruit_memories)) = [''mem-1'']"
          "map fst (memories (fst (snd (mem_query example_clock quoted banana_query fruit_memories))))
             = [''mem-1'', ''mem-2'']"
          "map (accessCount \<circ> snd)
             (memories (fst (snd (mem_query example_clock quoted banana_query fruit_memories)))) = [1, 0]"
    unfolding mem_query_def msel
    by (simp_all add: Let_def recordAccess_def fruit_memories_value)
  show ?thesis
    using f m by (simp add: fruit_files_value fruit_memories_value)
qed


section \<open>Properties of consolidation\<close>

lemma mem_delete_map_of:
  "map_of (memories (snd (mem_delete ident s))) = (map_of (memories s))(ident := None)"
  by (simp add: mem_delete_def delete_conv')

lemma file_store_outcome:
  "(\<exists>stored. fst (file_store clk wo ty c imp tgs (fs, t)) = Inr stored) \<longleftrightarrow> wo = WriteOk"
  by (cases wo) (simp_all add: file_store_def Let_def)

text \<open>The volatile store after the loop: the memories written successfully are gone, the others stay.\<close>

lemma consolidate_loop_short:
  "map_of (memories (fst (consolidate_loop clk wr mems (short, long, t, n)))) k =
     (if k \<in> {entry_id m | m. m \<in> set mems \<and> wr (entry_id m) = WriteOk} then None
      else map_of (memories short) k)"
proof (induction mems arbitrary: short long t n)
  case Nil
  then show ?case by simp
next
  case (Cons m mems)
  obtain r long' t' where fs: "file_store clk (wr (entry_id m)) LongTerm (content m)
             (importance m) (tags m) (long, t) = (r, long', t')"
    by (cases "file_store clk (wr (entry_id m)) LongTerm (content m)
             (importance m) (tags m) (long, t)") auto
  show ?case
  proof (cases r)
    case (Inl e)
    with fs file_store_outcome [of clk "wr (entry_id m)" LongTerm "content m" "importance m" "tags m" long t]
    have "wr (entry_id m) \<noteq> WriteOk" by auto
    then have "{entry_id x | x. x \<in> set (m # mems) \<and> wr (entry_id x) = WriteOk} =
               {entry_id x | x. x \<in> set mems \<and> wr (entry_id x) = WriteOk}" by auto
    with Cons.IH [of short long' t' n] fs Inl show ?thesis by simp
  next
    case (Inr stored)
    with fs file_store_outcome [of clk "wr (entry_id m)" LongTerm "content m" "importance m" "tags m" long t]
    have ok: "wr (entry_id m) = WriteOk" by auto
    then have D: "{entry_id x | x. x \<in> set (m # mems) \<and> wr (entry_id x) = WriteOk} =
               insert (entry_id m) {entry_id x | x. x \<in> set mems \<and> wr (entry_id x) = WriteOk}"
      by auto
    have "map_of (memories (fst (consolidate_loop clk wr (m # mems) (short, long, t, n)))) k =
          map_of (memories (fst (consolidate_loop clk wr mems
             (snd (mem_delete (entry_id m) short), long', t', n + 1)))) k"
      using fs Inr by simp
    also have "\<dots> = (if k \<in> {entry_id x | x. x \<in> set mems \<and> wr (entry_id x) = WriteOk} then None
                      else map_of (memories (snd (mem_delete (entry_id m) short))) k)"
      by (rule Cons.IH)
    also have "\<dots> = (if k \<in> insert (entry_id m)
                              {entry_id x | x. x \<in> set mems \<and> wr (entry_id x) = WriteOk} then None
                      else map_of (memories short) k)"
      by (auto simp: mem_delete_map_of)
    finally show ?thesis unfolding D .
  qed
qed


lemma file_store_keeps:
  "file_nextId (fst (snd (file_store clk wo ty c imp tgs (fs, t)))) = file_nextId fs + 1"
  "j < file_nextId fs \<Longrightarrow>
     files (fst (snd (file_store clk wo ty c imp tgs (fs, t)))) (mk_id j) = files fs (mk_id j)"
  "ix \<in> set (index fs) \<Longrightarrow> ix \<in> set (index (fst (snd (file_store clk wo ty c imp tgs (fs, t)))))"
  by (cases wo; simp add: file_store_def Let_def mk_id_inj)+

lemma file_store_written:
  "files (fst (snd (file_store clk WriteOk ty c imp tgs (fs, t)))) (mk_id (file_nextId fs)) =
     Some \<lparr>entry_id = mk_id (file_nextId fs), entry_type = ty, content = c, createdAt = clk t,
           accessedAt = clk t, accessCount = 0, importance = imp, tags = tgs\<rparr>"
  "\<lparr>ix_id = mk_id (file_nextId fs), ix_type = ty, ix_importance = imp, ix_tags = tgs,
     ix_createdAt = clk t, ix_accessedAt = clk t, ix_accessCount = 0\<rparr>
     \<in> set (index (fst (snd (file_store clk WriteOk ty c imp tgs (fs, t)))))"
  by (simp_all add: file_store_def Let_def)

text \<open>The durable store after the loop keeps what it held and what the loop has written.\<close>

lemma consolidate_loop_long_keeps:
  "file_nextId long \<le> file_nextId (fst (snd (consolidate_loop clk wr mems (short, long, t, n)))) \<and>
   (\<forall>j < file_nextId long.
      files (fst (snd (consolidate_loop clk wr mems (short, long, t, n)))) (mk_id j) =
        files long (mk_id j)) \<and>
   (\<forall>ix \<in> set (index long).
      ix \<in> set (index (fst (snd (consolidate_loop clk wr mems (short, long, t, n))))))"
proof (induction mems arbitrary: short long t n)
  case Nil
  then show ?case by simp
next
  case (Cons m mems)
  let ?fs = "file_store clk (wr (entry_id m)) LongTerm (content m) (importance m) (tags m) (long, t)"
  obtain r long' t' where fs: "?fs = (r, long', t')" by (cases ?fs) auto
  then have long': "long' = fst (snd ?fs)" by simp
  have nx: "file_nextId long' = file_nextId long + 1" unfolding long' by (rule file_store_keeps)
  have keep: "\<And>j. j < file_nextId long \<Longrightarrow> files long' (mk_id j) = files long (mk_id j)"
    unfolding long' by (rule file_store_keeps)
  have ixs: "\<And>ix. ix \<in> set (index long) \<Longrightarrow> ix \<in> set (index long')"
    unfolding long' by (rule file_store_keeps)
  obtain short' n' where step: "consolidate_loop clk wr (m # mems) (short, long, t, n) =
                                consolidate_loop clk wr mems (short', long', t', n')"
    using fs by (cases r) auto
  from Cons.IH [where short = short' and long = long' and t = t' and n = n'] nx keep ixs show ?case
    unfolding step by auto
qed

lemma consolidate_loop_long_written:
  "m \<in> set mems \<Longrightarrow> wr (entry_id m) = WriteOk \<Longrightarrow>
   \<exists>j c. file_nextId long \<le> j \<and>
     files (fst (snd (consolidate_loop clk wr mems (short, long, t, n)))) (mk_id j) =
       Some \<lparr>entry_id = mk_id j, entry_type = LongTerm, content = content m, createdAt = c,
             accessedAt = c, accessCount = 0, importance = importance m, tags = tags m\<rparr> \<and>
     \<lparr>ix_id = mk_id j, ix_type = LongTerm, ix_importance = importance m, ix_tags = tags m,
       ix_createdAt = c, ix_accessedAt = c, ix_accessCount = 0\<rparr>
       \<in> set (index (fst (snd (consolidate_loop clk wr mems (short, long, t, n)))))"
proof (induction mems arbitrary: short long t n)
  case Nil
  then show ?case by simp
next
  case (Cons x mems)
  let ?fs = "file_store clk (wr (entry_id x)) LongTerm (content x) (importance x) (tags x) (long, t)"
  obtain r long' t' where fs: "?fs = (r, long', t')" by (cases ?fs) auto
  then have long': "long' = fst (snd ?fs)" by simp
  have nx: "file_nextId long' = file_nextId long + 1" unfolding long' by (rule file_store_keeps)
  obtain short' n' where step: "consolidate_loop clk wr (x # mems) (short, long, t, n) =
                                consolidate_loop clk wr mems (short', long', t', n')"
    using fs by (cases r) auto
  show ?case
  proof (cases "x = m")
    case True
    with Cons.prems(2) have w: "wr (entry_id x) = WriteOk" by simp
    have f: "files long' (mk_id (file_nextId long)) =
       Some \<lparr>entry_id = mk_id (file_nextId long), entry_type = LongTerm, content = content x,
             createdAt = clk t, accessedAt = clk t, accessCount = 0, importance = importance x,
             tags = tags x\<rparr>"
      unfolding long' w by (rule file_store_written)
    have i: "\<lparr>ix_id = mk_id (file_nextId long), ix_type = LongTerm, ix_importance = importance x,
               ix_tags = tags x, ix_createdAt = clk t, ix_accessedAt = clk t, ix_accessCount = 0\<rparr>
             \<in> set (index long')"
      unfolding long' w by (rule file_store_written)
    from consolidate_loop_long_keeps [where long = long' and clk = clk and wr = wr and mems = mems and short = short' and t = t' and n = n'] nx f i True
    show ?thesis
      unfolding step
      by (intro exI [of _ "file_nextId long"] exI [of _ "clk t"]) simp
  next
    case False
    with Cons.prems have "m \<in> set mems" by simp
    from Cons.IH [OF this Cons.prems(2), where short = short' and long = long' and t = t' and n = n'] nx
    show ?thesis unfolding step by (metis add_leD1)
  qed
qed


lemma consolidate_parts:
  "shortTermStore (fst (snd (consolidate clk sf wr (m, t)))) =
     fst (consolidate_loop clk wr
       (fst (mem_query clk sf (no_filter\<lparr>q_type := Some ShortTerm,
                minImportance := Some (consolidationImportance m)\<rparr>) (shortTermStore m, t)))
       (fst (snd (mem_query clk sf (no_filter\<lparr>q_type := Some ShortTerm,
                minImportance := Some (consolidationImportance m)\<rparr>) (shortTermStore m, t))),
        longTermStore m,
        snd (snd (mem_query clk sf (no_filter\<lparr>q_type := Some ShortTerm,
                minImportance := Some (consolidationImportance m)\<rparr>) (shortTermStore m, t))),
        0))"
  "longTermStore (fst (snd (consolidate clk sf wr (m, t)))) =
     fst (snd (consolidate_loop clk wr
       (fst (mem_query clk sf (no_filter\<lparr>q_type := Some ShortTerm,
                minImportance := Some (consolidationImportance m)\<rparr>) (shortTermStore m, t)))
       (fst (snd (mem_query clk sf (no_filter\<lparr>q_type := Some ShortTerm,
                minImportance := Some (consolidationImportance m)\<rparr>) (shortTermStore m, t))),
        longTermStore m,
        snd (snd (mem_query clk sf (no_filter\<lparr>q_type := Some ShortTerm,
                minImportance := Some (consolidationImportance m)\<rparr>) (shortTermStore m, t))),
        0)))"
  by (simp_all add: consolidate_def Let_def)

lemma consolidation_query_pred:
  "query_pred clk sf (no_filter\<lparr>q_type := Some ShortTerm, minImportance := Some threshold\<rparr>) t e
   \<longleftrightarrow> entry_type e = ShortTerm \<and> importance_value threshold \<le> importance_value (importance e)"
  by (simp add: query_pred_def no_filter_def type_matches_def tags_match_def
        importance_matches_def age_matches_def text_matches_def)

lemma consolidation_query_limit:
  "apply_limit (no_filter\<lparr>q_type := Some ShortTerm, minImportance := Some threshold\<rparr>) xs = xs"
  by (simp add: apply_limit_def no_filter_def)

lemma recordAccess_fields:
  "entry_id (recordAccess clk j e) = entry_id e" "entry_type (recordAccess clk j e) = entry_type e"
  "content (recordAccess clk j e) = content e" "importance (recordAccess clk j e) = importance e"
  "tags (recordAccess clk j e) = tags e" "createdAt (recordAccess clk j e) = createdAt e"
  by (simp_all add: recordAccess_def)

text \<open>
The short-term entries of sufficient importance: moved when the durable write succeeds, kept
when it fails.
\<close>

lemma consolidation_selected:
  assumes d: "distinct (map fst (memories (shortTermStore m)))"
      and ids: "\<forall>(k, e) \<in> set (memories (shortTermStore m)). entry_id e = k"
      and mem: "(k, e) \<in> set (memories (shortTermStore m))"
      and ty: "entry_type e = ShortTerm"
      and imp: "importance_value (consolidationImportance m) \<le> importance_value (importance e)"
  shows "(wr k = WriteOk \<longrightarrow>
            map_of (memories (shortTermStore (fst (snd (consolidate clk sf wr (m, t)))))) k = None \<and>
            (\<exists>ident e'. files (longTermStore (fst (snd (consolidate clk sf wr (m, t))))) ident = Some e' \<and>
                 ident \<in> ix_id ` set (index (longTermStore (fst (snd (consolidate clk sf wr (m, t)))))) \<and>
                 entry_id e' = ident \<and> entry_type e' = LongTerm \<and> content e' = content e \<and>
                 importance e' = importance e \<and> tags e' = tags e)) \<and>
         (wr k \<noteq> WriteOk \<longrightarrow>
            (\<exists>e''. map_of (memories (shortTermStore (fst (snd (consolidate clk sf wr (m, t)))))) k
                     = Some e'' \<and>
                 entry_id e'' = k \<and> entry_type e'' = ShortTerm \<and> content e'' = content e \<and>
                 importance e'' = importance e \<and> tags e'' = tags e))"
proof -
  let ?q = "no_filter\<lparr>q_type := Some ShortTerm, minImportance := Some (consolidationImportance m)\<rparr>"
  let ?short = "shortTermStore m"
  let ?qr = "mem_query clk sf ?q (?short, t)"
  let ?sel = "mem_select clk sf ?q (?short, t)"
  let ?acc = "recordAccess_each clk (t + age_ticks ?q) ?sel"
  let ?D = "{entry_id x | x. x \<in> set (fst ?qr) \<and> wr (entry_id x) = WriteOk}"
  let ?loop = "consolidate_loop clk wr (fst ?qr) (fst (snd ?qr), longTermStore m, snd (snd ?qr), 0)"
  from d mem have e: "map_of (memories ?short) k = Some e" by simp
  from ids mem have idk: "entry_id e = k" by auto
  have sel: "(k, e) \<in> set ?sel"
    using mem ty imp
    by (simp add: mem_select_eq consolidation_query_limit consolidation_query_pred)
  from recordAccess_each_mem_conv [OF sel, of "t + age_ticks ?q" clk] obtain j
    where j: "(k, recordAccess clk j e) \<in> set ?acc" by blast
  then have inq: "recordAccess clk j e \<in> set (fst ?qr)"
    by (force simp: mem_query_parts)
  from sel have ksel: "k \<in> fst ` set ?sel" by force
  with mem_query_entry [OF d e, of clk sf ?q t] obtain j'
    where short1: "map_of (memories (fst (snd ?qr))) k = Some (recordAccess clk j' e)" by blast
  have ids_q: "\<And>x. x \<in> set (fst ?qr) \<Longrightarrow> entry_id x = k \<Longrightarrow> wr (entry_id x) = wr k" by simp
  show ?thesis
  proof (intro conjI impI)
    assume w: "wr k = WriteOk"
    with inq idk have "k \<in> ?D"
      by (auto simp: recordAccess_fields intro!: exI [of _ "recordAccess clk j e"])
    then show "map_of (memories (shortTermStore (fst (snd (consolidate clk sf wr (m, t)))))) k = None"
      unfolding consolidate_parts consolidate_loop_short by simp
    from w idk have "wr (entry_id (recordAccess clk j e)) = WriteOk"
      by (simp add: recordAccess_fields)
    from consolidate_loop_long_written [where m = "recordAccess clk j e" and mems = "fst ?qr"
           and wr = wr and long = "longTermStore m" and clk = clk and short = "fst (snd ?qr)"
           and t = "snd (snd ?qr)" and n = 0, OF inq this]
    obtain i c where
      f: "files (fst (snd ?loop)) (mk_id i) =
            Some \<lparr>entry_id = mk_id i, entry_type = LongTerm, content = content (recordAccess clk j e),
                  createdAt = c, accessedAt = c, accessCount = 0,
                  importance = importance (recordAccess clk j e),
                  tags = tags (recordAccess clk j e)\<rparr>"
      and x: "\<lparr>ix_id = mk_id i, ix_type = LongTerm, ix_importance = importance (recordAccess clk j e),
               ix_tags = tags (recordAccess clk j e), ix_createdAt = c, ix_accessedAt = c,
               ix_accessCount = 0\<rparr> \<in> set (index (fst (snd ?loop)))"
      by blast
    from x have "mk_id i \<in> ix_id ` set (index (fst (snd ?loop)))" by force
    with f show "\<exists>ident e'. files (longTermStore (fst (snd (consolidate clk sf wr (m, t))))) ident = Some e' \<and>
                 ident \<in> ix_id ` set (index (longTermStore (fst (snd (consolidate clk sf wr (m, t)))))) \<and>
                 entry_id e' = ident \<and> entry_type e' = LongTerm \<and> content e' = content e \<and>
                 importance e' = importance e \<and> tags e' = tags e"
      unfolding consolidate_parts
      by (intro exI [of _ "mk_id i"] exI [of _ "\<lparr>entry_id = mk_id i, entry_type = LongTerm,
                  content = content (recordAccess clk j e),
                  createdAt = c, accessedAt = c, accessCount = 0,
                  importance = importance (recordAccess clk j e),
                  tags = tags (recordAccess clk j e)\<rparr>"])
         (simp add: recordAccess_fields)
  next
    assume w: "wr k \<noteq> WriteOk"
    then have "k \<notin> ?D" by auto
    then have "map_of (memories (shortTermStore (fst (snd (consolidate clk sf wr (m, t)))))) k =
                 Some (recordAccess clk j' e)"
      unfolding consolidate_parts consolidate_loop_short using short1 by simp
    then show "\<exists>e''. map_of (memories (shortTermStore (fst (snd (consolidate clk sf wr (m, t)))))) k
                     = Some e'' \<and>
                 entry_id e'' = k \<and> entry_type e'' = ShortTerm \<and> content e'' = content e \<and>
                 importance e'' = importance e \<and> tags e'' = tags e"
      using idk ty by (simp add: recordAccess_fields)
  qed
qed


lemma episodic_example_value:
  "episodic_example =
    (\<lparr>shortTermStore =
        \<lparr>memories = [(''mem-1'', \<lparr>entry_id = ''mem-1'', entry_type = Episodic,
             content = ''tool run'', createdAt = 1000, accessedAt = 1000, accessCount = 0,
             importance = High, tags = []\<rparr>)], nextId = 2\<rparr>,
      longTermStore = \<lparr>index = [], files = Map.empty, file_nextId = 1\<rparr>,
      consolidationThreshold = 100, consolidationImportance = High,
      shortTermMaxAge = 86400000\<rparr>, 1)"
  by (simp add: episodic_example_def manager_store_def mem_store_def
        maybeConsolidate_def mem_totalEntries_def new_MemoryManager_def
        new_InMemoryMemoryStore_def new_FileMemoryStore_def example_clock_def Let_def mk_id_1)

lemma short_term_example_value:
  "short_term_example =
    (\<lparr>shortTermStore =
        \<lparr>memories = [(''mem-1'', \<lparr>entry_id = ''mem-1'', entry_type = ShortTerm,
             content = ''first'', createdAt = 1000, accessedAt = 1000, accessCount = 0,
             importance = High, tags = [''a'']\<rparr>),
                    (''mem-2'', \<lparr>entry_id = ''mem-2'', entry_type = ShortTerm,
             content = ''second'', createdAt = 1001, accessedAt = 1001, accessCount = 0,
             importance = High, tags = [''b'']\<rparr>)], nextId = 3\<rparr>,
      longTermStore = \<lparr>index = [], files = Map.empty, file_nextId = 1\<rparr>,
      consolidationThreshold = 100, consolidationImportance = High,
      shortTermMaxAge = 86400000\<rparr>, 2)"
  by (simp add: short_term_example_def manager_store_def mem_store_def
        maybeConsolidate_def mem_totalEntries_def new_MemoryManager_def
        new_InMemoryMemoryStore_def new_FileMemoryStore_def example_clock_def Let_def
        mk_id_1 mk_id_2)

text \<open>
Claim C1 as stated fails for entries of another memory type. \<open>MemoryManager.store\<close> routes
an episodic entry to the volatile store; \<open>consolidate\<close> queries that store with
\<open>type: MemoryType.ShortTerm\<close>, so an episodic entry of importance High is not selected: the
count is 0, the entry stays in the volatile store and nothing is written to the durable store,
although every durable write would succeed.
\<close>

theorem episodic_not_consolidated_counterexample:
  "map_of (memories (shortTermStore (fst episodic_example))) ''mem-1'' =
     Some \<lparr>entry_id = ''mem-1'', entry_type = Episodic, content = ''tool run'',
           createdAt = 1000, accessedAt = 1000, accessCount = 0, importance = High, tags = []\<rparr> \<and>
   importance_value (consolidationImportance (fst episodic_example)) \<le> importance_value High \<and>
   no_failure ''mem-1'' = WriteOk \<and>
   fst (consolidate example_clock quoted no_failure episodic_example) = 0 \<and>
   map_of (memories (shortTermStore (fst (snd (consolidate example_clock quoted no_failure
                                                 episodic_example))))) ''mem-1'' \<noteq> None \<and>
   index (longTermStore (fst (snd (consolidate example_clock quoted no_failure episodic_example)))) = [] \<and>
   files (longTermStore (fst (snd (consolidate example_clock quoted no_failure episodic_example))))
     = Map.empty"
proof -
  have age: "age_ticks (no_filter\<lparr>q_type := Some ShortTerm, minImportance := Some High\<rparr>) = 0"
    by (simp add: age_ticks_def no_filter_def)
  have sel: "mem_select example_clock quoted
      (no_filter\<lparr>q_type := Some ShortTerm, minImportance := Some High\<rparr>)
      (shortTermStore (fst episodic_example), 1) = []"
    by (simp add: episodic_example_value mem_select_eq consolidation_query_limit
          consolidation_query_pred)
  have c: "consolidate example_clock quoted no_failure episodic_example = (0, episodic_example)"
    unfolding consolidate_def mem_query_def
    by (simp add: episodic_example_value [THEN arg_cong [where f = snd]] Let_def)
       (simp add: episodic_example_value sel [unfolded episodic_example_value, simplified] age)
  show ?thesis unfolding c by (simp add: episodic_example_value no_failure_def)
qed

lemma second_write_fails_values:
  "second_write_fails ''mem-1'' = WriteOk" "second_write_fails ''mem-2'' \<noteq> WriteOk"
  by (simp_all add: second_write_fails_def)

lemma consolidation_selection:
  "(k, e) \<in> set (mem_select clk sf
       (no_filter\<lparr>q_type := Some ShortTerm, minImportance := Some threshold\<rparr>) (s, t)) \<longleftrightarrow>
   (k, e) \<in> set (memories s) \<and> entry_type e = ShortTerm \<and>
   importance_value threshold \<le> importance_value (importance e)"
  by (simp add: mem_select_eq consolidation_query_limit consolidation_query_pred)

text \<open>The entries that the query of \<open>consolidate\<close> does not select stay as they are.\<close>

lemma consolidation_unselected:
  assumes d: "distinct (map fst (memories (shortTermStore m)))"
      and ids: "\<forall>(k, e) \<in> set (memories (shortTermStore m)). entry_id e = k"
      and mem: "(k, e) \<in> set (memories (shortTermStore m))"
      and n: "\<not> (entry_type e = ShortTerm \<and>
                 importance_value (consolidationImportance m) \<le> importance_value (importance e))"
  shows "map_of (memories (shortTermStore (fst (snd (consolidate clk sf wr (m, t)))))) k = Some e"
proof -
  let ?q = "no_filter\<lparr>q_type := Some ShortTerm, minImportance := Some (consolidationImportance m)\<rparr>"
  let ?short = "shortTermStore m"
  let ?qr = "mem_query clk sf ?q (?short, t)"
  let ?sel = "mem_select clk sf ?q (?short, t)"
  let ?acc = "recordAccess_each clk (t + age_ticks ?q) ?sel"
  let ?D = "{entry_id x | x. x \<in> set (fst ?qr) \<and> wr (entry_id x) = WriteOk}"
  from d mem have e: "map_of (memories ?short) k = Some e" by simp
  have nosel: "k \<notin> fst ` set ?sel"
  proof
    assume "k \<in> fst ` set ?sel"
    then obtain e' where s: "(k, e') \<in> set ?sel" by force
    then have "(k, e') \<in> set (memories ?short)" by (simp add: consolidation_selection)
    with d e have "e' = e" by simp
    with s n show False by (simp add: consolidation_selection)
  qed
  with mem_query_entry [OF d e, of clk sf ?q t]
  have short1: "map_of (memories (fst (snd ?qr))) k = Some e" by blast
  have "k \<notin> ?D"
  proof
    assume "k \<in> ?D"
    then obtain x where x: "x \<in> set (fst ?qr)" "entry_id x = k" by auto
    then obtain k' where "(k', x) \<in> set ?acc" by (auto simp: mem_query_parts)
    from recordAccess_each_mem [OF this] obtain e' j
      where s: "(k', e') \<in> set ?sel" and xe: "x = recordAccess clk j e'" by blast
    from s have "(k', e') \<in> set (memories ?short)" by (simp add: consolidation_selection)
    with ids have "entry_id e' = k'" by auto
    with xe x(2) have "k' = k" by (simp add: recordAccess_fields)
    with s nosel show False by force
  qed
  then show ?thesis
    unfolding consolidate_parts consolidate_loop_short using short1 by simp
qed

lemma file_store_files:
  "files (fst (snd (file_store clk wo ty c imp tgs (fs, t)))) ident = Some e' \<Longrightarrow>
   files fs ident = Some e' \<or>
   (entry_type e' = ty \<and> content e' = c \<and> importance e' = imp \<and> tags e' = tgs)"
  by (cases wo) (auto simp add: file_store_def Let_def split: if_splits)

text \<open>Every file that the loop adds to the durable store is a long-term copy of one of the memories.\<close>

lemma consolidate_loop_provenance:
  "files (fst (snd (consolidate_loop clk wr mems (short, long, t, n)))) ident = Some e' \<Longrightarrow>
   files long ident = Some e' \<or>
   (\<exists>x \<in> set mems. entry_type e' = LongTerm \<and> content e' = content x \<and>
        importance e' = importance x \<and> tags e' = tags x)"
proof (induction mems arbitrary: short long t n)
  case Nil
  then show ?case by simp
next
  case (Cons m mems)
  obtain r long' t' where fs: "file_store clk (wr (entry_id m)) LongTerm (content m)
             (importance m) (tags m) (long, t) = (r, long', t')"
    by (cases "file_store clk (wr (entry_id m)) LongTerm (content m)
             (importance m) (tags m) (long, t)") auto
  have step: "files long' ident = Some e' \<Longrightarrow>
     files long ident = Some e' \<or>
     (entry_type e' = LongTerm \<and> content e' = content m \<and> importance e' = importance m \<and>
      tags e' = tags m)"
    using file_store_files [of clk "wr (entry_id m)" LongTerm "content m" "importance m" "tags m"
            long t ident e'] fs by simp
  have "\<exists>short' n'. consolidate_loop clk wr (m # mems) (short, long, t, n) =
          consolidate_loop clk wr mems (short', long', t', n')"
    using fs by (cases r) auto
  then obtain short' n' where
    "consolidate_loop clk wr (m # mems) (short, long, t, n) =
       consolidate_loop clk wr mems (short', long', t', n')" by blast
  with Cons.prems have "files (fst (snd (consolidate_loop clk wr mems (short', long', t', n')))) ident
      = Some e'" by simp
  from Cons.IH [OF this] step show ?case by auto
qed

lemma consolidation_provenance:
  assumes f: "files (longTermStore (fst (snd (consolidate clk sf wr (m, t))))) ident = Some e'"
  shows "files (longTermStore m) ident = Some e' \<or>
         (entry_type e' = LongTerm \<and>
          (\<exists>(k, s) \<in> set (memories (shortTermStore m)).
              entry_type s = ShortTerm \<and>
              importance_value (consolidationImportance m) \<le> importance_value (importance s) \<and>
              content e' = content s \<and> importance e' = importance s \<and> tags e' = tags s))"
proof -
  let ?q = "no_filter\<lparr>q_type := Some ShortTerm, minImportance := Some (consolidationImportance m)\<rparr>"
  let ?short = "shortTermStore m"
  let ?qr = "mem_query clk sf ?q (?short, t)"
  let ?sel = "mem_select clk sf ?q (?short, t)"
  let ?acc = "recordAccess_each clk (t + age_ticks ?q) ?sel"
  from f consolidate_loop_provenance [of clk wr "fst ?qr" "fst (snd ?qr)" "longTermStore m"
          "snd (snd ?qr)" 0 ident e']
  have "files (longTermStore m) ident = Some e' \<or>
        (\<exists>x \<in> set (fst ?qr). entry_type e' = LongTerm \<and> content e' = content x \<and>
            importance e' = importance x \<and> tags e' = tags x)"
    unfolding consolidate_parts by simp
  then show ?thesis
  proof
    assume "files (longTermStore m) ident = Some e'"
    then show ?thesis by simp
  next
    assume "\<exists>x \<in> set (fst ?qr). entry_type e' = LongTerm \<and> content e' = content x \<and>
            importance e' = importance x \<and> tags e' = tags x"
    then obtain x where x: "x \<in> set (fst ?qr)" and c: "entry_type e' = LongTerm"
        "content e' = content x" "importance e' = importance x" "tags e' = tags x" by blast
    from x obtain k where "(k, x) \<in> set ?acc" by (auto simp: mem_query_parts)
    from recordAccess_each_mem [OF this] obtain s j
      where s: "(k, s) \<in> set ?sel" and xe: "x = recordAccess clk j s" by blast
    from s have "(k, s) \<in> set (memories ?short)" "entry_type s = ShortTerm"
        "importance_value (consolidationImportance m) \<le> importance_value (importance s)"
      by (simp_all add: consolidation_selection)
    with c xe show ?thesis by (auto simp: recordAccess_fields)
  qed
qed


text \<open>
Claim C1, as amended. Let the volatile store of the manager hold entries under distinct keys,
each keyed by its own id, and let \<open>e\<close> be an entry of it. If \<open>e\<close> is of memory type
short-term and its importance is at least the configured consolidation importance, then after
\<open>consolidate\<close>: if the durable write made for \<open>e\<close> succeeds, the volatile store no longer
has \<open>e\<close> and the durable store has, in its index and among its files, a long-term entry with
the content, importance and tags of \<open>e\<close>; if the durable write fails, \<open>e\<close> is still in the
volatile store with its content, importance and tags. If \<open>e\<close> is of another memory type (or
of lower importance), it is in the volatile store afterwards exactly as before. And no other
entry is consolidated: every entry file of the durable store after \<open>consolidate\<close> was there
before or is a long-term entry with the content, importance and tags of a short-term entry of
the volatile store of sufficient importance. The oracle \<open>wr\<close> gives the outcome of the
durable write made for each source entry.
\<close>

theorem consolidation_moves_short_term:
  assumes d: "distinct (map fst (memories (shortTermStore m)))"
      and ids: "\<forall>(k, e) \<in> set (memories (shortTermStore m)). entry_id e = k"
      and mem: "(k, e) \<in> set (memories (shortTermStore m))"
  shows "(entry_type e = ShortTerm \<and>
          importance_value (consolidationImportance m) \<le> importance_value (importance e) \<longrightarrow>
            (wr k = WriteOk \<longrightarrow>
               map_of (memories (shortTermStore (fst (snd (consolidate clk sf wr (m, t)))))) k = None \<and>
               (\<exists>ident e'. files (longTermStore (fst (snd (consolidate clk sf wr (m, t))))) ident = Some e' \<and>
                    ident \<in> ix_id ` set (index (longTermStore (fst (snd (consolidate clk sf wr (m, t)))))) \<and>
                    entry_id e' = ident \<and> entry_type e' = LongTerm \<and> content e' = content e \<and>
                    importance e' = importance e \<and> tags e' = tags e)) \<and>
            (wr k \<noteq> WriteOk \<longrightarrow>
               (\<exists>e''. map_of (memories (shortTermStore (fst (snd (consolidate clk sf wr (m, t)))))) k
                        = Some e'' \<and>
                    entry_id e'' = k \<and> entry_type e'' = ShortTerm \<and> content e'' = content e \<and>
                    importance e'' = importance e \<and> tags e'' = tags e))) \<and>
         (\<not> (entry_type e = ShortTerm \<and>
              importance_value (consolidationImportance m) \<le> importance_value (importance e)) \<longrightarrow>
            map_of (memories (shortTermStore (fst (snd (consolidate clk sf wr (m, t)))))) k = Some e) \<and>
         (\<forall>ident e'.
            files (longTermStore (fst (snd (consolidate clk sf wr (m, t))))) ident = Some e' \<longrightarrow>
            files (longTermStore m) ident = Some e' \<or>
            (entry_type e' = LongTerm \<and>
             (\<exists>(k', s) \<in> set (memories (shortTermStore m)).
                 entry_type s = ShortTerm \<and>
                 importance_value (consolidationImportance m) \<le> importance_value (importance s) \<and>
                 content e' = content s \<and> importance e' = importance s \<and> tags e' = tags s)))"
proof (intro conjI)
  show "entry_type e = ShortTerm \<and>
          importance_value (consolidationImportance m) \<le> importance_value (importance e) \<longrightarrow>
            (wr k = WriteOk \<longrightarrow>
               map_of (memories (shortTermStore (fst (snd (consolidate clk sf wr (m, t)))))) k = None \<and>
               (\<exists>ident e'. files (longTermStore (fst (snd (consolidate clk sf wr (m, t))))) ident = Some e' \<and>
                    ident \<in> ix_id ` set (index (longTermStore (fst (snd (consolidate clk sf wr (m, t)))))) \<and>
                    entry_id e' = ident \<and> entry_type e' = LongTerm \<and> content e' = content e \<and>
                    importance e' = importance e \<and> tags e' = tags e)) \<and>
            (wr k \<noteq> WriteOk \<longrightarrow>
               (\<exists>e''. map_of (memories (shortTermStore (fst (snd (consolidate clk sf wr (m, t)))))) k
                        = Some e'' \<and>
                    entry_id e'' = k \<and> entry_type e'' = ShortTerm \<and> content e'' = content e \<and>
                    importance e'' = importance e \<and> tags e'' = tags e))"
    using consolidation_selected [OF d ids mem, of wr clk sf t] by blast
  show "\<not> (entry_type e = ShortTerm \<and>
              importance_value (consolidationImportance m) \<le> importance_value (importance e)) \<longrightarrow>
            map_of (memories (shortTermStore (fst (snd (consolidate clk sf wr (m, t)))))) k = Some e"
    using consolidation_unselected [OF d ids mem, of clk sf wr t] by blast
  show "\<forall>ident e'.
            files (longTermStore (fst (snd (consolidate clk sf wr (m, t))))) ident = Some e' \<longrightarrow>
            files (longTermStore m) ident = Some e' \<or>
            (entry_type e' = LongTerm \<and>
             (\<exists>(k', s) \<in> set (memories (shortTermStore m)).
                 entry_type s = ShortTerm \<and>
                 importance_value (consolidationImportance m) \<le> importance_value (importance s) \<and>
                 content e' = content s \<and> importance e' = importance s \<and> tags e' = tags s))"
    using consolidation_provenance [of clk sf wr m t] by blast
qed

lemma mixed_example_value:
  "mixed_example =
    (\<lparr>shortTermStore =
        \<lparr>memories = [(''mem-1'', \<lparr>entry_id = ''mem-1'', entry_type = ShortTerm,
             content = ''first'', createdAt = 1000, accessedAt = 1000, accessCount = 0,
             importance = High, tags = [''a'']\<rparr>),
                    (''mem-2'', \<lparr>entry_id = ''mem-2'', entry_type = ShortTerm,
             content = ''second'', createdAt = 1001, accessedAt = 1001, accessCount = 0,
             importance = High, tags = [''b'']\<rparr>),
                    (''mem-3'', \<lparr>entry_id = ''mem-3'', entry_type = Episodic,
             content = ''tool run'', createdAt = 1002, accessedAt = 1002, accessCount = 0,
             importance = High, tags = []\<rparr>)], nextId = 4\<rparr>,
      longTermStore = \<lparr>index = [], files = Map.empty, file_nextId = 1\<rparr>,
      consolidationThreshold = 100, consolidationImportance = High,
      shortTermMaxAge = 86400000\<rparr>, 3)"
  unfolding mixed_example_def short_term_example_value
  by (simp add: manager_store_def mem_store_def maybeConsolidate_def mem_totalEntries_def
        example_clock_def Let_def mk_id_3)

text \<open>
The amended property at a manager with two short-term entries and an episodic entry, all of
importance High, where the durable write for the second entry fails: the first is moved, the
second stays, the episodic entry stays as it is and has no copy in the durable store.
\<close>

theorem consolidation_moves_short_term_witness:
  "map fst (memories (shortTermStore (fst mixed_example))) = [''mem-1'', ''mem-2'', ''mem-3''] \<and>
   map (entry_id \<circ> snd) (memories (shortTermStore (fst mixed_example)))
     = [''mem-1'', ''mem-2'', ''mem-3''] \<and>
   map (entry_type \<circ> snd) (memories (shortTermStore (fst mixed_example)))
     = [ShortTerm, ShortTerm, Episodic] \<and>
   map (importance \<circ> snd) (memories (shortTermStore (fst mixed_example))) = [High, High, High] \<and>
   consolidationImportance (fst mixed_example) = High \<and>
   files (longTermStore (fst mixed_example)) = Map.empty \<and>
   second_write_fails ''mem-1'' = WriteOk \<and> second_write_fails ''mem-2'' \<noteq> WriteOk \<and>
   map_of (memories (shortTermStore (fst (snd (consolidate example_clock quoted second_write_fails
       mixed_example))))) ''mem-1'' = None \<and>
   (\<exists>ident e'. files (longTermStore (fst (snd (consolidate example_clock quoted
         second_write_fails mixed_example)))) ident = Some e' \<and>
       entry_type e' = LongTerm \<and> content e' = ''first'' \<and> importance e' = High \<and>
       tags e' = [''a'']) \<and>
   (\<exists>e''. map_of (memories (shortTermStore (fst (snd (consolidate example_clock quoted
         second_write_fails mixed_example))))) ''mem-2'' = Some e'' \<and>
       entry_type e'' = ShortTerm \<and> content e'' = ''second'' \<and> tags e'' = [''b'']) \<and>
   map_of (memories (shortTermStore (fst (snd (consolidate example_clock quoted second_write_fails
       mixed_example))))) ''mem-3'' =
     Some \<lparr>entry_id = ''mem-3'', entry_type = Episodic, content = ''tool run'', createdAt = 1002,
           accessedAt = 1002, accessCount = 0, importance = High, tags = []\<rparr> \<and>
   \<not> (\<exists>ident e'. files (longTermStore (fst (snd (consolidate example_clock quoted
         second_write_fails mixed_example)))) ident = Some e' \<and> content e' = ''tool run'')"
proof -
  let ?m = "fst mixed_example"
  let ?ea = "\<lparr>entry_id = ''mem-1'', entry_type = ShortTerm,
             content = ''first'', createdAt = 1000, accessedAt = 1000, accessCount = 0,
             importance = High, tags = [''a'']\<rparr>"
  let ?eb = "\<lparr>entry_id = ''mem-2'', entry_type = ShortTerm,
             content = ''second'', createdAt = 1001, accessedAt = 1001, accessCount = 0,
             importance = High, tags = [''b'']\<rparr>"
  let ?ec = "\<lparr>entry_id = ''mem-3'', entry_type = Episodic,
             content = ''tool run'', createdAt = 1002, accessedAt = 1002, accessCount = 0,
             importance = High, tags = []\<rparr>"
  let ?after = "fst (snd (consolidate example_clock quoted second_write_fails mixed_example))"
  have mems: "memories (shortTermStore ?m) = [(''mem-1'', ?ea), (''mem-2'', ?eb), (''mem-3'', ?ec)]"
    by (simp add: mixed_example_value)
  have ci: "consolidationImportance ?m = High"
    by (simp add: mixed_example_value)
  have fl: "files (longTermStore ?m) = Map.empty"
    by (simp add: mixed_example_value)
  have d: "distinct (map fst (memories (shortTermStore ?m)))"
    by (simp add: mems)
  have ids: "\<forall>(k, e) \<in> set (memories (shortTermStore ?m)). entry_id e = k"
    by (simp add: mems)
  have ma: "(''mem-1'', ?ea) \<in> set (memories (shortTermStore ?m))"
    by (simp add: mems)
  have mb: "(''mem-2'', ?eb) \<in> set (memories (shortTermStore ?m))"
    by (simp add: mems)
  have mc: "(''mem-3'', ?ec) \<in> set (memories (shortTermStore ?m))"
    by (simp add: mems)
  have pair: "(?m, snd mixed_example) = mixed_example" by simp
  note a = consolidation_moves_short_term [where m = ?m and k = "''mem-1''" and e = ?ea
      and wr = second_write_fails and clk = example_clock and sf = quoted
      and t = "snd mixed_example", OF d ids ma, unfolded pair]
  note b = consolidation_moves_short_term [where m = ?m and k = "''mem-2''" and e = ?eb
      and wr = second_write_fails and clk = example_clock and sf = quoted
      and t = "snd mixed_example", OF d ids mb, unfolded pair]
  note c = consolidation_moves_short_term [where m = ?m and k = "''mem-3''" and e = ?ec
      and wr = second_write_fails and clk = example_clock and sf = quoted
      and t = "snd mixed_example", OF d ids mc, unfolded pair]
  have ra: "map_of (memories (shortTermStore ?after)) ''mem-1'' = None \<and>
   (\<exists>ident e'. files (longTermStore ?after) ident = Some e' \<and>
       entry_type e' = LongTerm \<and> content e' = ''first'' \<and> importance e' = High \<and>
       tags e' = [''a''])"
    using a [THEN conjunct1] second_write_fails_values(1) by (simp add: ci) blast
  have rb: "\<exists>e''. map_of (memories (shortTermStore ?after)) ''mem-2'' = Some e'' \<and>
       entry_type e'' = ShortTerm \<and> content e'' = ''second'' \<and> tags e'' = [''b'']"
    using b [THEN conjunct1] second_write_fails_values(2) by (simp add: ci) blast
  have rc: "map_of (memories (shortTermStore ?after)) ''mem-3'' = Some ?ec"
    using c [THEN conjunct2, THEN conjunct1] by simp
  have prov: "\<And>ident e'. files (longTermStore ?after) ident = Some e' \<Longrightarrow>
                content e' = ''first'' \<or> content e' = ''second''"
    using c [THEN conjunct2, THEN conjunct2] by (auto simp add: fl mems)
  have rd: "\<not> (\<exists>ident e'. files (longTermStore ?after) ident = Some e' \<and> content e' = ''tool run'')"
    using prov by fastforce
  show ?thesis
    using ra rb rc rd second_write_fails_values by (simp add: mems ci fl)
qed


section \<open>Properties of the calculator tool\<close>

lemma regex_test_fails:
  "expression = [] \<or> (\<exists>c \<in> set expression. \<not> calculator_allowed c) \<longleftrightarrow>
   \<not> expression_regex_test expression"
  by (auto simp add: expression_regex_test_def list_all_iff)

lemma calculator_run_rejects:
  assumes "map_of params ''expression'' = Some expression"
      and "\<not> expression_regex_test expression"
  shows "calculator_run js_Function params =
     (Inr \<lparr>success = False, tool_output = None,
           error = Some ''Invalid expression. Only numbers and basic operators are allowed.'',
           metadata = None\<rparr>, [])"
  using assms by (simp add: calculator_run_def try_catch_def)

lemma calculator_run_evaluates:
  assumes "map_of params ''expression'' = Some expression"
      and "expression_regex_test expression"
  shows "calculator_run js_Function params =
     (case js_Function (function_body expression) of
        Inl e \<Rightarrow> Inr \<lparr>success = False, tool_output = None, error = Some (error_message e),
                     metadata = None\<rparr>
      | Inr v \<Rightarrow> Inr \<lparr>success = True, tool_output = Some v, error = None, metadata = None\<rparr>,
      [function_body expression])"
  using assms by (simp add: calculator_run_def try_catch_def split: sum.splits)

lemma two_plus_two:
  "expression_regex_test ''2 + 2''" "js_fragment (function_body ''2 + 2'') = Some (Returns 4)"
  by code_simp+

lemma two_plus:
  "expression_regex_test ''2 +''" "js_fragment (function_body ''2 +'') = Some ThrowsSyntaxError"
  by code_simp+

lemma import_rejected: "\<not> expression_regex_test import_expression"
  by code_simp

lemma engine_agreesD:
  "engine_agrees js_Function \<Longrightarrow> js_fragment body = Some (Returns v) \<Longrightarrow> js_Function body = Inr v"
  unfolding engine_agrees_def by (drule spec [where x = body]) simp

lemma reference_engine_agrees: "engine_agrees reference_engine"
  by (simp add: engine_agrees_def reference_engine_def split: option.splits js_outcome.splits)

text \<open>
Claim C9, as amended. For every engine and every parameter object whose \<open>expression\<close> is
the given text: if the text is empty or has a character outside the class (digits,
\<open>+ - * / ( ) .\<close> and white space), the calculator answers \<open>success: false\<close> with an error
beginning \<open>Invalid expression\<close> and hands nothing to the engine; if the text passes the
test, the calculator hands \<open>'use strict'; return (expression)\<close> to the engine once, answers
\<open>success: true\<close> with the value when the engine returns one, and \<open>success: false\<close> with
the message of the thrown value when the engine throws. With an engine that agrees with the
fragment of JavaScript described above, \<open>2 + 2\<close> gives \<open>success: true\<close> and the output 4.
\<close>

theorem calculator_checks_then_evaluates:
  assumes p: "map_of params ''expression'' = Some expression"
  shows "(expression = [] \<or> (\<exists>c \<in> set expression. \<not> calculator_allowed c) \<longrightarrow>
            (\<exists>msg. calculator_run js_Function params =
                     (Inr \<lparr>success = False, tool_output = None, error = Some msg,
                           metadata = None\<rparr>, []) \<and>
                   prefix ''Invalid expression'' msg)) \<and>
         (expression_regex_test expression \<longrightarrow>
            snd (calculator_run js_Function params) = [function_body expression] \<and>
            (\<forall>v. js_Function (function_body expression) = Inr v \<longrightarrow>
                 calculator_executor js_Function params =
                   Inr \<lparr>success = True, tool_output = Some v, error = None, metadata = None\<rparr>) \<and>
            (\<forall>e. js_Function (function_body expression) = Inl e \<longrightarrow>
                 calculator_executor js_Function params =
                   Inr \<lparr>success = False, tool_output = None, error = Some (error_message e),
                        metadata = None\<rparr>)) \<and>
         (engine_agrees js_Function \<and> expression = ''2 + 2'' \<longrightarrow>
            calculator_executor js_Function params =
              Inr \<lparr>success = True, tool_output = Some 4, error = None, metadata = None\<rparr>)"
proof (intro conjI impI)
  assume "expression = [] \<or> (\<exists>c \<in> set expression. \<not> calculator_allowed c)"
  then have "\<not> expression_regex_test expression"
    using regex_test_fails [of expression] by blast
  from calculator_run_rejects [OF p this, of js_Function]
  show "\<exists>msg. calculator_run js_Function params =
                (Inr \<lparr>success = False, tool_output = None, error = Some msg, metadata = None\<rparr>, []) \<and>
              prefix ''Invalid expression'' msg"
    by simp
next
  assume t: "expression_regex_test expression"
  note run = calculator_run_evaluates [OF p t, of js_Function]
  show "snd (calculator_run js_Function params) = [function_body expression]"
    by (simp add: run)
  show "\<forall>v. js_Function (function_body expression) = Inr v \<longrightarrow>
          calculator_executor js_Function params =
            Inr \<lparr>success = True, tool_output = Some v, error = None, metadata = None\<rparr>"
    by (simp add: calculator_executor_def run)
  show "\<forall>e. js_Function (function_body expression) = Inl e \<longrightarrow>
          calculator_executor js_Function params =
            Inr \<lparr>success = False, tool_output = None, error = Some (error_message e),
                 metadata = None\<rparr>"
    by (simp add: calculator_executor_def run)
next
  assume a: "engine_agrees js_Function \<and> expression = ''2 + 2''"
  then have e: "js_Function (function_body ''2 + 2'') = Inr 4"
    using engine_agreesD two_plus_two(2) by blast
  from a p have p': "map_of params ''expression'' = Some ''2 + 2''" by simp
  show "calculator_executor js_Function params =
          Inr \<lparr>success = True, tool_output = Some 4, error = None, metadata = None\<rparr>"
    by (simp add: calculator_executor_def calculator_run_evaluates [OF p' two_plus_two(1)] e)
qed

text \<open>
Claim C9 as stated fails for a text that passes the test of the character class and is not an
expression: for \<open>2 +\<close> the body is \<open>'use strict'; return (2 +)\<close>, on which the
\<open>Function\<close> constructor throws a \<open>SyntaxError\<close>; the \<open>catch\<close> of the executor turns it
into an answer with \<open>success: false\<close> and no output.
\<close>

theorem malformed_expression_counterexample:
  "expression_regex_test ''2 +'' \<and>
   js_fragment (function_body ''2 +'') = Some ThrowsSyntaxError \<and>
   \<not> isl (calculator_executor reference_engine [(''expression'', ''2 +'')]) \<and>
   success (projr (calculator_executor reference_engine [(''expression'', ''2 +'')])) = False \<and>
   tool_output (projr (calculator_executor reference_engine [(''expression'', ''2 +'')])) = None"
proof -
  have p: "map_of [(''expression'', ''2 +'')] ''expression'' = Some ''2 +''" by simp
  have e: "reference_engine (function_body ''2 +'') =
             Inl (Error ''Unexpected token'' ''SyntaxError: Unexpected token'')"
    by (simp add: reference_engine_def two_plus(2))
  show ?thesis
    by (simp add: two_plus calculator_executor_def
          calculator_run_evaluates [OF p two_plus(1)] e)
qed

text \<open>
The amended property at the two scenarios of the specification, \<open>2 + 2\<close> and
\<open>2 + import('fs')\<close>, with the reference engine.
\<close>

theorem calculator_checks_then_evaluates_witness:
  "map_of [(''expression'', ''2 + 2'')] ''expression'' = Some ''2 + 2'' \<and>
   expression_regex_test ''2 + 2'' \<and> engine_agrees reference_engine \<and>
   snd (calculator_run reference_engine [(''expression'', ''2 + 2'')]) = [function_body ''2 + 2''] \<and>
   calculator_executor reference_engine [(''expression'', ''2 + 2'')] =
     Inr \<lparr>success = True, tool_output = Some 4, error = None, metadata = None\<rparr> \<and>
   map_of [(''expression'', import_expression)] ''expression'' = Some import_expression \<and>
   (\<exists>c \<in> set import_expression. \<not> calculator_allowed c) \<and>
   (\<exists>msg. calculator_run reference_engine [(''expression'', import_expression)] =
            (Inr \<lparr>success = False, tool_output = None, error = Some msg, metadata = None\<rparr>, []) \<and>
          prefix ''Invalid expression'' msg)"
proof -
  have pa: "map_of [(''expression'', ''2 + 2'')] ''expression'' = Some ''2 + 2''" by simp
  have pb: "map_of [(''expression'', import_expression)] ''expression'' = Some import_expression"
    by simp
  have bad: "\<exists>c \<in> set import_expression. \<not> calculator_allowed c"
    using import_rejected regex_test_fails [of import_expression]
    by (simp add: import_expression_def)
  note a = calculator_checks_then_evaluates [where params = "[(''expression'', ''2 + 2'')]"
      and expression = "''2 + 2''" and js_Function = reference_engine, OF pa]
  note b = calculator_checks_then_evaluates [where params = "[(''expression'', import_expression)]"
      and expression = import_expression and js_Function = reference_engine, OF pb]
  from a two_plus_two(1) reference_engine_agrees
  have ra: "snd (calculator_run reference_engine [(''expression'', ''2 + 2'')])
              = [function_body ''2 + 2''] \<and>
            calculator_executor reference_engine [(''expression'', ''2 + 2'')] =
              Inr \<lparr>success = True, tool_output = Some 4, error = None, metadata = None\<rparr>"
    by blast
  from b bad
  have rb: "\<exists>msg. calculator_run reference_engine [(''expression'', import_expression)] =
            (Inr \<lparr>success = False, tool_output = None, error = Some msg, metadata = None\<rparr>, []) \<and>
          prefix ''Invalid expression'' msg"
    by blast
  from pa pb bad ra rb two_plus_two(1) reference_engine_agrees show ?thesis by blast
qed

end
